(* ===== verification/Prelude.thy ===== *)
theory Prelude
  imports Main
begin

text \<open>
  Shared vocabulary of the development: the scalar values a Python caller passes to the
  driver, the exceptions the program can raise, Python's \<open>str.join\<close>, the character
  classes of the query language's lexer, and generic lemmas on association lists and
  strings that the component theories use through \<open>simp add:\<close> and the collections
  declared here.
\<close>

named_theorems str_simps "rewrite rules for the strings the query builders produce"
named_theorems alist_simps "rewrite rules for association lists used as Python dicts"

subsection \<open>Values and dictionaries\<close>

text \<open>
  The scalar property values of the source (\<open>"Alice"\<close>, \<open>30\<close>, booleans). A Python
  dict of such values is an association list in insertion order, which is the order
  \<open>properties.keys()\<close> iterates in.
\<close>

datatype scalar = VStr string | VInt int | VBool bool

type_synonym props = "(string \<times> scalar) list"

text \<open>A driver parameter is a scalar or a map of scalars (the \<open>$properties\<close> map).\<close>

datatype pvalue = PV scalar | PMap props

type_synonym params = "(string \<times> pvalue) list"

subsection \<open>Exceptions\<close>

text \<open>
  Every exception that reaches the caller of \<open>Neo4jConnection\<close>: the Python runtime's
  own (\<open>AttributeError\<close> on \<open>None._session\<close>, \<open>KeyError\<close> on a record) and those the
  driver raises (configuration, connectivity, authentication, closed objects, and the
  server's statement errors).
\<close>

datatype error =
    AttributeError
  | KeyError
  | ConfigurationError
  | DriverClosed
  | SessionClosed
  | TransactionError
  | ServiceUnavailable
  | AuthError
  | CypherSyntaxError
  | CypherTypeError
  | ParameterMissing
  | EntityNotFound

type_synonym 'a exc = "error + 'a"

subsection \<open>Python's \<open>str.join\<close>\<close>

fun py_join :: "string \<Rightarrow> string list \<Rightarrow> string" where
  "py_join sep [] = []"
| "py_join sep [x] = x"
| "py_join sep (x # y # xs) = x @ sep @ py_join sep (y # xs)"

lemma py_join_Cons [str_simps]:
  "py_join sep (x # xs) = (if xs = [] then x else x @ sep @ py_join sep xs)"
  by (cases xs) simp_all

subsection \<open>Character classes\<close>

definition is_ident_char :: "char \<Rightarrow> bool" where
  "is_ident_char c \<longleftrightarrow>
     (let n = (of_char c :: nat) in
        (48 \<le> n \<and> n \<le> 57) \<or> (65 \<le> n \<and> n \<le> 90) \<or> (97 \<le> n \<and> n \<le> 122) \<or> n = 95)"

definition is_space :: "char \<Rightarrow> bool" where
  "is_space c \<longleftrightarrow> c \<in> {CHR '' '', CHR 0x09, CHR 0x0A, CHR 0x0D}"

definition is_ident_start :: "char \<Rightarrow> bool" where
  "is_ident_start c \<longleftrightarrow> is_ident_char c \<and> \<not> (48 \<le> (of_char c :: nat) \<and> (of_char c :: nat) \<le> 57)"

text \<open>
  A name the lexer reads as one identifier token: a letter or underscore, then letters,
  digits and underscores.
\<close>

fun is_ident :: "string \<Rightarrow> bool" where
  "is_ident [] = False"
| "is_ident (c # cs) \<longleftrightarrow> is_ident_start c \<and> list_all is_ident_char cs"

text \<open>Upper-casing, for the case-insensitive keywords of the query language.\<close>

definition upper_char :: "char \<Rightarrow> char" where
  "upper_char c =
     (let n = (of_char c :: nat) in if 97 \<le> n \<and> n \<le> 122 then char_of (n - 32) else c)"

definition upper :: "string \<Rightarrow> string" where
  "upper s = map upper_char s"

lemma space_not_ident [simp]: "is_space c \<Longrightarrow> \<not> is_ident_char c"
  by (auto simp: is_space_def is_ident_char_def)

lemma ident_start_char [simp]: "is_ident_start c \<Longrightarrow> is_ident_char c"
  by (simp add: is_ident_start_def)

lemma ident_start_not_space [simp]: "is_ident_start c \<Longrightarrow> \<not> is_space c"
  by (auto simp: is_space_def is_ident_start_def is_ident_char_def)

lemma is_ident_not_Nil [simp]: "is_ident s \<Longrightarrow> s \<noteq> []"
  by (cases s) simp_all

lemma is_ident_all_chars [str_simps]: "is_ident s \<Longrightarrow> list_all is_ident_char s"
  by (cases s) simp_all

text \<open>
  The word-splitting lemmas are stated over an arbitrary non-empty rest whose first
  character ends the word, so that they apply to a symbolic rest as well as a literal.
\<close>

definition word_end :: "string \<Rightarrow> bool" where
  "word_end rest \<longleftrightarrow> rest \<noteq> [] \<and> \<not> is_ident_char (hd rest)"

lemma word_end_Cons [simp]: "word_end (c # r) \<longleftrightarrow> \<not> is_ident_char c"
  by (simp add: word_end_def)

lemma word_end_append [simp]: "word_end (s @ r) \<longleftrightarrow> (if s = [] then word_end r else word_end s)"
  by (cases s) simp_all

lemma takeWhile_ident_append [str_simps]:
  "list_all is_ident_char s \<Longrightarrow> word_end rest \<Longrightarrow> takeWhile is_ident_char (s @ rest) = s"
  by (induction s) (auto simp: word_end_def neq_Nil_conv)

lemma dropWhile_ident_append [str_simps]:
  "list_all is_ident_char s \<Longrightarrow> word_end rest \<Longrightarrow> dropWhile is_ident_char (s @ rest) = rest"
  by (induction s) (auto simp: word_end_def neq_Nil_conv)

lemma takeWhile_ident_all [str_simps]:
  "list_all is_ident_char s \<Longrightarrow> takeWhile is_ident_char s = s"
  by (induction s) auto

lemma dropWhile_ident_all [str_simps]:
  "list_all is_ident_char s \<Longrightarrow> dropWhile is_ident_char s = []"
  by (induction s) auto

subsection \<open>Lists\<close>

lemma product_Nil_right [simp]: "List.product xs [] = []"
  by (induction xs) simp_all

subsection \<open>Association lists\<close>

lemma map_of_map_PV [alist_simps]:
  "map_of (map (\<lambda>(k, v). (k, PV v)) ps) k = map_option PV (map_of ps k)"
  by (induction ps) auto

lemma map_of_Some_in_set [alist_simps]:
  "map_of ps k = Some v \<Longrightarrow> (k, v) \<in> set ps"
  by (rule map_of_SomeD)

lemma map_of_filter_key [alist_simps]:
  "map_of (filter (\<lambda>(k, _). P k) xs) k = (if P k then map_of xs k else None)"
  by (induction xs) auto

lemma map_of_filter_value [alist_simps]:
  "distinct (map fst xs) \<Longrightarrow>
   map_of (filter (\<lambda>(_, v). P v) xs) k =
     (case map_of xs k of None \<Rightarrow> None | Some v \<Rightarrow> if P v then Some v else None)"
proof (induction xs)
  case (Cons a xs)
  obtain k' v where a: "a = (k', v)" by fastforce
  have "k' \<notin> fst ` set xs" using Cons.prems a by simp
  then have "map_of (filter (\<lambda>(_, v). P v) xs) k' = None" by (auto simp: map_of_eq_None_iff)
  with Cons a show ?case by (auto split: option.split)
qed simp


end
