(* ===== verification/Cypher.thy ===== *)
theory Cypher
  imports Prelude "HOL-Library.Monad_Syntax"
begin

text \<open>
  The fragment of the graph query language that the query text built by
  \<open>Neo4jConnection\<close> lands in: a lexer from a string to tokens, an abstract syntax of
  clauses, and a recursive-descent parser. This is the server's side of
  \<open>session.run(query, parameters)\<close>, not code of the repository: it is modelled from the
  spec (section 6, query language boundary) for the clauses the program emits
  (\<open>CREATE\<close>, \<open>MATCH ... WHERE\<close>, \<open>DETACH DELETE\<close>, \<open>RETURN\<close>, \<open>SHOW DATABASES\<close>)
  with their node and relationship patterns. Text outside the fragment (string or number
  literals, comments, anonymous nodes) is rejected as a syntax
  error, so the model is conservative: a query it accepts is read as the server reads it.
\<close>

subsection \<open>Tokens and the lexer\<close>

datatype sym = LParen | RParen | LBrack | RBrack | LBrace | RBrace | Colon | Comma | Dot
  | EqSign | Dash | Gt

datatype token = TIdent string | TQuoted string | TParam string | TSym sym

definition sym_of_char :: "char \<Rightarrow> sym option" where
  "sym_of_char c =
     map_of [(CHR ''('', LParen), (CHR '')'', RParen), (CHR ''['', LBrack),
             (CHR '']'', RBrack), (CHR ''{'', LBrace), (CHR ''}'', RBrace),
             (CHR '':'', Colon), (CHR '','', Comma), (CHR ''.'', Dot), (CHR ''='', EqSign),
             (CHR ''-'', Dash), (CHR ''>'', Gt)] c"

text \<open>
  Whitespace separates tokens; a maximal run of letters, digits and underscores is one
  word when it starts with a letter or underscore; a back-quoted name \<open>`...`\<close> is one
  word whatever it contains (it is never a keyword); \<open>$\<close> followed by a run or by a
  back-quoted name is a parameter; any other character (a digit starting a number
  literal, a quote) is a syntax error of the fragment, as is an empty or unclosed
  back-quoted name.
\<close>

definition is_tick :: "char \<Rightarrow> bool" where
  "is_tick c \<longleftrightarrow> c = CHR ''`''"

lemma dropWhile_shorter: "length (dropWhile P xs) - k < Suc (length xs)"
  by (meson diff_le_self le_imp_less_Suc length_dropWhile_le order_trans)

function lex :: "string \<Rightarrow> token list option" where
  "lex [] = Some []"
| "lex (c # cs) =
     (if is_space c then lex cs
      else if is_ident_start c then
        map_option (Cons (TIdent (c # takeWhile is_ident_char cs)))
          (lex (dropWhile is_ident_char cs))
      else if is_tick c then
        (let q = takeWhile (Not \<circ> is_tick) cs; rest = dropWhile (Not \<circ> is_tick) cs in
         if q = [] \<or> rest = [] then None else map_option (Cons (TQuoted q)) (lex (tl rest)))
      else if c = CHR ''$'' then
        (let w = takeWhile is_ident_char cs in
         if w \<noteq> [] then map_option (Cons (TParam w)) (lex (dropWhile is_ident_char cs))
         else if cs \<noteq> [] \<and> is_tick (hd cs) then
           (let q = takeWhile (Not \<circ> is_tick) (tl cs); rest = dropWhile (Not \<circ> is_tick) (tl cs) in
            if q = [] \<or> rest = [] then None else map_option (Cons (TParam q)) (lex (tl rest)))
         else None)
      else (case sym_of_char c of
              None \<Rightarrow> None
            | Some s \<Rightarrow> map_option (Cons (TSym s)) (lex cs)))"
  by pat_completeness auto
termination
  by (relation "measure length")
    (auto simp: le_imp_less_Suc length_dropWhile_le dropWhile_shorter
      intro: less_le_trans [OF dropWhile_shorter])

text \<open>An identifier followed by a non-word character is read as one word token.\<close>

lemma lex_ident_append [simp]:
  "is_ident w \<Longrightarrow> word_end rest \<Longrightarrow>
     lex (w @ rest) = map_option (Cons (TIdent w)) (lex rest)"
  by (cases w) (auto simp: str_simps)

text \<open>A parameter \<open>$w\<close> followed by a non-word character is read as one token.\<close>

lemma lex_param_append [simp]:
  "is_ident w \<Longrightarrow> word_end rest \<Longrightarrow>
     lex (CHR ''$'' # w @ rest) = map_option (Cons (TParam w)) (lex rest)"
  by (simp add: str_simps is_space_def is_ident_start_def is_ident_char_def is_tick_def)

subsection \<open>Abstract syntax\<close>

text \<open>
  Property maps in a pattern are either one map parameter (\<open>$properties\<close>) or a literal
  map whose values are parameters (\<open>{name: $start_node}\<close>).
\<close>

datatype propsx = PropParam string | PropMap "(string \<times> string) list"

datatype node_pat = NodePat string "string list" "propsx option"

datatype pattern = PNode node_pat | PRel node_pat string node_pat

text \<open>\<open>Eq v k p\<close> is the condition \<open>v.k = $p\<close>.\<close>

datatype cond = Eq string string string

datatype clause =
    Create pattern
  | Match node_pat "cond list"
  | DetachDelete string
  | Return string
  | ShowDatabases

subsection \<open>The parser\<close>

text \<open>
  Parsers take the remaining tokens and return a result and the tokens left over, or
  \<open>None\<close> for a syntax error. Four one-token readers carry all pattern matching on
  tokens; the grammar is written over them in the option monad.
\<close>

type_synonym 'a parser = "token list \<Rightarrow> ('a \<times> token list) option"

fun p_sym :: "sym \<Rightarrow> token list \<Rightarrow> token list option" where
  "p_sym s (TSym s' # ts) = (if s' = s then Some ts else None)"
| "p_sym s ts = None"

fun p_word :: "string parser" where
  "p_word (TIdent w # ts) = Some (w, ts)"
| "p_word (TQuoted w # ts) = Some (w, ts)"
| "p_word ts = None"

fun p_param :: "string parser" where
  "p_param (TParam p # ts) = Some (p, ts)"
| "p_param ts = None"

text \<open>Keywords are unquoted words compared case-insensitively.\<close>

fun p_kw :: "string \<Rightarrow> token list \<Rightarrow> token list option" where
  "p_kw k (TIdent w # ts) = (if upper w = k then Some ts else None)"
| "p_kw k ts = None"

named_theorems shorter "the parsers do not lengthen their input"

lemma p_sym_shorter [shorter]: "p_sym s ts = Some r \<Longrightarrow> length r < length ts"
  by (induction s ts rule: p_sym.induct) (auto split: if_splits)

lemma p_word_shorter [shorter]: "p_word ts = Some (w, r) \<Longrightarrow> length r < length ts"
  by (induction ts rule: p_word.induct) auto

lemma p_param_shorter [shorter]: "p_param ts = Some (w, r) \<Longrightarrow> length r < length ts"
  by (induction ts rule: p_param.induct) auto

lemma p_kw_shorter [shorter]: "p_kw k ts = Some r \<Longrightarrow> length r < length ts"
  by (induction k ts rule: p_kw.induct) (auto split: if_splits)

text \<open>Labels: \<open>(:name)*\<close>.\<close>

function p_labels :: "token list \<Rightarrow> string list \<times> token list" where
  "p_labels ts =
     (case p_sym Colon ts of
        None \<Rightarrow> ([], ts)
      | Some r \<Rightarrow>
          (case p_word r of
             None \<Rightarrow> ([], ts)
           | Some (l, r') \<Rightarrow> (case p_labels r' of (ls, r'') \<Rightarrow> (l # ls, r''))))"
  by pat_completeness auto
termination
  by (relation "measure length") (auto dest!: p_sym_shorter p_word_shorter)

declare p_labels.simps [simp del]

text \<open>Entries of a literal map: \<open>key: $param\<close>, separated by commas, closed by a brace.\<close>

function p_entries :: "(string \<times> string) list parser" where
  "p_entries ts =
     (case p_word ts of
        None \<Rightarrow> None
      | Some (k, r1) \<Rightarrow>
          (case p_sym Colon r1 of
             None \<Rightarrow> None
           | Some r2 \<Rightarrow>
               (case p_param r2 of
                  None \<Rightarrow> None
                | Some (p, r3) \<Rightarrow>
                    (case p_sym Comma r3 of
                       Some r4 \<Rightarrow> map_option (\<lambda>(es, r). ((k, p) # es, r)) (p_entries r4)
                     | None \<Rightarrow> map_option (\<lambda>r. ([(k, p)], r)) (p_sym RBrace r3)))))"
  by pat_completeness auto
termination
  by (relation "measure length") (auto dest!: p_sym_shorter p_word_shorter p_param_shorter)

declare p_entries.simps [simp del]

definition p_props :: "propsx option parser" where
  "p_props ts =
     (case p_param ts of
        Some (p, r) \<Rightarrow> Some (Some (PropParam p), r)
      | None \<Rightarrow>
          (case p_sym LBrace ts of
             None \<Rightarrow> Some (None, ts)
           | Some r \<Rightarrow>
               (case p_sym RBrace r of
                  Some r' \<Rightarrow> Some (Some (PropMap []), r')
                | None \<Rightarrow> map_option (\<lambda>(es, r'). (Some (PropMap es), r')) (p_entries r))))"

text \<open>A node pattern \<open>(v:L1:L2 props)\<close>; the fragment always names the variable.\<close>

definition p_node :: "node_pat parser" where
  "p_node ts =
     (case p_sym LParen ts of
        None \<Rightarrow> None
      | Some r1 \<Rightarrow>
          (case p_word r1 of
             None \<Rightarrow> None
           | Some (v, r2) \<Rightarrow>
               (case p_labels r2 of
                  (ls, r3) \<Rightarrow>
                    (case p_props r3 of
                       None \<Rightarrow> None
                     | Some (pr, r4) \<Rightarrow>
                         map_option (\<lambda>r. (NodePat v ls pr, r)) (p_sym RParen r4)))))"

text \<open>The tail \<open>-[:T]->\<close> of a directed relationship pattern.\<close>

definition p_rel_tail :: "string parser" where
  "p_rel_tail ts =
     (case p_sym Dash ts \<bind> p_sym LBrack \<bind> p_sym Colon of
        None \<Rightarrow> None
      | Some r1 \<Rightarrow>
          (case p_word r1 of
             None \<Rightarrow> None
           | Some (t, r2) \<Rightarrow>
               map_option (\<lambda>r. (t, r)) (p_sym RBrack r2 \<bind> p_sym Dash \<bind> p_sym Gt)))"

definition p_pattern :: "pattern parser" where
  "p_pattern ts =
     (case p_node ts of
        None \<Rightarrow> None
      | Some (n, r) \<Rightarrow>
          (case p_rel_tail r of
             None \<Rightarrow> Some (PNode n, r)
           | Some (t, r') \<Rightarrow> map_option (\<lambda>(m, r''). (PRel n t m, r'')) (p_node r')))"

text \<open>Conditions \<open>v.k = $p\<close> joined by \<open>AND\<close>.\<close>

definition p_cond :: "cond parser" where
  "p_cond ts =
     (case p_word ts of
        None \<Rightarrow> None
      | Some (v, r1) \<Rightarrow>
          (case p_sym Dot r1 of
             None \<Rightarrow> None
           | Some r2 \<Rightarrow>
               (case p_word r2 of
                  None \<Rightarrow> None
                | Some (k, r3) \<Rightarrow>
                    (case p_sym EqSign r3 of
                       None \<Rightarrow> None
                     | Some r4 \<Rightarrow> map_option (\<lambda>(p, r). (Eq v k p, r)) (p_param r4)))))"

lemma p_cond_shorter [shorter]: "p_cond ts = Some (c, r) \<Longrightarrow> length r < length ts"
  unfolding p_cond_def
  by (auto split: option.splits prod.splits dest!: p_sym_shorter p_word_shorter p_param_shorter)

function p_conds :: "cond list parser" where
  "p_conds ts =
     (case p_cond ts of
        None \<Rightarrow> None
      | Some (c, r) \<Rightarrow>
          (case p_kw ''AND'' r of
             None \<Rightarrow> Some ([c], r)
           | Some r' \<Rightarrow> map_option (\<lambda>(cs, r''). (c # cs, r'')) (p_conds r')))"
  by pat_completeness auto
termination
  by (relation "measure length") (auto dest!: p_cond_shorter p_kw_shorter)

declare p_conds.simps [simp del]

definition p_clause :: "clause parser" where
  "p_clause ts =
     (case p_kw ''CREATE'' ts of
        Some r \<Rightarrow> map_option (\<lambda>(p, r'). (Create p, r')) (p_pattern r)
      | None \<Rightarrow>
     (case p_kw ''MATCH'' ts of
        Some r \<Rightarrow>
          (case p_node r of
             None \<Rightarrow> None
           | Some (n, r') \<Rightarrow>
               (case p_kw ''WHERE'' r' of
                  None \<Rightarrow> Some (Match n [], r')
                | Some r'' \<Rightarrow> map_option (\<lambda>(cs, r3). (Match n cs, r3)) (p_conds r'')))
      | None \<Rightarrow>
     (case p_kw ''DETACH'' ts \<bind> p_kw ''DELETE'' of
        Some r \<Rightarrow> map_option (\<lambda>(v, r'). (DetachDelete v, r')) (p_word r)
      | None \<Rightarrow>
     (case p_kw ''RETURN'' ts of
        Some r \<Rightarrow> map_option (\<lambda>(v, r'). (Return v, r')) (p_word r)
      | None \<Rightarrow>
          map_option (\<lambda>r. (ShowDatabases, r)) (p_kw ''SHOW'' ts \<bind> p_kw ''DATABASES'')))))"

subsection \<open>Every clause consumes input\<close>

text \<open>
  The clause list is parsed by repeating \<open>p_clause\<close>; it terminates because every
  parser leaves at most as many tokens as it was given, and a clause at least one
  fewer (the shape of the QDIMACS parser's decreasing lemmas).
\<close>

lemma bind_shorter [shorter]:
  "(\<And>r. f r = Some r' \<Longrightarrow> length r' < length r) \<Longrightarrow> (m \<bind> f) = Some r' \<Longrightarrow>
     (\<And>r. m = Some r \<Longrightarrow> length r < length ts) \<Longrightarrow> length r' < length ts"
  by (cases m) fastforce+

lemma p_labels_shorter [shorter]: "p_labels ts = (ls, r) \<Longrightarrow> length r \<le> length ts"
proof (induction ts arbitrary: ls rule: p_labels.induct)
  case (1 ts)
  note eq = "1.prems"[unfolded p_labels.simps [of ts]]
  show ?case
  proof (cases "p_sym Colon ts")
    case None
    with eq show ?thesis by simp
  next
    case (Some r1)
    show ?thesis
    proof (cases "p_word r1")
      case None
      with Some eq show ?thesis by simp
    next
      case (Some a)
      obtain l r2 where a: "a = (l, r2)" by fastforce
      obtain ls' where rec: "p_labels r2 = (ls', r)"
        using eq \<open>p_sym Colon ts = Some r1\<close> Some a by (auto split: prod.splits)
      have "length r \<le> length r2" by (rule "1.IH" [OF \<open>p_sym Colon ts = Some r1\<close> Some a [symmetric] rec])
      moreover have "length r2 < length r1" using Some a by (auto dest: p_word_shorter)
      moreover have "length r1 < length ts" using \<open>p_sym Colon ts = Some r1\<close> by (rule p_sym_shorter)
      ultimately show ?thesis by simp
    qed
  qed
qed

lemma p_entries_shorter [shorter]: "p_entries ts = Some (es, r) \<Longrightarrow> length r < length ts"
proof (induction ts arbitrary: es rule: p_entries.induct)
  case (1 ts)
  from "1.prems" obtain k r1 r2 p r3 where
    w: "p_word ts = Some (k, r1)" and c: "p_sym Colon r1 = Some r2"
    and pa: "p_param r2 = Some (p, r3)"
    and rest: "(case p_sym Comma r3 of
                  Some r4 \<Rightarrow> map_option (\<lambda>(es, r). ((k, p) # es, r)) (p_entries r4)
                | None \<Rightarrow> map_option (\<lambda>r. ([(k, p)], r)) (p_sym RBrace r3)) = Some (es, r)"
    by (subst (asm) p_entries.simps) (auto split: option.splits prod.splits)
  have "length r3 < length ts"
    using w c pa by (auto dest!: p_word_shorter p_sym_shorter p_param_shorter)
  moreover have "length r \<le> length r3"
  proof (cases "p_sym Comma r3")
    case None
    with rest show ?thesis by (auto dest!: p_sym_shorter)
  next
    case (Some r4)
    with rest obtain es' where "p_entries r4 = Some (es', r)" by auto
    from "1.IH" [OF w refl c pa refl Some this] have "length r < length r4" by simp
    with Some show ?thesis by (auto dest!: p_sym_shorter)
  qed
  ultimately show ?case by simp
qed

lemma p_props_shorter [shorter]: "p_props ts = Some (x, r) \<Longrightarrow> length r \<le> length ts"
  unfolding p_props_def
  by (auto split: option.splits prod.splits dest!: p_sym_shorter p_param_shorter p_entries_shorter)

lemma p_node_shorter [shorter]: "p_node ts = Some (n, r) \<Longrightarrow> length r < length ts"
  unfolding p_node_def
  by (auto split: option.splits prod.splits dest!: p_sym_shorter p_word_shorter
      p_labels_shorter p_props_shorter)

lemma p_rel_tail_shorter [shorter]: "p_rel_tail ts = Some (t, r) \<Longrightarrow> length r < length ts"
  unfolding p_rel_tail_def
  by (auto split: option.splits prod.splits simp: bind_eq_Some_conv
      dest!: p_sym_shorter p_word_shorter)

lemma p_pattern_shorter [shorter]: "p_pattern ts = Some (p, r) \<Longrightarrow> length r < length ts"
  unfolding p_pattern_def
  by (auto split: option.splits prod.splits dest!: p_node_shorter p_rel_tail_shorter)

lemma p_conds_shorter [shorter]: "p_conds ts = Some (cs, r) \<Longrightarrow> length r < length ts"
proof (induction ts arbitrary: cs rule: p_conds.induct)
  case (1 ts)
  from "1.prems" obtain c r1 where pc: "p_cond ts = Some (c, r1)"
    and rest: "(case p_kw ''AND'' r1 of
                  None \<Rightarrow> Some ([c], r1)
                | Some r' \<Rightarrow> map_option (\<lambda>(cs, r''). (c # cs, r'')) (p_conds r')) = Some (cs, r)"
    by (subst (asm) p_conds.simps) (auto split: option.splits prod.splits)
  have "length r1 < length ts" using pc by (rule p_cond_shorter)
  moreover have "length r \<le> length r1"
  proof (cases "p_kw ''AND'' r1")
    case None
    with rest show ?thesis by simp
  next
    case (Some r')
    with rest obtain cs' where "p_conds r' = Some (cs', r)" by auto
    from "1.IH" [OF pc refl Some this] have "length r < length r'" by simp
    with Some show ?thesis by (auto dest!: p_kw_shorter)
  qed
  ultimately show ?case by simp
qed

lemma p_clause_shorter [shorter]: "p_clause ts = Some (c, r) \<Longrightarrow> length r < length ts"
  unfolding p_clause_def
  by (auto split: option.splits prod.splits simp: bind_eq_Some_conv
      dest!: p_kw_shorter p_pattern_shorter p_node_shorter p_conds_shorter p_word_shorter)

function p_clauses :: "token list \<Rightarrow> clause list option" where
  "p_clauses ts =
     (if ts = [] then Some []
      else (case p_clause ts of
              None \<Rightarrow> None
            | Some (c, r) \<Rightarrow> map_option (Cons c) (p_clauses r)))"
  by pat_completeness auto
termination
  by (relation "measure length") (auto dest: p_clause_shorter)

declare p_clauses.simps [simp del]

text \<open>A query text is lexed, then parsed as a non-empty sequence of clauses.\<close>

definition parse :: "string \<Rightarrow> clause list option" where
  "parse s =
     (case lex s of
        None \<Rightarrow> None
      | Some ts \<Rightarrow> if ts = [] then None else p_clauses ts)"

subsection \<open>Recursion depth of the parser\<close>

text \<open>The clause loop with an explicit fuel counter, one unit per clause.\<close>

fun p_clauses_fuel :: "nat \<Rightarrow> token list \<Rightarrow> clause list option" where
  "p_clauses_fuel 0 ts = None"
| "p_clauses_fuel (Suc n) ts =
     (if ts = [] then Some []
      else (case p_clause ts of
              None \<Rightarrow> None
            | Some (c, r) \<Rightarrow> map_option (Cons c) (p_clauses_fuel n r)))"

text \<open>
  The recursive descent over the clauses of a query makes at most as many nested calls as
  there are tokens: with any fuel above the number of tokens, the fuel-bounded loop gives
  exactly the result of \<open>p_clauses\<close>, whose termination is proved by the length of the
  remaining input.
\<close>

lemma p_clauses_fuel_enough:
  "length ts < fuel \<Longrightarrow> p_clauses_fuel fuel ts = p_clauses ts"
proof (induction fuel arbitrary: ts)
  case 0
  then show ?case by simp
next
  case (Suc fuel)
  show ?case
  proof (cases "p_clause ts")
    case None
    then show ?thesis by (simp add: p_clauses.simps [of ts])
  next
    case (Some cr)
    obtain c r where cr: "cr = (c, r)" by fastforce
    with Some have "length r < length ts" by (simp add: p_clause_shorter)
    with Suc.prems have "length r < fuel" by simp
    with Suc.IH [of r] Some cr show ?thesis by (simp add: p_clauses.simps [of ts])
  qed
qed

end
