(* ===== verification/Graph_Store.thy ===== *)
theory Graph_Store
  imports Cypher
begin

text \<open>
  The database the driver talks to: a property graph and the execution of a parsed
  query on it. Like \<open>Cypher\<close>, this is the server's behaviour as the spec describes it
  (sections 3, 4.1 and 6), not code of the repository. Nodes carry labels and a property
  map, relationships a type and their two end nodes; node and relationship identities are
  drawn from one counter. A query runs clause by clause over a table of rows binding
  variables to node identities (the standard reading of the query language); it first
  passes a static check (variables in scope, parameter maps not used in \<open>MATCH\<close>,
  \<open>RETURN\<close> last, no query ending in \<open>MATCH\<close>) and a check that every parameter it names
  is supplied. A query that raises leaves the graph unchanged (it runs in its own
  transaction). The invariant \<open>wf_graph\<close> is kept by every query (\<open>run_cypher_wf\<close>);
  the last subsection gives the abstract view of a graph as two finite maps and the
  contract \<open>a_delete\<close> that \<open>detach_delete\<close> implements.
\<close>

subsection \<open>The graph\<close>

record gnode =
  nlabels :: "string list"
  nprops :: props

record grel =
  rtype :: string
  rsrc :: nat
  rdst :: nat

record graph =
  gnodes :: "(nat \<times> gnode) list"
  grels :: "(nat \<times> grel) list"
  gnext :: nat
  gdbs :: "string list"

definition node_ids :: "graph \<Rightarrow> nat list" where
  "node_ids g = map fst (gnodes g)"

text \<open>
  Well-formedness: identities are distinct and below the counter, and every
  relationship ends at nodes of the graph (no dangling relationship).
\<close>

definition wf_graph :: "graph \<Rightarrow> bool" where
  "wf_graph g \<longleftrightarrow>
     distinct (map fst (gnodes g) @ map fst (grels g)) \<and>
     list_all (\<lambda>i. i < gnext g) (map fst (gnodes g) @ map fst (grels g)) \<and>
     list_all (\<lambda>(_, e). rsrc e \<in> set (node_ids g) \<and> rdst e \<in> set (node_ids g)) (grels g)"

subsection \<open>Rows, results, evaluation of property maps\<close>

type_synonym row = "(string \<times> nat) list"

datatype rvalue = RNode nat gnode | RVal scalar | RNull

type_synonym result_row = "(string \<times> rvalue) list"

fun eval_entries :: "params \<Rightarrow> (string \<times> string) list \<Rightarrow> props exc" where
  "eval_entries ps [] = Inr []"
| "eval_entries ps ((k, p) # es) =
     (case map_of ps p of
        None \<Rightarrow> Inl ParameterMissing
      | Some (PMap _) \<Rightarrow> Inl CypherTypeError
      | Some (PV v) \<Rightarrow> (case eval_entries ps es of Inl e \<Rightarrow> Inl e | Inr m \<Rightarrow> Inr ((k, v) # m)))"

fun eval_props :: "params \<Rightarrow> propsx option \<Rightarrow> props exc" where
  "eval_props ps None = Inr []"
| "eval_props ps (Some (PropParam p)) =
     (case map_of ps p of
        None \<Rightarrow> Inl ParameterMissing
      | Some (PMap m) \<Rightarrow> Inr m
      | Some (PV _) \<Rightarrow> Inl CypherTypeError)"
| "eval_props ps (Some (PropMap es)) = eval_entries ps es"

subsection \<open>Matching\<close>

text \<open>A property \<open>k\<close> of a node equals the scalar parameter \<open>p\<close>; a missing property is null and never equal.\<close>

definition prop_eq :: "params \<Rightarrow> gnode \<Rightarrow> string \<Rightarrow> string \<Rightarrow> bool" where
  "prop_eq ps n k p =
     (case map_of ps p of Some (PV x) \<Rightarrow> map_of (nprops n) k = Some x | _ \<Rightarrow> False)"

fun props_match :: "params \<Rightarrow> propsx option \<Rightarrow> gnode \<Rightarrow> bool" where
  "props_match ps None n = True"
| "props_match ps (Some (PropMap es)) n = list_all (\<lambda>(k, p). prop_eq ps n k p) es"
| "props_match ps (Some (PropParam p)) n = False"

fun node_ok :: "params \<Rightarrow> node_pat \<Rightarrow> row \<Rightarrow> nat \<times> gnode \<Rightarrow> bool" where
  "node_ok ps (NodePat v ls pr) r (i, n) =
     ((case map_of r v of Some j \<Rightarrow> j = i | None \<Rightarrow> True) \<and>
      set ls \<subseteq> set (nlabels n) \<and> props_match ps pr n)"

definition bind_var :: "string \<Rightarrow> nat \<Rightarrow> row \<Rightarrow> row" where
  "bind_var v i r = (if map_of r v = None then (v, i) # r else r)"

fun cond_holds :: "params \<Rightarrow> graph \<Rightarrow> row \<Rightarrow> cond \<Rightarrow> bool" where
  "cond_holds ps g r (Eq v k p) =
     (case map_of r v of
        None \<Rightarrow> False
      | Some i \<Rightarrow> (case map_of (gnodes g) i of None \<Rightarrow> False | Some n \<Rightarrow> prop_eq ps n k p))"

fun match_rows :: "params \<Rightarrow> graph \<Rightarrow> node_pat \<Rightarrow> cond list \<Rightarrow> row list \<Rightarrow> row list" where
  "match_rows ps g (NodePat v ls pr) cs rows =
     filter (\<lambda>r. list_all (cond_holds ps g r) cs)
       (concat (map (\<lambda>r. map (\<lambda>(i, _). bind_var v i r)
                           (filter (node_ok ps (NodePat v ls pr) r) (gnodes g))) rows))"

subsection \<open>Updates\<close>

definition new_node :: "string list \<Rightarrow> props \<Rightarrow> graph \<Rightarrow> nat \<times> graph" where
  "new_node ls m g =
     (gnext g, g\<lparr>gnodes := gnodes g @ [(gnext g, \<lparr>nlabels = remdups ls, nprops = m\<rparr>)],
                 gnext := Suc (gnext g)\<rparr>)"

definition new_rel :: "string \<Rightarrow> nat \<Rightarrow> nat \<Rightarrow> graph \<Rightarrow> graph" where
  "new_rel t i j g =
     g\<lparr>grels := grels g @ [(gnext g, \<lparr>rtype = t, rsrc = i, rdst = j\<rparr>)], gnext := Suc (gnext g)\<rparr>"

text \<open>
  An end of a created pattern is the row's node when its variable is bound (which must
  still exist), and a new node otherwise.
\<close>

fun create_endpoint :: "params \<Rightarrow> node_pat \<Rightarrow> graph \<times> row \<Rightarrow> (graph \<times> row \<times> nat) exc" where
  "create_endpoint ps (NodePat v ls pr) (g, r) =
     (case map_of r v of
        Some i \<Rightarrow> if i \<in> set (node_ids g) then Inr (g, r, i) else Inl EntityNotFound
      | None \<Rightarrow>
          (case eval_props ps pr of
             Inl e \<Rightarrow> Inl e
           | Inr m \<Rightarrow> (case new_node ls m g of (i, g') \<Rightarrow> Inr (g', (v, i) # r, i))))"

fun create_row :: "params \<Rightarrow> pattern \<Rightarrow> graph \<times> row \<Rightarrow> (graph \<times> row) exc" where
  "create_row ps (PNode np) gr =
     (case create_endpoint ps np gr of Inl e \<Rightarrow> Inl e | Inr (g', r', _) \<Rightarrow> Inr (g', r'))"
| "create_row ps (PRel n t m) gr =
     (case create_endpoint ps n gr of
        Inl e \<Rightarrow> Inl e
      | Inr (g1, r1, i) \<Rightarrow>
          (case create_endpoint ps m (g1, r1) of
             Inl e \<Rightarrow> Inl e
           | Inr (g2, r2, j) \<Rightarrow> Inr (new_rel t i j g2, r2)))"

fun create_rows :: "params \<Rightarrow> pattern \<Rightarrow> graph \<Rightarrow> row list \<Rightarrow> (graph \<times> row list) exc" where
  "create_rows ps pat g [] = Inr (g, [])"
| "create_rows ps pat g (r # rows) =
     (case create_row ps pat (g, r) of
        Inl e \<Rightarrow> Inl e
      | Inr (g', r') \<Rightarrow>
          (case create_rows ps pat g' rows of
             Inl e \<Rightarrow> Inl e
           | Inr (g'', rows') \<Rightarrow> Inr (g'', r' # rows')))"

text \<open>Detach-delete: the nodes go, and with them every relationship that touches one.\<close>

definition detach_delete :: "nat list \<Rightarrow> graph \<Rightarrow> graph" where
  "detach_delete ids g =
     g\<lparr>gnodes := filter (\<lambda>(i, _). i \<notin> set ids) (gnodes g),
       grels := filter (\<lambda>(_, e). rsrc e \<notin> set ids \<and> rdst e \<notin> set ids) (grels g)\<rparr>"

definition return_row :: "graph \<Rightarrow> string \<Rightarrow> row \<Rightarrow> result_row" where
  "return_row g v r =
     [(v, case map_of r v of
            None \<Rightarrow> RNull
          | Some i \<Rightarrow> (case map_of (gnodes g) i of None \<Rightarrow> RNull | Some n \<Rightarrow> RNode i n))]"

subsection \<open>Static check\<close>

fun node_var :: "node_pat \<Rightarrow> string" where
  "node_var (NodePat v _ _) = v"

fun cond_var :: "cond \<Rightarrow> string" where
  "cond_var (Eq v _ _) = v"

fun endpoint_ok :: "string list \<Rightarrow> node_pat \<Rightarrow> bool" where
  "endpoint_ok b (NodePat v ls pr) = (v \<notin> set b \<or> (ls = [] \<and> pr = None))"

fun create_ok :: "string list \<Rightarrow> pattern \<Rightarrow> bool" where
  "create_ok b (PNode n) = (node_var n \<notin> set b)"
| "create_ok b (PRel n t m) = (endpoint_ok b n \<and> endpoint_ok (node_var n # b) m)"

fun pat_binds :: "pattern \<Rightarrow> string list" where
  "pat_binds (PNode n) = [node_var n]"
| "pat_binds (PRel n t m) = [node_var m, node_var n]"

fun no_param_map :: "propsx option \<Rightarrow> bool" where
  "no_param_map (Some (PropParam _)) = False"
| "no_param_map _ = True"

text \<open>Variables in scope, no parameter map in \<open>MATCH\<close>, \<open>RETURN\<close> last, no trailing \<open>MATCH\<close>.\<close>

fun scope_ok :: "string list \<Rightarrow> clause list \<Rightarrow> bool" where
  "scope_ok b [] = True"
| "scope_ok b (Create p # cs) = (create_ok b p \<and> scope_ok (pat_binds p @ b) cs)"
| "scope_ok b (Match (NodePat v ls pr) conds # cs) =
     (no_param_map pr \<and> list_all (\<lambda>c. cond_var c \<in> set (v # b)) conds \<and> cs \<noteq> [] \<and>
      scope_ok (v # b) cs)"
| "scope_ok b (DetachDelete v # cs) = (v \<in> set b \<and> scope_ok b cs)"
| "scope_ok b (Return v # cs) = (v \<in> set b \<and> cs = [])"
| "scope_ok b (ShowDatabases # cs) = (b = [] \<and> cs = [])"

fun props_params :: "propsx option \<Rightarrow> string list" where
  "props_params None = []"
| "props_params (Some (PropParam p)) = [p]"
| "props_params (Some (PropMap es)) = map snd es"

fun node_params :: "node_pat \<Rightarrow> string list" where
  "node_params (NodePat _ _ pr) = props_params pr"

fun clause_params :: "clause \<Rightarrow> string list" where
  "clause_params (Create (PNode n)) = node_params n"
| "clause_params (Create (PRel n t m)) = node_params n @ node_params m"
| "clause_params (Match n cs) = node_params n @ map (\<lambda>c. case c of Eq _ _ p \<Rightarrow> p) cs"
| "clause_params _ = []"

subsection \<open>Execution\<close>

type_synonym xstate = "graph \<times> row list \<times> result_row list"

fun exec_clause :: "params \<Rightarrow> clause \<Rightarrow> xstate \<Rightarrow> xstate exc" where
  "exec_clause ps (Create p) (g, rows, out) =
     (case create_rows ps p g rows of Inl e \<Rightarrow> Inl e | Inr (g', rows') \<Rightarrow> Inr (g', rows', out))"
| "exec_clause ps (Match n cs) (g, rows, out) = Inr (g, match_rows ps g n cs rows, out)"
| "exec_clause ps (DetachDelete v) (g, rows, out) =
     Inr (detach_delete (List.map_filter (\<lambda>r. map_of r v) rows) g, rows, out)"
| "exec_clause ps (Return v) (g, rows, out) = Inr (g, rows, map (return_row g v) rows)"
| "exec_clause ps ShowDatabases (g, rows, out) =
     Inr (g, rows, map (\<lambda>d. [(''name'', RVal (VStr d))]) (gdbs g))"

fun exec_clauses :: "params \<Rightarrow> clause list \<Rightarrow> xstate \<Rightarrow> xstate exc" where
  "exec_clauses ps [] st = Inr st"
| "exec_clauses ps (c # cs) st =
     (case exec_clause ps c st of Inl e \<Rightarrow> Inl e | Inr st' \<Rightarrow> exec_clauses ps cs st')"

text \<open>
  \<open>run_cypher q ps g\<close> is what the server does with \<open>session.run(q, ps)\<close>: parse,
  check, execute from one empty row, and return the new graph and the result records.
\<close>

definition run_cypher :: "string \<Rightarrow> params \<Rightarrow> graph \<Rightarrow> (graph \<times> result_row list) exc" where
  "run_cypher q ps g =
     (case parse q of
        None \<Rightarrow> Inl CypherSyntaxError
      | Some cs \<Rightarrow>
          if \<not> scope_ok [] cs then Inl CypherSyntaxError
          else if \<not> list_all (\<lambda>p. map_of ps p \<noteq> None) (concat (map clause_params cs))
          then Inl ParameterMissing
          else (case exec_clauses ps cs (g, [[]], []) of
                  Inl e \<Rightarrow> Inl e
                | Inr (g', _, out) \<Rightarrow> Inr (g', out)))"

subsection \<open>Well-formedness is kept by every query\<close>

text \<open>
  Each update keeps the graph well-formed: a new node or relationship takes the counter
  as its identity, a relationship is only made between existing nodes, and a detach-delete
  removes with its nodes every relationship touching them. Lifted over rows, clauses and
  whole queries by induction, in the manner of \<open>FiniteListGraph\<close>'s per-operation
  lemmas.
\<close>

lemma wf_fresh: "wf_graph g \<Longrightarrow> gnext g \<notin> set (map fst (gnodes g) @ map fst (grels g))"
  by (auto simp: wf_graph_def list_all_iff)

lemma new_node_wf:
  assumes wf: "wf_graph g" and nn: "new_node ls m g = (i, g')"
  shows "wf_graph g' \<and> i \<in> set (node_ids g') \<and> set (node_ids g) \<subseteq> set (node_ids g')"
proof -
  from nn have i: "i = gnext g"
    and g': "g' = g\<lparr>gnodes := gnodes g @ [(gnext g, \<lparr>nlabels = remdups ls, nprops = m\<rparr>)],
                     gnext := Suc (gnext g)\<rparr>"
    by (auto simp: new_node_def)
  have ids: "set (node_ids g') = insert (gnext g) (set (node_ids g))"
    using g' by (auto simp: node_ids_def)
  have "distinct (map fst (gnodes g') @ map fst (grels g'))"
    using wf wf_fresh [OF wf] g' by (auto simp: wf_graph_def)
  moreover have "list_all (\<lambda>j. j < gnext g') (map fst (gnodes g') @ map fst (grels g'))"
    using wf g' by (auto simp: wf_graph_def list_all_iff less_Suc_eq)
  moreover have "list_all (\<lambda>(_, e). rsrc e \<in> set (node_ids g') \<and> rdst e \<in> set (node_ids g'))
                   (grels g')"
    using wf g' ids by (auto simp: wf_graph_def list_all_iff)
  ultimately show ?thesis
    using i ids by (auto simp: wf_graph_def)
qed

lemma new_rel_wf:
  assumes wf: "wf_graph g" and i: "i \<in> set (node_ids g)" and j: "j \<in> set (node_ids g)"
  shows "wf_graph (new_rel t i j g)"
proof -
  let ?g' = "new_rel t i j g"
  have "distinct (map fst (gnodes ?g') @ map fst (grels ?g'))"
    using wf wf_fresh [OF wf] by (auto simp: wf_graph_def new_rel_def)
  moreover have "list_all (\<lambda>k. k < gnext ?g') (map fst (gnodes ?g') @ map fst (grels ?g'))"
    using wf by (auto simp: wf_graph_def list_all_iff less_Suc_eq new_rel_def)
  moreover have "list_all (\<lambda>(_, e). rsrc e \<in> set (node_ids ?g') \<and> rdst e \<in> set (node_ids ?g'))
                   (grels ?g')"
    using wf i j by (auto simp: wf_graph_def list_all_iff new_rel_def node_ids_def)
  ultimately show ?thesis
    by (simp only: wf_graph_def)
qed

lemma new_rel_node_ids [simp]: "node_ids (new_rel t i j g) = node_ids g"
  by (simp add: new_rel_def node_ids_def)

lemma create_endpoint_wf:
  assumes "wf_graph g" and "create_endpoint ps n (g, r) = Inr (g', r', i)"
  shows "wf_graph g' \<and> i \<in> set (node_ids g') \<and> set (node_ids g) \<subseteq> set (node_ids g')"
proof (cases n)
  case (NodePat v ls pr)
  show ?thesis
  proof (cases "map_of r v")
    case (Some j)
    with assms NodePat show ?thesis by (auto split: if_splits)
  next
    case None
    with assms NodePat obtain m where "new_node ls m g = (i, g')"
      by (auto split: sum.splits prod.splits)
    with assms(1) show ?thesis by (rule new_node_wf)
  qed
qed

lemma create_row_wf:
  "wf_graph g \<Longrightarrow> create_row ps p (g, r) = Inr (g', r') \<Longrightarrow> wf_graph g'"
proof (cases p)
  case (PNode n)
  assume "wf_graph g" "create_row ps p (g, r) = Inr (g', r')"
  with PNode show ?thesis by (auto split: sum.splits dest: create_endpoint_wf)
next
  case (PRel n t m)
  assume wf: "wf_graph g" and eq: "create_row ps p (g, r) = Inr (g', r')"
  with PRel obtain g1 r1 i g2 j where
    e1: "create_endpoint ps n (g, r) = Inr (g1, r1, i)" and
    e2: "create_endpoint ps m (g1, r1) = Inr (g2, r', j)" and g': "g' = new_rel t i j g2"
    by (auto split: sum.splits)
  from create_endpoint_wf [OF wf e1] have w1: "wf_graph g1" and i1: "i \<in> set (node_ids g1)" by auto
  from create_endpoint_wf [OF w1 e2] i1 have "wf_graph g2" "i \<in> set (node_ids g2)" "j \<in> set (node_ids g2)"
    by auto
  with g' show ?thesis by (simp add: new_rel_wf)
qed

lemma create_rows_wf:
  "wf_graph g \<Longrightarrow> create_rows ps p g rows = Inr (g', rows') \<Longrightarrow> wf_graph g'"
proof (induction rows arbitrary: g rows')
  case Nil
  then show ?case by simp
next
  case (Cons r rows)
  from Cons.prems(2) obtain g1 r1 rows1 where
    s1: "create_row ps p (g, r) = Inr (g1, r1)" and s2: "create_rows ps p g1 rows = Inr (g', rows1)"
    by (auto split: sum.splits)
  from Cons.prems(1) s1 have "wf_graph g1" by (rule create_row_wf)
  from this s2 show ?case by (rule Cons.IH)
qed

lemma detach_delete_wf: "wf_graph g \<Longrightarrow> wf_graph (detach_delete ids g)"
proof -
  assume wf: "wf_graph g"
  let ?N = "filter (\<lambda>(i, _). i \<notin> set ids) (gnodes g)"
  let ?R = "filter (\<lambda>(_, e). rsrc e \<notin> set ids \<and> rdst e \<notin> set ids) (grels g)"
  have d: "distinct (map fst (gnodes g) @ map fst (grels g))"
    and b: "list_all (\<lambda>i. i < gnext g) (map fst (gnodes g) @ map fst (grels g))"
    and e: "list_all (\<lambda>(_, e). rsrc e \<in> set (node_ids g) \<and> rdst e \<in> set (node_ids g)) (grels g)"
    using wf by (simp_all add: wf_graph_def)
  have "distinct (map fst ?N @ map fst ?R)"
    using d by (auto simp: distinct_map_filter)
  moreover have "list_all (\<lambda>i. i < gnext g) (map fst ?N @ map fst ?R)"
    using b by (auto simp: list_all_iff)
  moreover have "list_all (\<lambda>(_, e). rsrc e \<in> fst ` set ?N \<and> rdst e \<in> fst ` set ?N) ?R"
    using e by (fastforce simp: list_all_iff node_ids_def image_iff)
  ultimately show ?thesis
    by (simp add: wf_graph_def detach_delete_def node_ids_def)
qed


lemma exec_clause_wf:
  "wf_graph g \<Longrightarrow> exec_clause ps c (g, rows, out) = Inr (g', rows', out') \<Longrightarrow> wf_graph g'"
  by (cases c) (auto split: sum.splits dest: create_rows_wf detach_delete_wf)

lemma exec_clauses_wf:
  "wf_graph g \<Longrightarrow> exec_clauses ps cs (g, rows, out) = Inr (g', rows', out') \<Longrightarrow> wf_graph g'"
proof (induction cs arbitrary: g rows out)
  case Nil
  then show ?case by simp
next
  case (Cons c cs)
  from Cons.prems(2) obtain g1 rows1 out1 where
    s1: "exec_clause ps c (g, rows, out) = Inr (g1, rows1, out1)"
    and s2: "exec_clauses ps cs (g1, rows1, out1) = Inr (g', rows', out')"
    by (auto split: sum.splits)
  from Cons.prems(1) s1 have "wf_graph g1" by (rule exec_clause_wf)
  from this s2 show ?case by (rule Cons.IH)
qed

theorem run_cypher_wf:
  "wf_graph g \<Longrightarrow> run_cypher q ps g = Inr (g', out) \<Longrightarrow> wf_graph g'"
  unfolding run_cypher_def
  by (auto split: option.splits if_splits sum.splits prod.splits dest: exec_clauses_wf)

text \<open>The counter is fresh: a new node has no relationship and shares no identity.\<close>

lemma wf_node_fresh: "wf_graph g \<Longrightarrow> (i, n) \<in> set (gnodes g) \<Longrightarrow> i \<noteq> gnext g"
  using wf_fresh by force

lemma wf_rel_ends_fresh:
  assumes "wf_graph g" and "(k, e) \<in> set (grels g)"
  shows "rsrc e \<noteq> gnext g \<and> rdst e \<noteq> gnext g"
proof -
  from assms have "rsrc e \<in> set (node_ids g)" and "rdst e \<in> set (node_ids g)"
    by (auto simp: wf_graph_def list_all_iff)
  with assms(1) wf_fresh [OF assms(1)] show ?thesis by (auto simp: node_ids_def image_iff)
qed

lemma detach_delete_new_node:
  assumes "wf_graph g"
  shows "detach_delete [gnext g] (snd (new_node ls m g)) = g\<lparr>gnext := Suc (gnext g)\<rparr>"
proof -
  have n: "filter (\<lambda>(i, _). i \<notin> set [gnext g]) (gnodes g) = gnodes g"
    using wf_node_fresh [OF assms] by (auto simp: filter_id_conv)
  have r: "filter (\<lambda>(_, e). rsrc e \<notin> set [gnext g] \<and> rdst e \<notin> set [gnext g]) (grels g) = grels g"
    using wf_rel_ends_fresh [OF assms] by (auto simp: filter_id_conv)
  show ?thesis using n r by (simp add: detach_delete_def new_node_def)
qed

text \<open>Deleting a list of matches after a creation deletes the new node with them.\<close>

lemma detach_delete_new_node_extra:
  assumes "wf_graph g"
  shows "detach_delete (ids @ [gnext g]) (snd (new_node ls m g)) =
           (detach_delete ids g)\<lparr>gnext := Suc (gnext g)\<rparr>"
proof -
  have n: "filter (\<lambda>(i, _). i \<notin> set (ids @ [gnext g])) (gnodes g) =
           filter (\<lambda>(i, _). i \<notin> set ids) (gnodes g)"
    using wf_node_fresh [OF assms] by (auto intro!: filter_cong)
  have r: "filter (\<lambda>(_, e). rsrc e \<notin> set (ids @ [gnext g]) \<and> rdst e \<notin> set (ids @ [gnext g])) (grels g) =
           filter (\<lambda>(_, e). rsrc e \<notin> set ids \<and> rdst e \<notin> set ids) (grels g)"
    using wf_rel_ends_fresh [OF assms] by (auto intro!: filter_cong)
  show ?thesis using n r by (simp add: detach_delete_def new_node_def)
qed

lemma wf_new_node_graph: "wf_graph g \<Longrightarrow> wf_graph (snd (new_node ls m g))"
  using new_node_wf [of g ls m] by (cases "new_node ls m g") auto

text \<open>Creating relationships for a list of pairs appends them with consecutive identities.\<close>

lemma fold_new_rel:
  "fold (\<lambda>(i, j). new_rel t i j) pairs g =
     g\<lparr>grels := grels g @ map (\<lambda>((i, j), k). (k, \<lparr>rtype = t, rsrc = i, rdst = j\<rparr>))
                          (zip pairs [gnext g..<gnext g + length pairs]),
       gnext := gnext g + length pairs\<rparr>"
proof (induction pairs arbitrary: g)
  case Nil
  then show ?case by simp
next
  case (Cons p pairs)
  obtain i j where p: "p = (i, j)" by fastforce
  have "[gnext g..<gnext g + length (p # pairs)] = gnext g # [Suc (gnext g)..<Suc (gnext g) + length pairs]"
    using upt_conv_Cons [of "gnext g" "gnext g + Suc (length pairs)"] by simp
  with Cons.IH [of "new_rel t i j g"] p show ?case
    by (simp add: new_rel_def)
qed

subsection \<open>Abstract view: the graph as two finite maps\<close>

text \<open>
  Clients see the graph as a map from node identities to nodes and one from relationship
  identities to relationships; the lists' order and the counter are representation.
  \<open>a_delete P\<close> is the contract of a detach-delete of the nodes satisfying \<open>P\<close>: those
  nodes go, and a relationship stays exactly when both its ends stay.
\<close>

definition abs_graph :: "graph \<Rightarrow> (nat \<rightharpoonup> gnode) \<times> (nat \<rightharpoonup> grel)" where
  "abs_graph g = (map_of (gnodes g), map_of (grels g))"

definition a_delete ::
  "(gnode \<Rightarrow> bool) \<Rightarrow> (nat \<rightharpoonup> gnode) \<times> (nat \<rightharpoonup> grel) \<Rightarrow> (nat \<rightharpoonup> gnode) \<times> (nat \<rightharpoonup> grel)" where
  "a_delete P NR =
     (let N' = (\<lambda>i. case fst NR i of None \<Rightarrow> None | Some n \<Rightarrow> if P n then None else Some n)
      in (N', \<lambda>k. case snd NR k of
                  None \<Rightarrow> None
                | Some e \<Rightarrow> if N' (rsrc e) = None \<or> N' (rdst e) = None then None else Some e))"

lemma wf_rel_ends_mapped:
  assumes "wf_graph g" and "map_of (grels g) k = Some e"
  shows "rsrc e \<in> dom (map_of (gnodes g)) \<and> rdst e \<in> dom (map_of (gnodes g))"
proof -
  have "(k, e) \<in> set (grels g)" using assms(2) by (rule map_of_SomeD)
  with assms(1) show ?thesis
    by (auto simp: wf_graph_def list_all_iff node_ids_def dom_map_of_conv_image_fst)
qed

lemma detach_delete_abs:
  assumes "wf_graph g" and "\<And>i n. (i, n) \<in> set (gnodes g) \<Longrightarrow> i \<in> set ids \<longleftrightarrow> P n"
  shows "abs_graph (detach_delete ids g) = a_delete P (abs_graph g)"
proof -
  let ?N' = "\<lambda>i. case map_of (gnodes g) i of None \<Rightarrow> None | Some n \<Rightarrow> if P n then None else Some n"
  have n: "map_of (filter (\<lambda>(i, _). i \<notin> set ids) (gnodes g)) = ?N'"
  proof
    fix i
    show "map_of (filter (\<lambda>(i, _). i \<notin> set ids) (gnodes g)) i = ?N' i"
      using assms(2) [of i] by (auto simp: map_of_filter_key split: option.split dest: map_of_SomeD)
  qed
  have dr: "distinct (map fst (grels g))" using assms(1) by (simp add: wf_graph_def)
  have ends: "\<And>j. j \<in> dom (map_of (gnodes g)) \<Longrightarrow> ?N' j = None \<longleftrightarrow> j \<in> set ids"
    using assms(2) by (auto split: option.split dest: map_of_SomeD)
  have r: "map_of (filter (\<lambda>(_, e). rsrc e \<notin> set ids \<and> rdst e \<notin> set ids) (grels g)) =
      (\<lambda>k. case map_of (grels g) k of
             None \<Rightarrow> None
           | Some e \<Rightarrow> if ?N' (rsrc e) = None \<or> ?N' (rdst e) = None then None else Some e)"
  proof
    fix k
    show "map_of (filter (\<lambda>(_, e). rsrc e \<notin> set ids \<and> rdst e \<notin> set ids) (grels g)) k =
        (case map_of (grels g) k of
           None \<Rightarrow> None
         | Some e \<Rightarrow> if ?N' (rsrc e) = None \<or> ?N' (rdst e) = None then None else Some e)"
      using map_of_filter_value [OF dr, of "\<lambda>e. rsrc e \<notin> set ids \<and> rdst e \<notin> set ids" k]
        wf_rel_ends_mapped [OF assms(1), of k] ends
      by (auto split: option.split)
  qed
  show ?thesis using n r by (simp add: abs_graph_def a_delete_def detach_delete_def Let_def)
qed

lemma abs_graph_counter [simp]: "abs_graph (g\<lparr>gnext := n\<rparr>) = abs_graph g"
  by (simp add: abs_graph_def)

text \<open>A detach-delete of nodes of the graph changes what a client sees unless it deletes none.\<close>

lemma abs_graph_detach_delete_eq:
  assumes "set ids \<subseteq> set (node_ids g)"
  shows "abs_graph (detach_delete ids g) = abs_graph g \<longleftrightarrow> ids = []"
proof
  assume eq: "abs_graph (detach_delete ids g) = abs_graph g"
  show "ids = []"
  proof (rule ccontr)
    assume "ids \<noteq> []"
    then obtain i where i: "i \<in> set ids" by (cases ids) auto
    with assms obtain n where "(i, n) \<in> set (gnodes g)" by (auto simp: node_ids_def)
    then have "map_of (gnodes g) i \<noteq> None" by (auto simp: map_of_eq_None_iff intro: rev_image_eqI)
    moreover have "map_of (filter (\<lambda>(k, _). k \<notin> set ids) (gnodes g)) i = None"
      using i by (simp add: map_of_filter_key)
    ultimately show False using eq by (auto simp: abs_graph_def detach_delete_def dest: fun_cong [of _ _ i])
  qed
next
  assume "ids = []"
  then show "abs_graph (detach_delete ids g) = abs_graph g" by (simp add: abs_graph_def detach_delete_def)
qed


end
