(* ===== verification/Driver.thy ===== *)
theory Driver
  imports Graph_Store
begin

text \<open>
  The driver objects \<open>Neo4jConnection\<close> holds and the calls it makes on them
  (\<open>GraphDatabase.driver\<close>, \<open>driver.session()\<close>, \<open>session.run\<close>,
  \<open>session.begin_transaction()\<close>, \<open>tx.run\<close>, the transaction's scope exit,
  \<open>session.close()\<close>, \<open>driver.close()\<close>), modelled from the spec's interface
  description (section 6): the driver library is not code of the repository.
  The world is the server (its graph, whether it is reachable, the accepted
  credentials) and the log of every driver call in order, which is what the spec's
  resource property (P2) observes. Each call is logged when it is made, whether or not
  it then raises. Results are materialised when a query runs: the lazy result stream of
  the real driver is not modelled.
\<close>

datatype call =
    CDriver string
  | CSession
  | CRun string params
  | CBegin
  | CTxRun string
  | CCommit
  | CRollback
  | CCloseSession
  | CCloseDriver

record world =
  w_graph :: graph
  w_up :: bool
  w_users :: "(string \<times> string) list"
  w_calls :: "call list"

record driver =
  d_uri :: string
  d_auth :: "string \<times> string"
  d_open :: bool

record session =
  s_auth :: "string \<times> string"
  s_open :: bool
  s_tx :: bool

record tx =
  t_graph :: graph
  t_open :: bool

definition log :: "call \<Rightarrow> world \<Rightarrow> world" where
  "log c w = w\<lparr>w_calls := w_calls w @ [c]\<rparr>"

subsection \<open>Driver and session\<close>

definition uri_schemes :: "string list" where
  "uri_schemes = [''bolt://'', ''bolt+s://'', ''bolt+ssc://'', ''neo4j://'', ''neo4j+s://'',
                  ''neo4j+ssc://'']"

definition valid_uri :: "string \<Rightarrow> bool" where
  "valid_uri uri \<longleftrightarrow> list_ex (\<lambda>p. take (length p) uri = p) uri_schemes"

text \<open>Creating a driver checks the URI scheme only; it does not connect.\<close>

definition graphdb_driver :: "string \<Rightarrow> string \<times> string \<Rightarrow> world \<Rightarrow> driver exc \<times> world" where
  "graphdb_driver uri auth w =
     (let w' = log (CDriver uri) w in
      if valid_uri uri then (Inr \<lparr>d_uri = uri, d_auth = auth, d_open = True\<rparr>, w')
      else (Inl ConfigurationError, w'))"

definition driver_session :: "driver \<Rightarrow> world \<Rightarrow> session exc \<times> world" where
  "driver_session d w =
     (let w' = log CSession w in
      if d_open d then (Inr \<lparr>s_auth = d_auth d, s_open = True, s_tx = False\<rparr>, w')
      else (Inl DriverClosed, w'))"

text \<open>The first network round trip of a call reaches the server and authenticates.\<close>

definition connect :: "session \<Rightarrow> world \<Rightarrow> unit exc" where
  "connect s w =
     (if \<not> w_up w then Inl ServiceUnavailable
      else if s_auth s \<notin> set (w_users w) then Inl AuthError
      else Inr ())"

definition session_run ::
  "session \<Rightarrow> string \<Rightarrow> params \<Rightarrow> world \<Rightarrow> result_row list exc \<times> world" where
  "session_run s q ps w =
     (let w' = log (CRun q ps) w in
      if \<not> s_open s then (Inl SessionClosed, w')
      else if s_tx s then (Inl TransactionError, w')
      else (case connect s w' of
              Inl e \<Rightarrow> (Inl e, w')
            | Inr _ \<Rightarrow>
                (case run_cypher q ps (w_graph w') of
                   Inl e \<Rightarrow> (Inl e, w')
                 | Inr (g', out) \<Rightarrow> (Inr out, w'\<lparr>w_graph := g'\<rparr>))))"

text \<open>Closing a session drops any open transaction (its changes were never committed).\<close>

definition session_close :: "session \<Rightarrow> world \<Rightarrow> session \<times> world" where
  "session_close s w = (s\<lparr>s_open := False, s_tx := False\<rparr>, log CCloseSession w)"

definition driver_close :: "driver \<Rightarrow> world \<Rightarrow> driver \<times> world" where
  "driver_close d w = (d\<lparr>d_open := False\<rparr>, log CCloseDriver w)"

subsection \<open>Explicit transactions\<close>

text \<open>
  A transaction works on its own copy of the graph; commit publishes it, rollback drops
  it. The session refuses a second transaction and autocommit queries while one is open.
\<close>

definition begin_transaction :: "session \<Rightarrow> world \<Rightarrow> tx exc \<times> session \<times> world" where
  "begin_transaction s w =
     (let w' = log CBegin w in
      if \<not> s_open s then (Inl SessionClosed, s, w')
      else if s_tx s then (Inl TransactionError, s, w')
      else (case connect s w' of
              Inl e \<Rightarrow> (Inl e, s, w')
            | Inr _ \<Rightarrow> (Inr \<lparr>t_graph = w_graph w', t_open = True\<rparr>, s\<lparr>s_tx := True\<rparr>, w')))"

definition tx_run :: "tx \<Rightarrow> string \<Rightarrow> params \<Rightarrow> world \<Rightarrow> result_row list exc \<times> tx \<times> world" where
  "tx_run t q ps w =
     (let w' = log (CTxRun q) w in
      if \<not> t_open t then (Inl TransactionError, t, w')
      else (case run_cypher q ps (t_graph t) of
              Inl e \<Rightarrow> (Inl e, t, w')
            | Inr (g', out) \<Rightarrow> (Inr out, t\<lparr>t_graph := g'\<rparr>, w')))"

text \<open>
  Leaving \<open>with session.begin_transaction() as tx\<close>: commit when the block ended
  normally, roll back when it raised.
\<close>

definition tx_exit :: "bool \<Rightarrow> tx \<Rightarrow> session \<Rightarrow> world \<Rightarrow> session \<times> world" where
  "tx_exit ok t s w =
     (if ok then (s\<lparr>s_tx := False\<rparr>, (log CCommit w)\<lparr>w_graph := t_graph t\<rparr>)
      else (s\<lparr>s_tx := False\<rparr>, log CRollback w))"

subsection \<open>Frame lemmas: each call appends exactly its own log entry\<close>

lemma session_run_calls: "w_calls (snd (session_run s q ps w)) = w_calls w @ [CRun q ps]"
  by (simp add: session_run_def Let_def log_def split: sum.split prod.split)

lemma begin_transaction_calls: "w_calls (snd (snd (begin_transaction s w))) = w_calls w @ [CBegin]"
  by (simp add: begin_transaction_def Let_def log_def split: sum.split)

lemma tx_run_calls: "w_calls (snd (snd (tx_run t q ps w))) = w_calls w @ [CTxRun q]"
  by (simp add: tx_run_def Let_def log_def split: sum.split prod.split)

lemma tx_exit_calls:
  "w_calls (snd (tx_exit ok t s w)) = w_calls w @ [if ok then CCommit else CRollback]"
  by (simp add: tx_exit_def log_def)

subsection \<open>What each call does to the graph\<close>

lemma session_run_wf:
  "wf_graph (w_graph w) \<Longrightarrow> wf_graph (w_graph (snd (session_run s q ps w)))"
  by (auto simp: session_run_def Let_def log_def split: sum.split prod.split dest: run_cypher_wf)

lemma begin_transaction_graph: "w_graph (snd (snd (begin_transaction s w))) = w_graph w"
  by (simp add: begin_transaction_def Let_def log_def split: sum.split)

lemma begin_transaction_tx:
  "fst (begin_transaction s w) = Inr t \<Longrightarrow> t_graph t = w_graph w"
  by (auto simp: begin_transaction_def Let_def log_def split: sum.splits if_splits)

lemma tx_run_graph: "w_graph (snd (snd (tx_run t q ps w))) = w_graph w"
  by (simp add: tx_run_def Let_def log_def split: sum.split prod.split)

lemma tx_run_wf:
  "wf_graph (t_graph t) \<Longrightarrow> wf_graph (t_graph (fst (snd (tx_run t q ps w))))"
  by (auto simp: tx_run_def Let_def split: sum.split prod.split dest: run_cypher_wf)

lemma tx_exit_graph:
  "w_graph (snd (tx_exit ok t s w)) = (if ok then t_graph t else w_graph w)"
  by (simp add: tx_exit_def log_def)

end
