(* ===== verification/Queries.thy ===== *)
theory Queries
  imports Graph_Store
begin

text \<open>
  The query text and parameter dictionaries that the helper methods of
  \<open>Neo4jConnection\<close> build (\<open>neo4j_dev.py\<close>, lines 29--50), as the f-strings and
  dict literals write them, and what the server's parser reads in that text. Labels,
  the relationship type and (in \<open>delete_node\<close>) the property keys are spliced into
  the text; property values and the two node names travel as parameters. The lemmas give
  the parse of each text, the parameters it refers to (C24), its effect on the graph, and
  the texts the server rejects or reads differently.
\<close>

subsection \<open>The builders\<close>

text \<open>\<open>f"CREATE (a:{label} $properties) RETURN a"\<close> and \<open>{"properties": properties}\<close>.\<close>

definition create_node_query :: "string \<Rightarrow> string" where
  "create_node_query label = ''CREATE (a:'' @ label @ '' $properties) RETURN a''"

definition create_node_params :: "props \<Rightarrow> params" where
  "create_node_params properties = [(''properties'', PMap properties)]"

text \<open>
  The triple-quoted f-string of \<open>create_relationship\<close>: it starts with a newline, each
  line is indented by eight spaces, and the doubled braces are literal braces.
\<close>

definition create_relationship_query :: "string \<Rightarrow> string \<Rightarrow> string \<Rightarrow> string" where
  "create_relationship_query rel_type start_label end_label =
     ''\<newline>        MATCH (a:'' @ start_label @ '' {name: $start_node})\<newline>        MATCH (b:''
       @ end_label @ '' {name: $end_node})\<newline>        CREATE (a)-[:'' @ rel_type
       @ '']->(b)\<newline>        ''"

definition create_relationship_params :: "scalar \<Rightarrow> scalar \<Rightarrow> params" where
  "create_relationship_params start_node end_node =
     [(''start_node'', PV start_node), (''end_node'', PV end_node)]"

text \<open>\<open>" AND ".join([f"a.{key} = ${key}" for key in properties.keys()])\<close>.\<close>

definition delete_condition :: "string \<Rightarrow> string" where
  "delete_condition key = ''a.'' @ key @ '' = $'' @ key"

definition delete_conditions :: "props \<Rightarrow> string" where
  "delete_conditions properties = py_join '' AND '' (map delete_condition (map fst properties))"

definition delete_node_query :: "string \<Rightarrow> props \<Rightarrow> string" where
  "delete_node_query label properties =
     ''MATCH (a:'' @ label @ '') WHERE '' @ delete_conditions properties @ '' DETACH DELETE a''"

text \<open>\<open>delete_node\<close> passes the property dict itself as the parameter dict.\<close>

definition delete_node_params :: "props \<Rightarrow> params" where
  "delete_node_params properties = map (\<lambda>(k, v). (k, PV v)) properties"

subsection \<open>What the server reads\<close>

text \<open>
  For identifiers as labels, relationship type and keys, each builder's text parses to
  exactly the clauses the method means. The token shape of the joined conditions is
  proved by induction over the keys.
\<close>

lemmas char_defs = upper_def upper_char_def sym_of_char_def is_space_def is_ident_char_def is_tick_def
  is_ident_start_def

lemmas parse_unfold = p_clauses.simps p_clause_def p_pattern_def p_node_def p_labels.simps
  p_props_def p_entries.simps p_rel_tail_def p_cond_def

definition cond_tokens :: "string \<Rightarrow> token list" where
  "cond_tokens k = [TIdent ''a'', TSym Dot, TIdent k, TSym EqSign, TParam k]"

lemma lex_delete_condition:
  "is_ident k \<Longrightarrow> word_end rest \<Longrightarrow>
     lex (delete_condition k @ rest) = map_option (\<lambda>ts. cond_tokens k @ ts) (lex rest)"
  by (simp add: delete_condition_def cond_tokens_def char_defs str_simps option.map_comp o_def)

fun conds_tokens :: "string list \<Rightarrow> token list" where
  "conds_tokens [] = []"
| "conds_tokens [k] = cond_tokens k"
| "conds_tokens (k # k' # ks) = cond_tokens k @ TIdent ''AND'' # conds_tokens (k' # ks)"

lemma lex_delete_conditions:
  "keys \<noteq> [] \<Longrightarrow> list_all is_ident keys \<Longrightarrow> word_end rest \<Longrightarrow>
     lex (py_join '' AND '' (map delete_condition keys) @ rest) =
       map_option (\<lambda>ts. conds_tokens keys @ ts) (lex rest)"
proof (induction keys rule: conds_tokens.induct)
  case (2 k)
  then show ?case by (simp add: lex_delete_condition)
next
  case (3 k k' ks)
  then have IH: "lex (py_join '' AND '' (map delete_condition (k' # ks)) @ rest) =
       map_option (\<lambda>ts. conds_tokens (k' # ks) @ ts) (lex rest)" by simp
  have "word_end ('' AND '' @ py_join '' AND '' (map delete_condition (k' # ks)) @ rest)"
    by (simp add: char_defs)
  with 3 IH show ?case
    by (simp add: lex_delete_condition char_defs option.map_comp o_def)
qed simp

lemma lex_delete_conditions_props:
  "properties \<noteq> [] \<Longrightarrow> list_all is_ident (map fst properties) \<Longrightarrow> word_end rest \<Longrightarrow>
     lex (delete_conditions properties @ rest) =
       map_option (\<lambda>ts. conds_tokens (map fst properties) @ ts) (lex rest)"
  unfolding delete_conditions_def using lex_delete_conditions [of "map fst properties"] by simp

lemma p_conds_tokens:
  "keys \<noteq> [] \<Longrightarrow> p_kw ''AND'' rest = None \<Longrightarrow>
     p_conds (conds_tokens keys @ rest) = Some (map (\<lambda>k. Eq ''a'' k k) keys, rest)"
proof (induction keys rule: conds_tokens.induct)
  case (2 k)
  then show ?case by (subst p_conds.simps) (simp add: p_cond_def cond_tokens_def)
next
  case (3 k k' ks)
  then show ?case
    by (subst p_conds.simps) (simp add: p_cond_def cond_tokens_def char_defs)
qed simp

lemma delete_node_query_parse:
  assumes "is_ident label" and "properties \<noteq> []" and "list_all is_ident (map fst properties)"
  shows "parse (delete_node_query label properties) =
    Some [Match (NodePat ''a'' [label] None) (map (\<lambda>k. Eq ''a'' k k) (map fst properties)),
          DetachDelete ''a'']"
proof -
  have lx: "lex (delete_node_query label properties) =
    Some ([TIdent ''MATCH'', TSym LParen, TIdent ''a'', TSym Colon, TIdent label, TSym RParen,
           TIdent ''WHERE''] @ conds_tokens (map fst properties) @
          [TIdent ''DETACH'', TIdent ''DELETE'', TIdent ''a''])"
    using assms
    by (simp add: delete_node_query_def lex_delete_conditions_props char_defs)
  show ?thesis
    using assms
    by (simp add: parse_def lx parse_unfold p_conds_tokens char_defs)
qed

lemma create_relationship_query_parse:
  assumes "is_ident rel_type" and "is_ident start_label" and "is_ident end_label"
  shows "parse (create_relationship_query rel_type start_label end_label) =
    Some [Match (NodePat ''a'' [start_label] (Some (PropMap [(''name'', ''start_node'')]))) [],
          Match (NodePat ''b'' [end_label] (Some (PropMap [(''name'', ''end_node'')]))) [],
          Create (PRel (NodePat ''a'' [] None) rel_type (NodePat ''b'' [] None))]"
  using assms
  by (simp add: create_relationship_query_def parse_def parse_unfold char_defs)

lemma create_node_query_parse:
  "is_ident label \<Longrightarrow> parse (create_node_query label) =
     Some [Create (PNode (NodePat ''a'' [label] (Some (PropParam ''properties'')))), Return ''a'']"
  by (simp add: create_node_query_def parse_def parse_unfold char_defs)

text \<open>The parameter names a query text refers to, as the server reads them.\<close>

definition query_params :: "string \<Rightarrow> string list option" where
  "query_params q = map_option (\<lambda>cs. concat (map clause_params cs)) (parse q)"

text \<open>
  C24 (parameters match the text). For identifier labels, type and keys and a non-empty
  dict, the parameter dict each helper passes binds exactly the parameters its query text
  refers to, in order: \<open>$properties\<close> for \<open>create_node\<close>, \<open>$start_node\<close> and
  \<open>$end_node\<close> for \<open>create_relationship\<close>, one \<open>$key\<close> per key for \<open>delete_node\<close>.
  So the server never reports a missing parameter for the helpers' queries.
\<close>

theorem helpers_bind_params:
  assumes "is_ident label" and "is_ident rel_type" and "is_ident start_label"
    and "is_ident end_label" and "properties \<noteq> []" and "list_all is_ident (map fst properties)"
  shows "query_params (create_node_query label) = Some (map fst (create_node_params properties)) \<and>
         query_params (create_relationship_query rel_type start_label end_label) =
           Some (map fst (create_relationship_params start_node end_node)) \<and>
         query_params (delete_node_query label properties) =
           Some (map fst (delete_node_params properties))"
  using assms
  by (simp add: query_params_def create_node_query_parse create_relationship_query_parse
      delete_node_query_parse create_node_params_def create_relationship_params_def
      delete_node_params_def comp_def case_prod_beta)

theorem helpers_bind_params_witness:
  "query_params (delete_node_query ''Person'' [(''name'', VStr ''Alice''), (''age'', VInt 30)]) =
     Some [''name'', ''age'']"
proof -
  have h: "is_ident ''Person''" "is_ident ''FRIENDS_WITH''"
    "list_all is_ident (map fst [(''name'', VStr ''Alice''), (''age'', VInt 30)])"
    by (simp_all add: is_ident_start_def is_ident_char_def)
  show ?thesis
    using helpers_bind_params [OF h(1,2,1,1) _ h(3),
        of "VStr ''Alice''" "VStr ''Bob''"]
    by (simp add: delete_node_params_def)
qed

subsection \<open>What the helpers' queries do to the graph\<close>

text \<open>
  The effect of each builder's query on a well-formed graph: \<open>create_node\<close> adds one node
  (identity \<open>gnext\<close>) and returns it; \<open>delete_node\<close> detach-deletes exactly the nodes
  carrying the label whose properties agree with every given key; \<open>create_relationship\<close>
  adds one relationship for every pair of a start match and an end match, in the
  order of the two scans, and nothing else.
\<close>

definition has_props :: "props \<Rightarrow> gnode \<Rightarrow> bool" where
  "has_props properties n \<longleftrightarrow>
     list_all (\<lambda>k. map_of (nprops n) k = map_of properties k) (map fst properties)"

definition matching_ids :: "string \<Rightarrow> props \<Rightarrow> graph \<Rightarrow> nat list" where
  "matching_ids label properties g =
     map fst (filter (\<lambda>(_, n). label \<in> set (nlabels n) \<and> has_props properties n) (gnodes g))"

definition named_ids :: "string \<Rightarrow> scalar \<Rightarrow> graph \<Rightarrow> nat list" where
  "named_ids label v g =
     map fst (filter (\<lambda>(_, n). label \<in> set (nlabels n) \<and> map_of (nprops n) ''name'' = Some v)
       (gnodes g))"

lemma wf_map_of_nodes:
  "wf_graph g \<Longrightarrow> (i, n) \<in> set (gnodes g) \<Longrightarrow> map_of (gnodes g) i = Some n"
  by (simp add: wf_graph_def)

lemma matching_ids_iff:
  assumes "wf_graph g" and "(i, n) \<in> set (gnodes g)"
  shows "i \<in> set (matching_ids label properties g) \<longleftrightarrow> label \<in> set (nlabels n) \<and> has_props properties n"
proof
  assume "i \<in> set (matching_ids label properties g)"
  then obtain n' where n': "(i, n') \<in> set (gnodes g)" and p: "label \<in> set (nlabels n') \<and> has_props properties n'"
    by (auto simp: matching_ids_def)
  have "distinct (map fst (gnodes g))" using assms(1) by (simp add: wf_graph_def)
  then have "n' = n" using n' assms(2) by (rule eq_key_imp_eq_value)
  with p show "label \<in> set (nlabels n) \<and> has_props properties n" by simp
next
  assume "label \<in> set (nlabels n) \<and> has_props properties n"
  with assms(2) show "i \<in> set (matching_ids label properties g)"
    by (force simp: matching_ids_def)
qed

lemma wf_map_of_fresh: "wf_graph g \<Longrightarrow> map_of (gnodes g) (gnext g) = None"
  using wf_fresh by (auto simp: map_of_eq_None_iff)

lemma node_ok_fresh:
  "map_of r v = None \<Longrightarrow>
     node_ok ps (NodePat v ls pr) r = (\<lambda>(i, n). set ls \<subseteq> set (nlabels n) \<and> props_match ps pr n)"
  by (auto simp: fun_eq_iff)

lemma match_rows_fresh:
  "(\<forall>r \<in> set rows. map_of r v = None) \<Longrightarrow>
   match_rows ps g (NodePat v ls pr) [] rows =
     concat (map (\<lambda>r. map (\<lambda>(i, _). (v, i) # r)
        (filter (\<lambda>(i, n). set ls \<subseteq> set (nlabels n) \<and> props_match ps pr n) (gnodes g))) rows)"
  by (induction rows) (simp_all add: bind_var_def node_ok_fresh cong: map_cong)

lemma prop_eq_delete_params:
  "k \<in> set (map fst properties) \<Longrightarrow>
     prop_eq (delete_node_params properties) n k k = (map_of (nprops n) k = map_of properties k)"
  by (auto simp: prop_eq_def delete_node_params_def alist_simps split: option.splits
      dest: weak_map_of_SomeI)

lemma run_create_parsed:
  assumes "parse q = Some [Create (PNode (NodePat ''a'' ls (Some (PropParam ''properties'')))), Return ''a'']"
    and "wf_graph g"
  shows "run_cypher q (create_node_params properties) g =
    Inr (snd (new_node ls properties g),
         [[(''a'', RNode (gnext g) \<lparr>nlabels = remdups ls, nprops = properties\<rparr>)]])"
  using assms
  by (simp add: run_cypher_def create_node_params_def new_node_def
      return_row_def wf_map_of_fresh map_of_append map_add_def)

lemma run_create_node:
  assumes "wf_graph g" and "is_ident label"
  shows "run_cypher (create_node_query label) (create_node_params properties) g =
    Inr (snd (new_node [label] properties g),
         [[(''a'', RNode (gnext g) \<lparr>nlabels = [label], nprops = properties\<rparr>)]])"
  using run_create_parsed [OF create_node_query_parse [OF assms(2)] assms(1)] by simp

lemma delete_rows:
  assumes "wf_graph g" and "set xs \<subseteq> set (gnodes g)"
  shows "filter (\<lambda>r. list_all (cond_holds (delete_node_params properties) g r)
                        (map (\<lambda>k. Eq ''a'' k k) (map fst properties)))
           (map (\<lambda>(i, _). [(''a'', i)]) (filter (\<lambda>(i, n). label \<in> set (nlabels n)) xs)) =
         map (\<lambda>(i, _). [(''a'', i)])
           (filter (\<lambda>(_, n). label \<in> set (nlabels n) \<and> has_props properties n) xs)"
  using assms(2)
proof (induction xs)
  case (Cons x xs)
  obtain i n where x: "x = (i, n)" by fastforce
  with Cons.prems assms(1) have "map_of (gnodes g) i = Some n" by (simp add: wf_map_of_nodes)
  with Cons x show ?case
    by (simp add: has_props_def list_all_iff prop_eq_delete_params)
qed simp

lemma map_filter_single_rows:
  "List.map_filter (\<lambda>r. map_of r v) (map (\<lambda>(i, _). [(v, i)]) xs) = map fst xs"
  by (induction xs) (auto simp: List.map_filter_def)

lemma run_delete_node:
  assumes "wf_graph g" and "is_ident label" and "properties \<noteq> []"
    and "list_all is_ident (map fst properties)"
  shows "run_cypher (delete_node_query label properties) (delete_node_params properties) g =
    Inr (detach_delete (matching_ids label properties g) g, [])"
proof -
  let ?ps = "delete_node_params properties"
  let ?cs = "map (\<lambda>k. Eq ''a'' k k) (map fst properties)"
  have rows: "match_rows ?ps g (NodePat ''a'' [label] None) ?cs [[]] =
      map (\<lambda>(i, _). [(''a'', i)])
        (filter (\<lambda>(_, n). label \<in> set (nlabels n) \<and> has_props properties n) (gnodes g))"
    using delete_rows [OF assms(1) order_refl, of properties label]
    by (simp add: bind_var_def node_ok_fresh)
  have ids: "List.map_filter (\<lambda>r. map_of r ''a'')
      (map (\<lambda>(i, _). [(''a'', i)])
        (filter (\<lambda>(_, n). label \<in> set (nlabels n) \<and> has_props properties n) (gnodes g))) =
      matching_ids label properties g"
    by (simp add: map_filter_single_rows matching_ids_def)
  have params: "list_all (\<lambda>p. map_of ?ps p \<noteq> None) (map fst properties)"
    by (auto simp: list_all_iff delete_node_params_def alist_simps weak_map_of_SomeI)
  show ?thesis
    using assms rows ids params
    by (simp add: run_cypher_def delete_node_query_parse o_def list_all_iff)
qed

lemma create_rows_rel:
  assumes "\<forall>(i, j) \<in> set pairs. i \<in> set (node_ids g) \<and> j \<in> set (node_ids g)"
  shows "create_rows ps (PRel (NodePat ''a'' [] None) t (NodePat ''b'' [] None)) g
           (map (\<lambda>(i, j). [(''b'', j), (''a'', i)]) pairs) =
         Inr (fold (\<lambda>(i, j). new_rel t i j) pairs g, map (\<lambda>(i, j). [(''b'', j), (''a'', i)]) pairs)"
  using assms
proof (induction pairs arbitrary: g)
  case (Cons p pairs)
  obtain i j where p: "p = (i, j)" by fastforce
  have "\<forall>(i, j) \<in> set pairs. i \<in> set (node_ids (new_rel t i j g)) \<and> j \<in> set (node_ids (new_rel t i j g))"
    using Cons.prems by auto
  then show ?case
    using Cons.prems Cons.IH [of "new_rel t i j g"] p by auto
qed simp

lemma product_rows:
  "concat (map (\<lambda>r. map (\<lambda>(j, _). (''b'', j) # r) ys) (map (\<lambda>(i, _). [(''a'', i)]) xs)) =
     map (\<lambda>(i, j). [(''b'', j), (''a'', i)]) (List.product (map fst xs) (map fst ys))"
  by (induction xs) (auto simp: case_prod_beta)

lemma run_create_relationship:
  assumes "is_ident rel_type" and "is_ident start_label" and "is_ident end_label"
  shows "run_cypher (create_relationship_query rel_type start_label end_label)
           (create_relationship_params start_node end_node) g =
    Inr (fold (\<lambda>(i, j). new_rel rel_type i j)
           (List.product (named_ids start_label start_node g) (named_ids end_label end_node g)) g,
         [])"
proof -
  let ?ps = "create_relationship_params start_node end_node"
  let ?A = "filter (\<lambda>(_, n). start_label \<in> set (nlabels n) \<and> map_of (nprops n) ''name'' = Some start_node)
              (gnodes g)"
  let ?B = "filter (\<lambda>(_, n). end_label \<in> set (nlabels n) \<and> map_of (nprops n) ''name'' = Some end_node)
              (gnodes g)"
  let ?B' = "filter (\<lambda>(i, n). set [end_label] \<subseteq> set (nlabels n) \<and>
              props_match ?ps (Some (PropMap [(''name'', ''end_node'')])) n) (gnodes g)"
  have r1: "match_rows ?ps g (NodePat ''a'' [start_label] (Some (PropMap [(''name'', ''start_node'')]))) [] [[]] =
      map (\<lambda>(i, _). [(''a'', i)]) ?A"
    by (simp add: bind_var_def node_ok_fresh create_relationship_params_def prop_eq_def
        case_prod_beta)
  have "match_rows ?ps g (NodePat ''b'' [end_label] (Some (PropMap [(''name'', ''end_node'')]))) []
      (map (\<lambda>(i, _). [(''a'', i)]) ?A) =
      concat (map (\<lambda>r. map (\<lambda>(j, _). (''b'', j) # r) ?B') (map (\<lambda>(i, _). [(''a'', i)]) ?A))"
    by (rule match_rows_fresh) auto
  also have "\<dots> = map (\<lambda>(i, j). [(''b'', j), (''a'', i)]) (List.product (map fst ?A) (map fst ?B'))"
    by (rule product_rows)
  also have "?B' = ?B"
    by (simp add: create_relationship_params_def prop_eq_def case_prod_beta)
  finally have r2: "match_rows ?ps g (NodePat ''b'' [end_label] (Some (PropMap [(''name'', ''end_node'')]))) []
      (map (\<lambda>(i, _). [(''a'', i)]) ?A) =
      map (\<lambda>(i, j). [(''b'', j), (''a'', i)]) (List.product (map fst ?A) (map fst ?B))" .
  have ids: "\<forall>(i, j) \<in> set (List.product (map fst ?A) (map fst ?B)).
      i \<in> set (node_ids g) \<and> j \<in> set (node_ids g)"
    by (auto simp: node_ids_def)
  show ?thesis
    using assms r1 r2 create_rows_rel [OF ids, of ?ps rel_type]
    by (simp add: run_cypher_def create_relationship_query_parse named_ids_def
        create_relationship_params_def del: match_rows.simps)
qed

subsection \<open>Texts the server rejects or reads differently\<close>

text \<open>
  With no property the conditions are empty and the text is \<open>WHERE  DETACH\<close>; a key
  that is not an identifier breaks the condition; a label with a colon is read as two
  labels; the fixed \<open>SHOW DATABASES\<close> text lists the database names.
\<close>

lemma delete_node_query_empty_parse:
  "is_ident label \<Longrightarrow> parse (delete_node_query label []) = None"
  by (simp add: delete_node_query_def delete_conditions_def parse_def parse_unfold p_conds.simps
      char_defs)

lemma injected_label_parse:
  "parse (create_node_query ''Person:Admin'') =
     Some [Create (PNode (NodePat ''a'' [''Person'', ''Admin''] (Some (PropParam ''properties'')))),
           Return ''a'']"
  by (simp add: create_node_query_def parse_def parse_unfold char_defs)

lemma spaced_key_parse:
  assumes "is_ident label" and "is_ident k1" and "is_ident k2"
  shows "parse (delete_node_query label [(k1 @ '' '' @ k2, v)]) = None"
proof -
  have lx: "lex (delete_node_query label [(k1 @ '' '' @ k2, v)]) =
    Some [TIdent ''MATCH'', TSym LParen, TIdent ''a'', TSym Colon, TIdent label, TSym RParen,
          TIdent ''WHERE'', TIdent ''a'', TSym Dot, TIdent k1, TIdent k2, TSym EqSign,
          TParam k1, TIdent k2, TIdent ''DETACH'', TIdent ''DELETE'', TIdent ''a'']"
    using assms
    by (simp add: delete_node_query_def delete_conditions_def delete_condition_def char_defs
        str_simps)
  show ?thesis
    unfolding parse_def lx by (simp add: parse_unfold p_conds.simps char_defs)
qed

lemma show_databases_parse: "parse ''SHOW DATABASES'' = Some [ShowDatabases]"
  by (simp add: parse_def parse_unfold char_defs)

lemma run_show_databases:
  "run_cypher ''SHOW DATABASES'' [] g = Inr (g, map (\<lambda>d. [(''name'', RVal (VStr d))]) (gdbs g))"
  by (simp add: run_cypher_def show_databases_parse)

end
