(* ===== verification/Connection.thy ===== *)
theory Connection
  imports Driver Queries
begin

text \<open>
  The class \<open>Neo4jConnection\<close> of \<open>src/docs/sections/neo4j/code/neo4j_dev.py\<close> and the
  usage block at its end. The object's two attributes are a record; each method takes
  the object and the world and returns its result (or the exception it raises), the
  object and the world after the call. The \<open>with\<close> statement of the usage block is
  Python's: \<open>__init__\<close>, then \<open>__enter__\<close>, then the body until its first
  exception, then \<open>__exit__\<close> on every path that entered, and the body's exception
  re-raised since \<open>__exit__\<close> returns \<open>None\<close>.
\<close>

record conn =
  c_driver :: driver
  c_session :: "session option"

type_synonym 'a meth = "conn \<Rightarrow> world \<Rightarrow> 'a exc \<times> conn \<times> world"

subsection \<open>Lifecycle: \<open>__init__\<close>, \<open>__enter__\<close>, \<open>__exit__\<close>\<close>

definition neo4j_init :: "string \<Rightarrow> string \<Rightarrow> string \<Rightarrow> world \<Rightarrow> conn exc \<times> world" where
  "neo4j_init uri user password w =
     (case graphdb_driver uri (user, password) w of
        (Inl e, w') \<Rightarrow> (Inl e, w')
      | (Inr d, w') \<Rightarrow> (Inr \<lparr>c_driver = d, c_session = None\<rparr>, w'))"

definition conn_enter :: "unit meth" where
  "conn_enter c w =
     (case driver_session (c_driver c) w of
        (Inl e, w') \<Rightarrow> (Inl e, c, w')
      | (Inr s, w') \<Rightarrow> (Inr (), c\<lparr>c_session := Some s\<rparr>, w'))"

text \<open>\<open>self._session.close()\<close> then \<open>self._driver.close()\<close>; on \<open>None\<close> the first raises.\<close>

definition conn_exit :: "unit meth" where
  "conn_exit c w =
     (case c_session c of
        None \<Rightarrow> (Inl AttributeError, c, w)
      | Some s \<Rightarrow>
          (case session_close s w of
             (s', w1) \<Rightarrow>
               (case driver_close (c_driver c) w1 of
                  (d', w2) \<Rightarrow> (Inr (), c\<lparr>c_session := Some s', c_driver := d'\<rparr>, w2))))"

subsection \<open>Queries\<close>

definition run_query :: "string \<Rightarrow> params \<Rightarrow> result_row list meth" where
  "run_query q ps c w =
     (case c_session c of
        None \<Rightarrow> (Inl AttributeError, c, w)
      | Some s \<Rightarrow> (case session_run s q ps w of (r, w') \<Rightarrow> (r, c, w')))"

text \<open>\<open>[record["name"] for record in result]\<close>, raising at the first record without the key.\<close>

fun record_names :: "result_row list \<Rightarrow> rvalue list exc" where
  "record_names [] = Inr []"
| "record_names (r # rs) =
     (case map_of r ''name'' of
        None \<Rightarrow> Inl KeyError
      | Some v \<Rightarrow> (case record_names rs of Inl e \<Rightarrow> Inl e | Inr vs \<Rightarrow> Inr (v # vs)))"

text \<open>
  \<open>show_databases\<close>: the transaction scope commits when the list is built and rolls
  back when \<open>tx.run\<close> or the comprehension raises.
\<close>

definition show_databases :: "rvalue list meth" where
  "show_databases c w =
     (case c_session c of
        None \<Rightarrow> (Inl AttributeError, c, w)
      | Some s \<Rightarrow>
          (case begin_transaction s w of
             (Inl e, s1, w1) \<Rightarrow> (Inl e, c\<lparr>c_session := Some s1\<rparr>, w1)
           | (Inr t, s1, w1) \<Rightarrow>
               (case tx_run t ''SHOW DATABASES'' [] w1 of
                  (Inl e, t2, w2) \<Rightarrow>
                    (case tx_exit False t2 s1 w2 of
                       (s3, w3) \<Rightarrow> (Inl e, c\<lparr>c_session := Some s3\<rparr>, w3))
                | (Inr recs, t2, w2) \<Rightarrow>
                    (case record_names recs of
                       Inl e \<Rightarrow>
                         (case tx_exit False t2 s1 w2 of
                            (s3, w3) \<Rightarrow> (Inl e, c\<lparr>c_session := Some s3\<rparr>, w3))
                     | Inr names \<Rightarrow>
                         (case tx_exit True t2 s1 w2 of
                            (s3, w3) \<Rightarrow> (Inr names, c\<lparr>c_session := Some s3\<rparr>, w3))))))"

definition create_node :: "string \<Rightarrow> props \<Rightarrow> result_row list meth" where
  "create_node label properties =
     run_query (create_node_query label) (create_node_params properties)"

definition create_relationship ::
  "scalar \<Rightarrow> string \<Rightarrow> scalar \<Rightarrow> string \<Rightarrow> string \<Rightarrow> result_row list meth" where
  "create_relationship start_node rel_type end_node start_label end_label =
     run_query (create_relationship_query rel_type start_label end_label)
       (create_relationship_params start_node end_node)"

definition delete_node :: "string \<Rightarrow> props \<Rightarrow> result_row list meth" where
  "delete_node label properties =
     run_query (delete_node_query label properties) (delete_node_params properties)"

subsection \<open>The \<open>with\<close> statement and the usage block\<close>

text \<open>A statement of a \<open>with\<close> body: one method call whose value is discarded.\<close>

datatype stmt =
    SRunQuery string params
  | SShowDatabases
  | SCreateNode string props
  | SCreateRel scalar string scalar string string
  | SDeleteNode string props

definition discard :: "'a exc \<times> conn \<times> world \<Rightarrow> unit exc \<times> conn \<times> world" where
  "discard res = (case res of (Inl e, c, w) \<Rightarrow> (Inl e, c, w) | (Inr _, c, w) \<Rightarrow> (Inr (), c, w))"

fun exec_stmt :: "stmt \<Rightarrow> unit meth" where
  "exec_stmt (SRunQuery q ps) c w = discard (run_query q ps c w)"
| "exec_stmt SShowDatabases c w = discard (show_databases c w)"
| "exec_stmt (SCreateNode l p) c w = discard (create_node l p c w)"
| "exec_stmt (SCreateRel s t e sl el) c w = discard (create_relationship s t e sl el c w)"
| "exec_stmt (SDeleteNode l p) c w = discard (delete_node l p c w)"

fun run_body :: "stmt list \<Rightarrow> unit meth" where
  "run_body [] c w = (Inr (), c, w)"
| "run_body (st # sts) c w =
     (case exec_stmt st c w of
        (Inl e, c', w') \<Rightarrow> (Inl e, c', w')
      | (Inr _, c', w') \<Rightarrow> run_body sts c' w')"

definition with_connection ::
  "string \<Rightarrow> string \<Rightarrow> string \<Rightarrow> stmt list \<Rightarrow> world \<Rightarrow> unit exc \<times> world" where
  "with_connection uri user password body w =
     (case neo4j_init uri user password w of
        (Inl e, w1) \<Rightarrow> (Inl e, w1)
      | (Inr c, w1) \<Rightarrow>
          (case conn_enter c w1 of
             (Inl e, c2, w2) \<Rightarrow> (Inl e, w2)
           | (Inr _, c2, w2) \<Rightarrow>
               (case run_body body c2 w2 of
                  (r, c3, w3) \<Rightarrow>
                    (case conn_exit c3 w3 of
                       (Inl e, c4, w4) \<Rightarrow> (Inl e, w4)
                     | (Inr _, c4, w4) \<Rightarrow> (r, w4)))))"

definition demo_uri :: string where "demo_uri = ''bolt://172.29.0.104:7687''"
definition demo_user :: string where "demo_user = ''neo4j''"
definition demo_password :: string where "demo_password = ''12345678''"

definition usage_body :: "stmt list" where
  "usage_body =
     [SCreateNode ''Person'' [(''name'', VStr ''Alice''), (''age'', VInt 30)],
      SCreateNode ''Person'' [(''name'', VStr ''Bob''), (''age'', VInt 25)],
      SCreateRel (VStr ''Alice'') ''FRIENDS_WITH'' (VStr ''Bob'') ''Person'' ''Person'',
      SDeleteNode ''Person'' [(''name'', VStr ''Alice'')]]"

definition usage_script :: "world \<Rightarrow> unit exc \<times> world" where
  "usage_script w = with_connection demo_uri demo_user demo_password usage_body w"

text \<open>
  A world for running the usage block: an empty database reachable at the demo address
  that accepts the demo credentials.
\<close>

definition demo_world :: world where
  "demo_world =
     \<lparr>w_graph = \<lparr>gnodes = [], grels = [], gnext = 0, gdbs = [''neo4j'', ''system'']\<rparr>,
      w_up = True, w_users = [(''neo4j'', ''12345678'')], w_calls = []\<rparr>"

subsection \<open>Resource discipline of the \<open>with\<close> statement\<close>

text \<open>
  The calls a method makes while the body runs are queries and transaction calls only,
  and the session attribute stays set. So the \<open>with\<close> statement opens the driver and a
  session once, and closes the session and then the driver exactly once, on every path,
  whatever the body raises.
\<close>

fun is_body_call :: "call \<Rightarrow> bool" where
  "is_body_call (CRun _ _) = True"
| "is_body_call CBegin = True"
| "is_body_call (CTxRun _) = True"
| "is_body_call CCommit = True"
| "is_body_call CRollback = True"
| "is_body_call _ = False"

definition body_effect :: "conn \<Rightarrow> world \<Rightarrow> conn \<Rightarrow> world \<Rightarrow> bool" where
  "body_effect c w c' w' \<longleftrightarrow>
     c_session c' \<noteq> None \<and> c_driver c' = c_driver c \<and>
     (\<exists>new. w_calls w' = w_calls w @ new \<and> list_all is_body_call new)"

lemma body_effect_trans:
  assumes "body_effect c w c1 w1" and "body_effect c1 w1 c2 w2"
  shows "body_effect c w c2 w2"
proof -
  from assms(1) obtain n1 where n1: "w_calls w1 = w_calls w @ n1" "list_all is_body_call n1"
    and d1: "c_driver c1 = c_driver c" by (auto simp: body_effect_def)
  from assms(2) obtain n2 where n2: "w_calls w2 = w_calls w1 @ n2" "list_all is_body_call n2"
    and d2: "c_driver c2 = c_driver c1" and s2: "c_session c2 \<noteq> None"
    by (auto simp: body_effect_def)
  from n1 n2 have "w_calls w2 = w_calls w @ (n1 @ n2) \<and> list_all is_body_call (n1 @ n2)" by simp
  with d1 d2 s2 show ?thesis by (auto simp: body_effect_def)
qed

lemma run_query_effect:
  assumes "c_session c \<noteq> None" and "run_query q ps c w = (r, c', w')"
  shows "body_effect c w c' w'"
proof -
  obtain s where s: "c_session c = Some s" using assms(1) by auto
  with assms(2) have "session_run s q ps w = (r, w')" and "c' = c"
    by (auto simp: run_query_def split: prod.splits)
  with s session_run_calls [of s q ps w] show ?thesis by (auto simp: body_effect_def)
qed

lemma show_databases_effect:
  assumes "c_session c \<noteq> None" and "show_databases c w = (r, c', w')"
  shows "body_effect c w c' w'"
proof -
  obtain s where s: "c_session c = Some s" using assms(1) by auto
  obtain rb s1 w1 where b: "begin_transaction s w = (rb, s1, w1)" by (cases "begin_transaction s w")
  have c1: "w_calls w1 = w_calls w @ [CBegin]" using b begin_transaction_calls [of s w] by simp
  show ?thesis
  proof (cases rb)
    case (Inl e)
    with assms(2) s b c1 show ?thesis by (auto simp: show_databases_def body_effect_def)
  next
    case (Inr t)
    obtain rt t2 w2 where tr: "tx_run t ''SHOW DATABASES'' [] w1 = (rt, t2, w2)"
      by (cases "tx_run t ''SHOW DATABASES'' [] w1")
    have c2: "w_calls w2 = w_calls w1 @ [CTxRun ''SHOW DATABASES'']"
    using tr tx_run_calls [of t "''SHOW DATABASES''" "[]" w1] by simp
    have ex: "\<And>ok s3 w3. tx_exit ok t2 s1 w2 = (s3, w3) \<Longrightarrow>
        w_calls w3 = w_calls w @ [CBegin, CTxRun ''SHOW DATABASES'', if ok then CCommit else CRollback]"
      using c1 c2 tx_exit_calls [of _ t2 s1 w2] by (metis append.assoc append_Cons append_Nil snd_conv)
    from assms(2) s b Inr tr obtain ok s3 where
      "tx_exit ok t2 s1 w2 = (s3, w') \<and> c' = c\<lparr>c_session := Some s3\<rparr>"
      by (auto simp: show_databases_def split: sum.splits prod.splits)
    with ex show ?thesis by (fastforce simp: body_effect_def)
  qed
qed

lemma discard_effect:
  "(\<And>r c' w'. m = (r, c', w') \<Longrightarrow> body_effect c w c' w') \<Longrightarrow> discard m = (r, c', w') \<Longrightarrow>
     body_effect c w c' w'"
  by (auto simp: discard_def split: sum.splits prod.splits)

lemma exec_stmt_effect:
  "c_session c \<noteq> None \<Longrightarrow> exec_stmt st c w = (r, c', w') \<Longrightarrow> body_effect c w c' w'"
  by (cases st)
     (auto simp: create_node_def create_relationship_def delete_node_def
      intro: discard_effect run_query_effect show_databases_effect)

lemma body_effect_refl: "c_session c \<noteq> None \<Longrightarrow> body_effect c w c w"
  by (auto simp: body_effect_def)

lemma run_body_effect:
  "c_session c \<noteq> None \<Longrightarrow> run_body body c w = (r, c', w') \<Longrightarrow> body_effect c w c' w'"
proof (induction body arbitrary: c w)
  case Nil
  then show ?case by (auto intro: body_effect_refl)
next
  case (Cons st sts)
  obtain r1 c1 w1 where s1: "exec_stmt st c w = (r1, c1, w1)" by (cases "exec_stmt st c w")
  have e1: "body_effect c w c1 w1" using exec_stmt_effect [OF Cons.prems(1) s1] .
  show ?case
  proof (cases r1)
    case (Inl e)
    with Cons.prems(2) s1 e1 show ?thesis by simp
  next
    case (Inr u)
    with Cons.prems(2) s1 have rb: "run_body sts c1 w1 = (r, c', w')" by simp
    have "c_session c1 \<noteq> None" using e1 by (simp add: body_effect_def)
    from this \<open>run_body sts c1 w1 = (r, c', w')\<close> have "body_effect c1 w1 c' w'" by (rule Cons.IH)
    with e1 show ?thesis by (rule body_effect_trans)
  qed
qed



subsection \<open>Methods on a ready session\<close>

text \<open>
  A connection is ready when its session is open with no explicit transaction, the
  server is reachable and accepts the credentials. Then \<open>run_query\<close> is the server's
  \<open>run_cypher\<close> on the current graph, and the helpers' effects follow from
  \<open>Queries\<close>.
\<close>

definition ready :: "conn \<Rightarrow> world \<Rightarrow> bool" where
  "ready c w \<longleftrightarrow>
     (case c_session c of
        None \<Rightarrow> False
      | Some s \<Rightarrow> s_open s \<and> \<not> s_tx s \<and> w_up w \<and> s_auth s \<in> set (w_users w))"

lemma run_query_ready:
  "ready c w \<Longrightarrow> run_query q ps c w =
     (case run_cypher q ps (w_graph w) of
        Inl e \<Rightarrow> (Inl e, c, log (CRun q ps) w)
      | Inr (g', out) \<Rightarrow> (Inr out, c, (log (CRun q ps) w)\<lparr>w_graph := g'\<rparr>))"
  by (auto simp: ready_def run_query_def session_run_def connect_def log_def Let_def
      split: option.splits sum.split prod.split)

lemma log_graph [simp]: "w_graph (log c w) = w_graph w"
  by (simp add: log_def)

lemma ready_log [simp]: "ready c (log x w) = ready c w"
  by (simp add: ready_def log_def split: option.split)

lemma ready_graph [simp]: "ready c (w\<lparr>w_graph := g\<rparr>) = ready c w"
  by (simp add: ready_def split: option.split)

lemma create_node_ready:
  "ready c w \<Longrightarrow> wf_graph (w_graph w) \<Longrightarrow> is_ident label \<Longrightarrow>
   create_node label properties c w =
     (Inr [[(''a'', RNode (gnext (w_graph w)) \<lparr>nlabels = [label], nprops = properties\<rparr>)]], c,
      (log (CRun (create_node_query label) (create_node_params properties)) w)
        \<lparr>w_graph := snd (new_node [label] properties (w_graph w))\<rparr>)"
  by (simp add: create_node_def run_query_ready run_create_node)

lemma delete_node_ready:
  "ready c w \<Longrightarrow> wf_graph (w_graph w) \<Longrightarrow> is_ident label \<Longrightarrow> properties \<noteq> [] \<Longrightarrow>
   list_all is_ident (map fst properties) \<Longrightarrow>
   delete_node label properties c w =
     (Inr [], c, (log (CRun (delete_node_query label properties) (delete_node_params properties)) w)
        \<lparr>w_graph := detach_delete (matching_ids label properties (w_graph w)) (w_graph w)\<rparr>)"
  by (simp add: delete_node_def run_query_ready run_delete_node)

lemma create_relationship_ready:
  "ready c w \<Longrightarrow> is_ident rel_type \<Longrightarrow> is_ident start_label \<Longrightarrow> is_ident end_label \<Longrightarrow>
   create_relationship start_node rel_type end_node start_label end_label c w =
     (Inr [], c,
      (log (CRun (create_relationship_query rel_type start_label end_label)
                 (create_relationship_params start_node end_node)) w)
        \<lparr>w_graph := fold (\<lambda>(i, j). new_rel rel_type i j)
           (List.product (named_ids start_label start_node (w_graph w))
                         (named_ids end_label end_node (w_graph w))) (w_graph w)\<rparr>)"
  by (simp add: create_relationship_def run_query_ready run_create_relationship)

text \<open>The \<open>SHOW DATABASES\<close> rows all carry a name, so the comprehension raises nothing.\<close>

lemma record_names_dbs:
  "record_names (map (\<lambda>d. [(''name'', RVal (VStr d))]) ds) = Inr (map (\<lambda>d. RVal (VStr d)) ds)"
  by (induction ds) simp_all

text \<open>On a ready connection \<open>show_databases\<close> commits its transaction and returns the names.\<close>

lemma show_databases_ready_eq:
  assumes "ready c w"
  shows "show_databases c w =
    (Inr (map (\<lambda>d. RVal (VStr d)) (gdbs (w_graph w))), c,
     log CCommit (log (CTxRun ''SHOW DATABASES'') (log CBegin w)))"
proof -
  obtain s where s: "c_session c = Some s" and o: "s_open s" "\<not> s_tx s"
    and u: "w_up w" "s_auth s \<in> set (w_users w)"
    using assms by (auto simp: ready_def split: option.splits)
  have s_eq: "s\<lparr>s_tx := False\<rparr> = s" using o(2) by (cases s) simp
  have c_eq: "c\<lparr>c_session := Some s\<rparr> = c" using s by (cases c) simp
  from s o u show ?thesis
    by (simp add: show_databases_def begin_transaction_def connect_def tx_run_def tx_exit_def
        log_def Let_def run_show_databases record_names_dbs s_eq c_eq)
qed

text \<open>
  \<open>create_node\<close> then \<open>delete_node\<close> with the same arguments: the new node goes with
  every node that matched before, and only the counter remembers the creation.
\<close>

lemma create_delete_graph:
  assumes "ready c w" and "wf_graph (w_graph w)" and "is_ident label"
    and "properties \<noteq> []" and "list_all is_ident (map fst properties)"
    and "create_node label properties c w = (r1, c1, w1)"
    and "delete_node label properties c1 w1 = (r2, c2, w2)"
  shows "w_graph w2 = (detach_delete (matching_ids label properties (w_graph w)) (w_graph w))
                        \<lparr>gnext := Suc (gnext (w_graph w))\<rparr> \<and> r2 = Inr []"
proof -
  let ?g = "w_graph w"
  let ?g1 = "snd (new_node [label] properties ?g)"
  let ?ids = "matching_ids label properties ?g"
  have ids: "matching_ids label properties ?g1 = ?ids @ [gnext ?g]"
    by (simp add: matching_ids_def new_node_def has_props_def list_all_iff)
  from assms(6) have c1: "c1 = c" and w1: "w_graph w1 = ?g1" and r: "ready c1 w1"
    using assms(1) by (auto simp: create_node_ready [OF assms(1,2,3)])
  from w1 assms(2) have "wf_graph (w_graph w1)" by (simp add: wf_new_node_graph)
  with assms(7) r have "r2 = Inr [] \<and> w_graph w2 = detach_delete (?ids @ [gnext ?g]) ?g1"
    using w1 ids by (auto simp: delete_node_ready [OF r _ assms(3,4,5)])
  then show ?thesis by (simp add: detach_delete_new_node_extra [OF assms(2)])
qed

subsection \<open>The graph stays well-formed through any body\<close>

lemma run_query_wf:
  "wf_graph (w_graph w) \<Longrightarrow> wf_graph (w_graph (snd (snd (run_query q ps c w))))"
  by (simp add: run_query_def session_run_wf case_prod_beta split: option.split)

lemma show_databases_wf:
  assumes "wf_graph (w_graph w)" and "show_databases c w = (r, c', w')"
  shows "wf_graph (w_graph w')"
proof (cases "c_session c")
  case None
  with assms show ?thesis by (simp add: show_databases_def)
next
  case (Some s)
  obtain rb s1 w1 where b: "begin_transaction s w = (rb, s1, w1)" by (cases "begin_transaction s w")
  have g1: "w_graph w1 = w_graph w" using b begin_transaction_graph [of s w] by simp
  show ?thesis
  proof (cases rb)
    case (Inl e)
    with assms(2) Some b g1 assms(1) show ?thesis by (auto simp: show_databases_def)
  next
    case (Inr t)
    have t: "wf_graph (t_graph t)" using b Inr begin_transaction_tx [of s w t] assms(1) by simp
    obtain rt t2 w2 where tr: "tx_run t ''SHOW DATABASES'' [] w1 = (rt, t2, w2)"
      by (cases "tx_run t ''SHOW DATABASES'' [] w1")
    have g2: "w_graph w2 = w_graph w" using tr g1 tx_run_graph [of t "''SHOW DATABASES''" "[]" w1]
      by simp
    have t2: "wf_graph (t_graph t2)" using tr tx_run_wf [OF t, of "''SHOW DATABASES''" "[]" w1]
      by simp
    from assms(2) Some b Inr tr obtain ok s3 where "tx_exit ok t2 s1 w2 = (s3, w')"
      by (auto simp: show_databases_def split: sum.splits prod.splits)
    with g2 t2 assms(1) tx_exit_graph [of ok t2 s1 w2] show ?thesis by auto
  qed
qed

lemma discard_world [simp]: "snd (snd (discard m)) = snd (snd m)"
  by (simp add: discard_def split: prod.split sum.split)

lemma exec_stmt_wf:
  "wf_graph (w_graph w) \<Longrightarrow> wf_graph (w_graph (snd (snd (exec_stmt st c w))))"
proof (cases st)
  case SShowDatabases
  moreover assume "wf_graph (w_graph w)"
  ultimately show ?thesis
    using show_databases_wf [of w c "fst (show_databases c w)" "fst (snd (show_databases c w))"
        "snd (snd (show_databases c w))"] by simp
qed (simp_all add: run_query_wf create_node_def create_relationship_def delete_node_def)


lemma run_body_wf:
  "wf_graph (w_graph w) \<Longrightarrow> wf_graph (w_graph (snd (snd (run_body body c w))))"
proof (induction body arbitrary: c w)
  case Nil
  then show ?case by simp
next
  case (Cons st sts)
  obtain r1 c1 w1 where s1: "exec_stmt st c w = (r1, c1, w1)" by (cases "exec_stmt st c w")
  have "wf_graph (w_graph w1)" using exec_stmt_wf [OF Cons.prems, of st c] s1 by simp
  with s1 Cons.IH show ?case by (cases r1) simp_all
qed

definition opened_conn :: "string \<Rightarrow> string \<Rightarrow> string \<Rightarrow> conn" where
  "opened_conn uri user password =
     \<lparr>c_driver = \<lparr>d_uri = uri, d_auth = (user, password), d_open = True\<rparr>,
      c_session = Some \<lparr>s_auth = (user, password), s_open = True, s_tx = False\<rparr>\<rparr>"

lemma with_connection_valid:
  "valid_uri uri \<Longrightarrow> with_connection uri user password body w =
     (case run_body body (opened_conn uri user password) (log CSession (log (CDriver uri) w)) of
        (r, c3, w3) \<Rightarrow>
          (case c_session c3 of
             None \<Rightarrow> (Inl AttributeError, w3)
           | Some s \<Rightarrow> (r, log CCloseDriver (log CCloseSession w3))))"
  by (simp add: with_connection_def neo4j_init_def graphdb_driver_def conn_enter_def
      driver_session_def conn_exit_def session_close_def driver_close_def opened_conn_def Let_def
      split: prod.split option.split)

lemma with_connection_invalid:
  "\<not> valid_uri uri \<Longrightarrow>
     with_connection uri user password body w = (Inl ConfigurationError, log (CDriver uri) w)"
  by (simp add: with_connection_def neo4j_init_def graphdb_driver_def Let_def)

subsection \<open>The driver calls of a \<open>with\<close> block, statement by statement\<close>

text \<open>
  The calls one statement of a body is allowed to make, as its method is written: one
  \<open>session.run\<close> of the helper's query text and parameters, or, for
  \<open>show_databases\<close>, \<open>session.begin_transaction()\<close> followed, when it did not raise, by
  one \<open>tx.run\<close> and the commit or the rollback of the transaction scope.
\<close>

fun stmt_trace :: "stmt \<Rightarrow> call list \<Rightarrow> bool" where
  "stmt_trace (SRunQuery q ps) cs \<longleftrightarrow> cs = [CRun q ps]"
| "stmt_trace SShowDatabases cs \<longleftrightarrow>
     cs \<in> set [[CBegin], [CBegin, CTxRun ''SHOW DATABASES'', CCommit],
               [CBegin, CTxRun ''SHOW DATABASES'', CRollback]]"
| "stmt_trace (SCreateNode l p) cs \<longleftrightarrow> cs = [CRun (create_node_query l) (create_node_params p)]"
| "stmt_trace (SCreateRel s t e sl el) cs \<longleftrightarrow>
     cs = [CRun (create_relationship_query t sl el) (create_relationship_params s e)]"
| "stmt_trace (SDeleteNode l p) cs \<longleftrightarrow> cs = [CRun (delete_node_query l p) (delete_node_params p)]"

lemma discard_conn [simp]: "fst (snd (discard m)) = fst (snd m)"
  by (simp add: discard_def split: prod.split sum.split)

lemma run_query_calls:
  "c_session c \<noteq> None \<Longrightarrow>
   w_calls (snd (snd (run_query q ps c w))) = w_calls w @ [CRun q ps] \<and>
   fst (snd (run_query q ps c w)) = c"
  by (auto simp: run_query_def session_run_calls case_prod_beta)

lemma show_databases_calls:
  assumes "c_session c \<noteq> None"
  shows "\<exists>cs. stmt_trace SShowDatabases cs \<and> w_calls (snd (snd (show_databases c w))) = w_calls w @ cs"
    and "c_session (fst (snd (show_databases c w))) \<noteq> None"
  using assms
  by (auto simp: show_databases_def begin_transaction_def tx_run_def tx_exit_def log_def Let_def
      split: sum.split prod.split option.split)

lemma exec_stmt_calls:
  assumes "c_session c \<noteq> None"
  shows "\<exists>cs. stmt_trace st cs \<and> w_calls (snd (snd (exec_stmt st c w))) = w_calls w @ cs"
    and "c_session (fst (snd (exec_stmt st c w))) \<noteq> None"
  using assms show_databases_calls [OF assms, of w]
  by (cases st; simp add: run_query_calls create_node_def create_relationship_def delete_node_def)+

lemma run_body_calls:
  assumes "c_session c \<noteq> None" and "run_body body c w = (r, c', w')"
  shows "c_session c' \<noteq> None \<and>
    (\<exists>k css. k \<le> length body \<and> (r = Inr () \<longrightarrow> k = length body) \<and> (r \<noteq> Inr () \<longrightarrow> 0 < k) \<and>
       list_all2 stmt_trace (take k body) css \<and> w_calls w' = w_calls w @ concat css)"
  using assms
proof (induction body arbitrary: c w)
  case Nil
  then show ?case by (intro conjI exI [of _ 0] exI [of _ "[]"]) auto
next
  case (Cons st sts)
  obtain r1 c1 w1 where s1: "exec_stmt st c w = (r1, c1, w1)" by (cases "exec_stmt st c w")
  from exec_stmt_calls [OF Cons.prems(1), of st w] s1 obtain cs where
    cs: "stmt_trace st cs" "w_calls w1 = w_calls w @ cs" and c1: "c_session c1 \<noteq> None"
    by auto
  show ?case
  proof (cases r1)
    case (Inl e)
    with s1 Cons.prems(2) have "r = Inl e" "c' = c1" "w' = w1" by auto
    with cs c1 show ?thesis by (intro conjI exI [of _ 1] exI [of _ "[cs]"]) auto
  next
    case (Inr u)
    with s1 Cons.prems(2) have "run_body sts c1 w1 = (r, c', w')" by simp
    from Cons.IH [OF c1 this] obtain k css where
      c': "c_session c' \<noteq> None" and k: "k \<le> length sts" "r = Inr () \<longrightarrow> k = length sts"
      and tr: "list_all2 stmt_trace (take k sts) css" and w': "w_calls w' = w_calls w1 @ concat css"
      by blast
    with cs show ?thesis by (intro conjI exI [of _ "Suc k"] exI [of _ "cs # css"]) auto
  qed
qed

text \<open>
  C22 (exact driver calls). A \<open>with\<close> block over a well-formed URI makes the calls of
  its body's statements in order, each statement exactly the calls of its method and no
  call twice (no retry, no second run): a prefix of the body runs (all of it when the
  block returns normally, at least the raising statement otherwise), between opening the
  driver and the session and closing them.
\<close>

theorem with_connection_trace:
  assumes "valid_uri uri" and "with_connection uri user password body w = (r, w')"
  shows "\<exists>k css. k \<le> length body \<and> (r = Inr () \<longrightarrow> k = length body) \<and> (r \<noteq> Inr () \<longrightarrow> 0 < k) \<and>
           list_all2 stmt_trace (take k body) css \<and>
           w_calls w' = w_calls w @ [CDriver uri, CSession] @ concat css @ [CCloseSession, CCloseDriver]"
proof -
  let ?w2 = "log CSession (log (CDriver uri) w)"
  let ?c2 = "opened_conn uri user password"
  obtain r3 c3 w3 where b: "run_body body ?c2 ?w2 = (r3, c3, w3)" by (cases "run_body body ?c2 ?w2")
  have o: "c_session ?c2 \<noteq> None" by (simp add: opened_conn_def)
  from run_body_calls [OF o b] obtain k css where
    c3: "c_session c3 \<noteq> None" and k: "k \<le> length body" "r3 = Inr () \<longrightarrow> k = length body"
      "r3 \<noteq> Inr () \<longrightarrow> 0 < k"
    and tr: "list_all2 stmt_trace (take k body) css" and w3: "w_calls w3 = w_calls ?w2 @ concat css"
    by blast
  from c3 assms b have "r = r3" "w' = log CCloseDriver (log CCloseSession w3)"
    by (auto simp: with_connection_valid)
  with k tr w3 show ?thesis by (intro exI [of _ k] exI [of _ css]) (auto simp: log_def)
qed

theorem with_connection_trace_witness:
  "\<exists>k css. k \<le> length usage_body \<and> (fst (usage_script demo_world) = Inr () \<longrightarrow> k = length usage_body) \<and>
     (fst (usage_script demo_world) \<noteq> Inr () \<longrightarrow> 0 < k) \<and>
     list_all2 stmt_trace (take k usage_body) css \<and>
     w_calls (snd (usage_script demo_world)) =
       w_calls demo_world @ [CDriver demo_uri, CSession] @ concat css @ [CCloseSession, CCloseDriver]"
proof -
  have h: "valid_uri demo_uri" by (simp add: valid_uri_def uri_schemes_def demo_uri_def)
  show ?thesis
    using with_connection_trace [OF h, of demo_user demo_password usage_body demo_world
      "fst (usage_script demo_world)" "snd (usage_script demo_world)"]
    by (simp add: usage_script_def)
qed

end
