(* ===== verification/Lifecycle.thy ===== *)
theory Lifecycle
  imports Connection
begin

text \<open>
  The life of one \<open>Neo4jConnection\<close> object under any client, not only the \<open>with\<close>
  statement: after the constructor, a client may call \<open>__enter__\<close>, \<open>__exit__\<close> and
  the query methods in any order, catching what they raise. The states such a client can
  produce are the inductive set \<open>reachable\<close>; \<open>conn_inv\<close> is their invariant, proved by
  rule induction, and \<open>lstep\<close> is the abstract lifecycle (created, opened, closed) that
  every method call refines through the abstraction \<open>phase_of\<close>.
\<close>

subsection \<open>Method calls in any order\<close>

datatype meth_call = MEnter | MExit | MStmt stmt

fun conn_call :: "meth_call \<Rightarrow> unit meth" where
  "conn_call MEnter c w = conn_enter c w"
| "conn_call MExit c w = conn_exit c w"
| "conn_call (MStmt st) c w = exec_stmt st c w"

text \<open>A client that catches every exception and goes on with its next call.\<close>

fun run_calls :: "meth_call list \<Rightarrow> unit exc list meth" where
  "run_calls [] c w = (Inr [], c, w)"
| "run_calls (m # ms) c w =
     (case conn_call m c w of
        (r, c1, w1) \<Rightarrow>
          (case run_calls ms c1 w1 of
             (Inr rs, c2, w2) \<Rightarrow> (Inr (r # rs), c2, w2)
           | (Inl e, c2, w2) \<Rightarrow> (Inl e, c2, w2)))"

declare run_calls.simps(2) [simp del]

inductive reachable :: "conn \<Rightarrow> bool" where
  init: "fst (neo4j_init uri user password w) = Inr c \<Longrightarrow> reachable c"
| step: "reachable c \<Longrightarrow> reachable (fst (snd (conn_call m c w)))"

subsection \<open>The abstract lifecycle\<close>

datatype phase = Created | Opened | Closed

definition phase_of :: "conn \<Rightarrow> phase" where
  "phase_of c =
     (case c_session c of None \<Rightarrow> Created | Some s \<Rightarrow> if s_open s then Opened else Closed)"

text \<open>
  What each method promises in each phase, and whether it may return normally
  (\<open>True\<close>) or raises (\<open>False\<close>). A query in the opened phase may do either.
\<close>

inductive lstep :: "phase \<Rightarrow> meth_call \<Rightarrow> bool \<Rightarrow> phase \<Rightarrow> bool" where
  enter_created: "lstep Created MEnter True Opened"
| enter_opened: "lstep Opened MEnter True Opened"
| enter_closed: "lstep Closed MEnter False Closed"
| stmt_created: "lstep Created (MStmt st) False Created"
| stmt_opened: "lstep Opened (MStmt st) ok Opened"
| stmt_closed: "lstep Closed (MStmt st) False Closed"
| exit_created: "lstep Created MExit False Created"
| exit_opened: "lstep Opened MExit True Closed"
| exit_closed: "lstep Closed MExit True Closed"

inductive_cases lstep_createdE: "lstep Created m ok p"
inductive_cases lstep_closedE: "lstep Closed m ok p"

text \<open>
  The invariant: the driver is open while no session was opened, and afterwards exactly
  while the session is; the session is never left inside an explicit transaction.
\<close>

definition conn_inv :: "conn \<Rightarrow> bool" where
  "conn_inv c \<longleftrightarrow>
     (case c_session c of
        None \<Rightarrow> d_open (c_driver c)
      | Some s \<Rightarrow> \<not> s_tx s \<and> s_open s = d_open (c_driver c))"

subsection \<open>Each method's effect on the object\<close>

lemma conn_enter_conn:
  "fst (snd (conn_enter c w)) =
     (if d_open (c_driver c)
      then c\<lparr>c_session := Some \<lparr>s_auth = d_auth (c_driver c), s_open = True, s_tx = False\<rparr>\<rparr> else c)"
  by (simp add: conn_enter_def driver_session_def Let_def)

lemma conn_enter_result:
  "fst (conn_enter c w) = (if d_open (c_driver c) then Inr () else Inl DriverClosed)"
  by (simp add: conn_enter_def driver_session_def Let_def)

lemma conn_exit_conn:
  "fst (snd (conn_exit c w)) =
     (case c_session c of
        None \<Rightarrow> c
      | Some s \<Rightarrow> c\<lparr>c_session := Some (s\<lparr>s_open := False, s_tx := False\<rparr>),
                   c_driver := (c_driver c)\<lparr>d_open := False\<rparr>\<rparr>)"
  by (simp add: conn_exit_def session_close_def driver_close_def split: option.split)

lemma conn_exit_result:
  "fst (conn_exit c w) = (case c_session c of None \<Rightarrow> Inl AttributeError | Some s \<Rightarrow> Inr ())"
  by (simp add: conn_exit_def session_close_def driver_close_def split: option.split)

lemma run_query_conn: "fst (snd (run_query q ps c w)) = c"
  by (simp add: run_query_def case_prod_beta split: option.split)

lemma show_databases_conn:
  "c_session c = Some s \<Longrightarrow>
   fst (snd (show_databases c w)) =
     c\<lparr>c_session := Some (if s_open s \<and> \<not> s_tx s \<and> connect s (log CBegin w) = Inr ()
                          then s\<lparr>s_tx := False\<rparr> else s)\<rparr>"
  by (auto simp: show_databases_def begin_transaction_def tx_exit_def Let_def
      split: sum.split prod.split)

lemma exec_stmt_no_session:
  "c_session c = None \<Longrightarrow> exec_stmt st c w = (Inl AttributeError, c, w)"
  by (cases st) (simp_all add: discard_def run_query_def show_databases_def create_node_def
      create_relationship_def delete_node_def)

lemma exec_stmt_closed:
  "c_session c = Some s \<Longrightarrow> \<not> s_open s \<Longrightarrow> fst (exec_stmt st c w) = Inl SessionClosed"
  by (cases st) (simp_all add: discard_def run_query_def session_run_def show_databases_def
      begin_transaction_def create_node_def create_relationship_def delete_node_def Let_def)

lemma exec_stmt_conn:
  "c_session c = Some s \<Longrightarrow> \<not> s_tx s \<Longrightarrow> fst (snd (exec_stmt st c w)) = c"
proof (cases st)
  case SShowDatabases
  moreover assume "c_session c = Some s" and "\<not> s_tx s"
  moreover have "s\<lparr>s_tx := False\<rparr> = s" using \<open>\<not> s_tx s\<close> by (cases s) simp
  moreover have "c\<lparr>c_session := Some s\<rparr> = c" using \<open>c_session c = Some s\<close> by (cases c) simp
  ultimately show ?thesis by (simp add: discard_conn show_databases_conn)
qed (simp_all add: discard_conn run_query_conn create_node_def create_relationship_def
      delete_node_def)

lemma neo4j_init_conn:
  "fst (neo4j_init uri user password w) = Inr c \<Longrightarrow>
     c = \<lparr>c_driver = \<lparr>d_uri = uri, d_auth = (user, password), d_open = True\<rparr>, c_session = None\<rparr>"
  by (simp add: neo4j_init_def graphdb_driver_def Let_def split: if_splits)

subsection \<open>Invariant, refinement and release\<close>

lemma conn_call_inv:
  assumes "conn_inv c"
  shows "conn_inv (fst (snd (conn_call m c w)))"
proof (cases m)
  case MEnter
  with assms show ?thesis by (simp add: conn_enter_conn conn_inv_def split: option.splits)
next
  case MExit
  with assms show ?thesis by (simp add: conn_exit_conn conn_inv_def split: option.splits)
next
  case (MStmt st)
  with assms show ?thesis
    by (auto simp: exec_stmt_no_session exec_stmt_conn conn_inv_def split: option.splits)
qed

lemma reachable_conn_inv: "reachable c \<Longrightarrow> conn_inv c"
proof (induction rule: reachable.induct)
  case (init uri user password w c)
  then show ?case by (simp add: neo4j_init_conn [OF init] conn_inv_def)
next
  case (step c m w)
  from step.IH show ?case by (rule conn_call_inv)
qed

lemma conn_call_phase:
  assumes "conn_inv c"
  shows "lstep (phase_of c) m (fst (conn_call m c w) = Inr ()) (phase_of (fst (snd (conn_call m c w))))"
proof (cases "c_session c")
  case None
  then have d: "d_open (c_driver c)" using assms by (simp add: conn_inv_def)
  show ?thesis
    using None d
    by (cases m) (simp_all add: phase_of_def conn_enter_conn conn_enter_result conn_exit_conn
        conn_exit_result exec_stmt_no_session lstep.intros)
next
  case (Some s)
  then have t: "\<not> s_tx s" and d: "s_open s = d_open (c_driver c)" using assms
    by (simp_all add: conn_inv_def)
  show ?thesis
  proof (cases m)
    case (MStmt st)
    with Some t show ?thesis
      by (cases "s_open s")
         (simp_all add: phase_of_def exec_stmt_conn exec_stmt_closed lstep.intros)
  qed (use Some d in \<open>simp_all add: phase_of_def conn_enter_conn conn_enter_result conn_exit_conn
        conn_exit_result lstep.intros\<close>)
qed

lemma run_calls_conn_Cons:
  "fst (snd (run_calls (m # ms) c w)) =
     fst (snd (run_calls ms (fst (snd (conn_call m c w))) (snd (snd (conn_call m c w)))))"
  by (simp add: run_calls.simps(2) case_prod_beta split: sum.split)

lemma run_calls_calls_Cons:
  "w_calls (snd (snd (run_calls (m # ms) c w))) =
     w_calls (snd (snd (run_calls ms (fst (snd (conn_call m c w))) (snd (snd (conn_call m c w))))))"
  by (simp add: run_calls.simps(2) case_prod_beta split: sum.split)

lemma conn_enter_calls: "w_calls (snd (snd (conn_enter c w))) = w_calls w @ [CSession]"
  by (simp add: conn_enter_def driver_session_def Let_def log_def)

lemma conn_exit_calls:
  "c_session c \<noteq> None \<Longrightarrow>
   w_calls (snd (snd (conn_exit c w))) = w_calls w @ [CCloseSession, CCloseDriver]"
  by (auto simp: conn_exit_def session_close_def driver_close_def log_def)

text \<open>
  C18 (invariant). For every client and every order of calls, the connection's state
  satisfies: before \<open>__enter__\<close> the driver is open; afterwards the driver is open
  exactly while the session is; and the session is never left inside an explicit
  transaction, since \<open>show_databases\<close> commits or rolls back on every path.
\<close>

theorem reachable_invariant:
  assumes "reachable c"
  shows "case c_session c of
           None \<Rightarrow> d_open (c_driver c)
         | Some s \<Rightarrow> \<not> s_tx s \<and> (s_open s \<longleftrightarrow> d_open (c_driver c))"
  using reachable_conn_inv [OF assms] by (simp add: conn_inv_def)

theorem reachable_invariant_witness:
  "let c0 = \<lparr>c_driver = \<lparr>d_uri = demo_uri, d_auth = (demo_user, demo_password), d_open = True\<rparr>,
             c_session = None\<rparr>;
       c1 = fst (snd (conn_call MEnter c0 demo_world));
       c2 = fst (snd (conn_call (MStmt SShowDatabases) c1 demo_world))
   in \<not> s_tx (the (c_session c2)) \<and> d_open (c_driver c2)"
proof -
  let ?c0 = "\<lparr>c_driver = \<lparr>d_uri = demo_uri, d_auth = (demo_user, demo_password), d_open = True\<rparr>,
             c_session = None\<rparr>"
  let ?c1 = "fst (snd (conn_call MEnter ?c0 demo_world))"
  let ?c2 = "fst (snd (conn_call (MStmt SShowDatabases) ?c1 demo_world))"
  have "fst (neo4j_init demo_uri demo_user demo_password demo_world) = Inr ?c0"
    by (simp add: neo4j_init_def graphdb_driver_def valid_uri_def uri_schemes_def demo_uri_def)
  then have "reachable ?c2" by (intro reachable.step reachable.init)
  moreover have "?c2 = ?c1" by (simp del: exec_stmt.simps add: conn_enter_conn exec_stmt_conn)
  ultimately show ?thesis
    using reachable_invariant [of ?c2] by (simp add: Let_def conn_enter_conn)
qed

text \<open>
  C19 (refinement of the lifecycle). Every method call on a connection any client can
  produce is a step of the abstract lifecycle \<open>lstep\<close>: \<open>__enter__\<close> opens (also when
  already open) and raises once closed; \<open>__exit__\<close> raises before \<open>__enter__\<close> and
  closes otherwise; a query raises before \<open>__enter__\<close> and after \<open>__exit__\<close> and keeps
  the phase.
\<close>

theorem conn_call_refines:
  assumes "reachable c" and "conn_call m c w = (r, c', w')"
  shows "lstep (phase_of c) m (r = Inr ()) (phase_of c')"
  using conn_call_phase [OF reachable_conn_inv [OF assms(1)], of m w] assms(2) by simp

theorem conn_call_refines_witness:
  "let c0 = \<lparr>c_driver = \<lparr>d_uri = demo_uri, d_auth = (demo_user, demo_password), d_open = True\<rparr>,
             c_session = None\<rparr>;
       x = conn_call MExit c0 demo_world
   in lstep Created MExit (fst x = Inr ()) (phase_of (fst (snd x)))"
proof -
  let ?c0 = "\<lparr>c_driver = \<lparr>d_uri = demo_uri, d_auth = (demo_user, demo_password), d_open = True\<rparr>,
             c_session = None\<rparr>"
  let ?x = "conn_call MExit ?c0 demo_world"
  have "fst (neo4j_init demo_uri demo_user demo_password demo_world) = Inr ?c0"
    by (simp add: neo4j_init_def graphdb_driver_def valid_uri_def uri_schemes_def demo_uri_def)
  then have r: "reachable ?c0" by (rule reachable.init)
  have "phase_of ?c0 = Created" by (simp add: phase_of_def)
  with conn_call_refines [OF r, of MExit demo_world "fst ?x" "fst (snd ?x)" "snd (snd ?x)"]
  show ?thesis by (simp add: Let_def)
qed

text \<open>
  C20 (release is always possible). From every state a client can produce, at most two
  calls (\<open>__enter__\<close> then \<open>__exit__\<close>) reach the closed phase with the driver
  closed. A connection that was never entered can only be released by opening a session
  first: \<open>__exit__\<close> alone raises.
\<close>

theorem reachable_release:
  assumes "reachable c"
  shows "\<exists>ms. length ms \<le> 2 \<and> phase_of (fst (snd (run_calls ms c w))) = Closed \<and>
              \<not> d_open (c_driver (fst (snd (run_calls ms c w))))"
proof -
  have i: "conn_inv c" using reachable_conn_inv [OF assms] .
  show ?thesis
  proof (cases "c_session c")
    case None
    with i have "d_open (c_driver c)" by (simp add: conn_inv_def)
    with None show ?thesis
      by (intro exI [of _ "[MEnter, MExit]"])
         (simp add: run_calls_conn_Cons conn_enter_conn conn_exit_conn phase_of_def)
  next
    case (Some s)
    show ?thesis
    proof (cases "s_open s")
      case True
      with Some show ?thesis
        by (intro exI [of _ "[MExit]"]) (simp add: run_calls_conn_Cons conn_exit_conn phase_of_def)
    next
      case False
      with Some i show ?thesis
        by (intro exI [of _ "[]"]) (simp add: phase_of_def conn_inv_def)
    qed
  qed
qed

theorem reachable_release_witness:
  "\<exists>ms. length ms \<le> 2 \<and>
     phase_of (fst (snd (run_calls ms (opened_conn demo_uri demo_user demo_password) demo_world))) =
       Closed"
proof -
  let ?c0 = "\<lparr>c_driver = \<lparr>d_uri = demo_uri, d_auth = (demo_user, demo_password), d_open = True\<rparr>,
             c_session = None\<rparr>"
  have "fst (neo4j_init demo_uri demo_user demo_password demo_world) = Inr ?c0"
    by (simp add: neo4j_init_def graphdb_driver_def valid_uri_def uri_schemes_def demo_uri_def)
  then have "reachable (fst (snd (conn_call MEnter ?c0 demo_world)))"
    by (intro reachable.step reachable.init)
  moreover have "fst (snd (conn_call MEnter ?c0 demo_world)) = opened_conn demo_uri demo_user demo_password"
    by (simp add: conn_enter_conn opened_conn_def)
  ultimately have "reachable (opened_conn demo_uri demo_user demo_password)" by simp
  from reachable_release [OF this, of demo_world] show ?thesis by blast
qed

text \<open>
  C21 (re-entering leaks a session). \<open>__enter__\<close> overwrites \<open>self._session\<close>
  without closing the session it held: entering twice and exiting once opens two
  sessions and closes one.
\<close>

theorem reenter_leaks_session:
  assumes "fst (neo4j_init uri user password w0) = Inr c"
  shows "w_calls (snd (snd (run_calls [MEnter, MEnter, MExit] c w))) =
           w_calls w @ [CSession, CSession, CCloseSession, CCloseDriver]"
proof -
  have c: "d_open (c_driver c)" using neo4j_init_conn [OF assms] by simp
  then show ?thesis
    by (simp add: run_calls_calls_Cons run_calls_conn_Cons conn_enter_conn
        conn_enter_calls conn_exit_calls)
qed

theorem reenter_leaks_session_witness:
  "w_calls (snd (snd (run_calls [MEnter, MEnter, MExit]
     \<lparr>c_driver = \<lparr>d_uri = demo_uri, d_auth = (demo_user, demo_password), d_open = True\<rparr>,
      c_session = None\<rparr> demo_world))) = [CSession, CSession, CCloseSession, CCloseDriver]"
proof -
  have "fst (neo4j_init demo_uri demo_user demo_password demo_world) =
      Inr \<lparr>c_driver = \<lparr>d_uri = demo_uri, d_auth = (demo_user, demo_password), d_open = True\<rparr>,
           c_session = None\<rparr>"
    by (simp add: neo4j_init_def graphdb_driver_def valid_uri_def uri_schemes_def demo_uri_def)
  from reenter_leaks_session [OF this] show ?thesis by (simp add: demo_world_def)
qed

end
