(* ===== verification/Sharing.thy ===== *)
theory Sharing
  imports Connection
begin

text \<open>
  Several \<open>Neo4jConnection\<close> objects on one server. Each object owns its driver and
  session; the graph is the server's and every helper query is its own auto-commit
  transaction. So a helper call's outcome depends on the server state only, not on which
  ready connection makes it, and any interleaving of calls through two connections is the
  same sequence of calls through one of them.
\<close>

text \<open>
  A client holding two connections \<open>a\<close> and \<open>b\<close>: each step names the connection it uses
  (\<open>True\<close> for \<open>a\<close>) and the statement; exceptions are caught and the client goes on.
\<close>

fun run_two :: "(bool \<times> stmt) list \<Rightarrow> conn \<Rightarrow> conn \<Rightarrow> world \<Rightarrow> unit exc list \<times> world" where
  "run_two [] a b w = ([], w)"
| "run_two ((on_a, st) # ps) a b w =
     (case exec_stmt st (if on_a then a else b) w of
        (r, c', w') \<Rightarrow>
          (case run_two ps (if on_a then c' else a) (if on_a then b else c') w' of
             (rs, w'') \<Rightarrow> (r # rs, w'')))"

text \<open>Two connections opened with the demo credentials, to two addresses of the same server.\<close>

definition demo_conn_a :: conn where
  "demo_conn_a = opened_conn demo_uri demo_user demo_password"

definition demo_conn_b :: conn where
  "demo_conn_b = opened_conn ''neo4j://172.29.0.104:7687'' demo_user demo_password"

subsection \<open>A call does not depend on the connection that makes it\<close>

lemma exec_stmt_ready_indep:
  assumes "ready a w" and "ready b w"
  shows "exec_stmt st a w = (fst (exec_stmt st b w), a, snd (snd (exec_stmt st b w)))"
  using assms
  by (cases st) (simp_all add: run_query_ready show_databases_ready_eq discard_def create_node_def
      create_relationship_def delete_node_def split: sum.split prod.split)

lemma exec_stmt_keeps_ready: "ready c w \<Longrightarrow> ready c (snd (snd (exec_stmt st c w)))"
  by (cases st) (simp_all add: run_query_ready show_databases_ready_eq discard_def create_node_def
      create_relationship_def delete_node_def split: sum.split prod.split)

text \<open>
  C26 (interleaving two connections). With two ready connections on one server, any
  interleaving of helper calls through them returns the same results and leaves the same
  server (graph and driver-call log) as the same calls made through the first one only:
  the connections share the database and nothing else.
\<close>

theorem run_two_one_connection:
  assumes "ready a w" and "ready b w"
  shows "run_two ps a b w = run_two (map (\<lambda>(_, st). (True, st)) ps) a b w"
  using assms
proof (induction ps arbitrary: w)
  case Nil
  then show ?case by simp
next
  case (Cons p ps)
  obtain on_a st where p: "p = (on_a, st)" by fastforce
  obtain r1 w1 where ea: "exec_stmt st a w = (r1, a, w1)"
    using exec_stmt_ready_indep [OF Cons.prems(1) Cons.prems(1), of st] by simp
  have eb: "exec_stmt st b w = (r1, b, w1)"
    using exec_stmt_ready_indep [OF Cons.prems(2) Cons.prems(1), of st] ea by simp
  have r: "ready a w1" "ready b w1"
    using exec_stmt_keeps_ready [OF Cons.prems(1), of st] exec_stmt_keeps_ready [OF Cons.prems(2), of st]
      ea eb by simp_all
  have "run_two ps a b w1 = run_two (map (\<lambda>(_, st). (True, st)) ps) a b w1"
    using Cons.IH [OF r] .
  then show ?case using p ea eb by (cases on_a) (simp_all split: prod.split)
qed

theorem run_two_one_connection_witness:
  "run_two [(False, SCreateNode ''Person'' [(''name'', VStr ''Alice'')]),
            (True, SDeleteNode ''Person'' [(''name'', VStr ''Alice'')])]
      demo_conn_a demo_conn_b demo_world =
   run_two [(True, SCreateNode ''Person'' [(''name'', VStr ''Alice'')]),
            (True, SDeleteNode ''Person'' [(''name'', VStr ''Alice'')])]
      demo_conn_a demo_conn_b demo_world"
proof -
  have "ready demo_conn_a demo_world" "ready demo_conn_b demo_world"
    by (simp_all add: ready_def demo_conn_a_def demo_conn_b_def opened_conn_def demo_world_def demo_user_def
        demo_password_def)
  from run_two_one_connection [OF this, of "[(False, SCreateNode ''Person'' [(''name'', VStr ''Alice'')]),
      (True, SDeleteNode ''Person'' [(''name'', VStr ''Alice'')])]"]
  show ?thesis by simp
qed

end
