(* ===== verification/Usage.thy ===== *)
theory Usage
  imports Connection
begin

text \<open>
  The usage block of \<open>neo4j_dev.py\<close> (lines 53--63) on any database reachable with the
  given credentials: the effect of its four statements, one after the other, on a ready
  connection. The first two create Alice and Bob; the third relates the new Alice to
  every Bob; the fourth detach-deletes every Alice. The root theory states the resulting
  claims for the whole \<open>with\<close> block.
\<close>

definition alice :: props where
  "alice = [(''name'', VStr ''Alice''), (''age'', VInt 30)]"

definition bob :: props where
  "bob = [(''name'', VStr ''Bob''), (''age'', VInt 25)]"

lemma person_ident [simp]: "is_ident ''Person''"
  by (simp add: is_ident_start_def is_ident_char_def)

lemma friends_ident [simp]: "is_ident ''FRIENDS_WITH''"
  by (simp add: is_ident_start_def is_ident_char_def)

lemma usage_body_alt:
  "usage_body =
     [SCreateNode ''Person'' alice, SCreateNode ''Person'' bob,
      SCreateRel (VStr ''Alice'') ''FRIENDS_WITH'' (VStr ''Bob'') ''Person'' ''Person'',
      SDeleteNode ''Person'' [(''name'', VStr ''Alice'')]]"
  by (simp add: usage_body_def alice_def bob_def)

lemma run_body_append:
  "run_body (xs @ ys) c w =
     (case run_body xs c w of (Inl e, c', w') \<Rightarrow> (Inl e, c', w') | (Inr _, c', w') \<Rightarrow> run_body ys c' w')"
  by (induction xs arbitrary: c w) (auto split: prod.split sum.split)

lemma matching_ids_name: "matching_ids label [(''name'', v)] g = named_ids label v g"
  by (simp add: matching_ids_def named_ids_def has_props_def)

lemma ready_opened:
  "w_up w \<Longrightarrow> (user, password) \<in> set (w_users w) \<Longrightarrow> ready (opened_conn uri user password) w"
  by (simp add: ready_def opened_conn_def)

text \<open>The graph after the two \<open>create_node\<close> statements.\<close>

definition two_created :: "graph \<Rightarrow> graph" where
  "two_created g = snd (new_node [''Person''] bob (snd (new_node [''Person''] alice g)))"

lemma named_two_created:
  assumes "named_ids ''Person'' (VStr ''Alice'') g = []"
  shows "named_ids ''Person'' (VStr ''Alice'') (two_created g) = [gnext g]"
    and "named_ids ''Person'' (VStr ''Bob'') (two_created g) =
           named_ids ''Person'' (VStr ''Bob'') g @ [Suc (gnext g)]"
  using assms by (simp_all add: two_created_def new_node_def named_ids_def alice_def bob_def)

lemma usage_first_three:
  assumes "ready c w" and "wf_graph (w_graph w)"
  shows "run_body (take 3 usage_body) c w =
    (Inr (), c,
     w\<lparr>w_graph := fold (\<lambda>(i, j). new_rel ''FRIENDS_WITH'' i j)
                     (List.product (named_ids ''Person'' (VStr ''Alice'') (two_created (w_graph w)))
                                   (named_ids ''Person'' (VStr ''Bob'') (two_created (w_graph w))))
                     (two_created (w_graph w)),
       w_calls := w_calls w @
         [CRun (create_node_query ''Person'') (create_node_params alice),
          CRun (create_node_query ''Person'') (create_node_params bob),
          CRun (create_relationship_query ''FRIENDS_WITH'' ''Person'' ''Person'')
               (create_relationship_params (VStr ''Alice'') (VStr ''Bob''))]\<rparr>)"
proof -
  let ?g = "w_graph w"
  let ?g1 = "snd (new_node [''Person''] alice ?g)"
  let ?w1 = "(log (CRun (create_node_query ''Person'') (create_node_params alice)) w)\<lparr>w_graph := ?g1\<rparr>"
  have s1: "exec_stmt (SCreateNode ''Person'' alice) c w = (Inr (), c, ?w1)"
    using create_node_ready [OF assms person_ident] by (simp add: discard_def)
  have r1: "ready c ?w1" and wf1: "wf_graph (w_graph ?w1)"
    using assms by (simp_all add: wf_new_node_graph)
  let ?w2 = "(log (CRun (create_node_query ''Person'') (create_node_params bob)) ?w1)
               \<lparr>w_graph := two_created ?g\<rparr>"
  have s2: "exec_stmt (SCreateNode ''Person'' bob) c ?w1 = (Inr (), c, ?w2)"
    using create_node_ready [OF r1 wf1 person_ident] by (simp add: discard_def two_created_def)
  have r2: "ready c ?w2" using r1 by simp
  let ?ps = "List.product (named_ids ''Person'' (VStr ''Alice'') (two_created ?g))
                          (named_ids ''Person'' (VStr ''Bob'') (two_created ?g))"
  have s3: "exec_stmt (SCreateRel (VStr ''Alice'') ''FRIENDS_WITH'' (VStr ''Bob'') ''Person'' ''Person'') c ?w2 =
    (Inr (), c, (log (CRun (create_relationship_query ''FRIENDS_WITH'' ''Person'' ''Person'')
                        (create_relationship_params (VStr ''Alice'') (VStr ''Bob''))) ?w2)
                \<lparr>w_graph := fold (\<lambda>(i, j). new_rel ''FRIENDS_WITH'' i j) ?ps (two_created ?g)\<rparr>)"
    using create_relationship_ready [OF r2 friends_ident person_ident person_ident]
    by (simp add: discard_def)
  have "run_body (take 3 usage_body) c w =
    (Inr (), c, (log (CRun (create_relationship_query ''FRIENDS_WITH'' ''Person'' ''Person'')
                        (create_relationship_params (VStr ''Alice'') (VStr ''Bob''))) ?w2)
                \<lparr>w_graph := fold (\<lambda>(i, j). new_rel ''FRIENDS_WITH'' i j) ?ps (two_created ?g)\<rparr>)"
    by (simp del: exec_stmt.simps add: usage_body_alt s1 s2 s3)
  then show ?thesis by (simp add: log_def)
qed

lemma ready_calls_graph [simp]: "ready c (w\<lparr>w_graph := g, w_calls := cs\<rparr>) = ready c w"
  by (simp add: ready_def split: option.split)

lemma gnodes_new_rel [simp]: "gnodes (new_rel t i j g) = gnodes g"
  by (simp add: new_rel_def)

lemma gnodes_fold_new_rel [simp]: "gnodes (fold (\<lambda>(i, j). new_rel t i j) ps g) = gnodes g"
  by (simp add: fold_new_rel)

text \<open>
  The detach-delete of the new Alice removes her relationships, whatever Bobs they reach,
  and leaves the database as it was plus the new Bob.
\<close>

lemma detach_delete_usage:
  assumes "wf_graph g" and "\<And>i j. (i, j) \<in> set ps \<Longrightarrow> i = gnext g"
  shows "detach_delete [gnext g] (fold (\<lambda>(i, j). new_rel t i j) ps (two_created g)) =
    g\<lparr>gnodes := gnodes g @ [(Suc (gnext g), \<lparr>nlabels = [''Person''], nprops = bob\<rparr>)],
      gnext := Suc (Suc (gnext g)) + length ps\<rparr>"
proof -
  let ?n = "gnext g"
  have n: "filter (\<lambda>(i, _). i \<noteq> ?n) (gnodes g) = gnodes g"
    using wf_node_fresh [OF assms(1)] by (auto simp: filter_id_conv)
  have r: "filter (\<lambda>(_, e). rsrc e \<noteq> ?n \<and> rdst e \<noteq> ?n) (grels g) = grels g"
    using wf_rel_ends_fresh [OF assms(1)] by (auto simp: filter_id_conv)
  have new: "filter (\<lambda>(_, e). rsrc e \<noteq> ?n \<and> rdst e \<noteq> ?n)
      (map (\<lambda>((i, j), k). (k, \<lparr>rtype = t, rsrc = i, rdst = j\<rparr>))
        (zip ps [Suc (Suc ?n)..<Suc (Suc ?n) + length ps])) = []"
    using assms(2) by (auto simp: filter_empty_conv dest!: set_zip_leftD)
  show ?thesis
    using n r new
    by (simp del: upt_Suc add: detach_delete_def fold_new_rel two_created_def new_node_def)
qed

lemma usage_run_body:
  assumes "ready c w" and "wf_graph (w_graph w)"
    and "named_ids ''Person'' (VStr ''Alice'') (w_graph w) = []"
  shows "run_body usage_body c w =
    (Inr (), c,
     w\<lparr>w_graph := (w_graph w)\<lparr>gnodes := gnodes (w_graph w) @
                                 [(Suc (gnext (w_graph w)), \<lparr>nlabels = [''Person''], nprops = bob\<rparr>)],
                               gnext := gnext (w_graph w) + 3 +
                                 length (named_ids ''Person'' (VStr ''Bob'') (w_graph w))\<rparr>,
       w_calls := w_calls w @
         [CRun (create_node_query ''Person'') (create_node_params alice),
          CRun (create_node_query ''Person'') (create_node_params bob),
          CRun (create_relationship_query ''FRIENDS_WITH'' ''Person'' ''Person'')
               (create_relationship_params (VStr ''Alice'') (VStr ''Bob'')),
          CRun (delete_node_query ''Person'' [(''name'', VStr ''Alice'')])
               (delete_node_params [(''name'', VStr ''Alice'')])]\<rparr>)"
proof -
  let ?g = "w_graph w"
  let ?ps = "List.product (named_ids ''Person'' (VStr ''Alice'') (two_created ?g))
                          (named_ids ''Person'' (VStr ''Bob'') (two_created ?g))"
  obtain w3 where b3: "run_body (take 3 usage_body) c w = (Inr (), c, w3)"
    and g3: "w_graph w3 = fold (\<lambda>(i, j). new_rel ''FRIENDS_WITH'' i j) ?ps (two_created ?g)"
    and r3: "ready c w3"
    using usage_first_three [OF assms(1,2)] assms(1) by simp
  have wf3: "wf_graph (w_graph w3)"
    using run_body_wf [OF assms(2), of "take 3 usage_body" c] b3 by simp
  have ps: "?ps = List.product [gnext ?g] (named_ids ''Person'' (VStr ''Bob'') ?g @ [Suc (gnext ?g)])"
    using named_two_created [OF assms(3)] by simp
  have m3: "matching_ids ''Person'' [(''name'', VStr ''Alice'')] (w_graph w3) = [gnext ?g]"
    using named_two_created [OF assms(3)] g3
    by (simp add: matching_ids_name named_ids_def)
  have alice: "[(''name'', VStr ''Alice'')] \<noteq> []" "list_all is_ident (map fst [(''name'', VStr ''Alice'')])"
    by (simp_all add: is_ident_start_def is_ident_char_def)
  have split: "usage_body = take 3 usage_body @ [SDeleteNode ''Person'' [(''name'', VStr ''Alice'')]]"
    by (simp add: usage_body_alt)
  have fst_ps: "\<And>i j. (i, j) \<in> set ?ps \<Longrightarrow> i = gnext ?g" unfolding ps by auto
  have "detach_delete [gnext ?g] (w_graph w3) =
      ?g\<lparr>gnodes := gnodes ?g @ [(Suc (gnext ?g), \<lparr>nlabels = [''Person''], nprops = bob\<rparr>)],
         gnext := Suc (Suc (gnext ?g)) + length ?ps\<rparr>"
    unfolding g3 by (rule detach_delete_usage [OF assms(2) fst_ps])
  moreover have "length ?ps = Suc (length (named_ids ''Person'' (VStr ''Bob'') ?g))"
    unfolding ps by simp
  ultimately have dd: "detach_delete [gnext ?g] (w_graph w3) =
      ?g\<lparr>gnodes := gnodes ?g @ [(Suc (gnext ?g), \<lparr>nlabels = [''Person''], nprops = bob\<rparr>)],
         gnext := gnext ?g + 3 + length (named_ids ''Person'' (VStr ''Bob'') ?g)\<rparr>"
    by simp
  have "run_body usage_body c w =
    (Inr (), c, (log (CRun (delete_node_query ''Person'' [(''name'', VStr ''Alice'')])
                        (delete_node_params [(''name'', VStr ''Alice'')])) w3)
      \<lparr>w_graph := detach_delete [gnext ?g] (w_graph w3)\<rparr>)"
    by (subst split) (simp add: run_body_append b3 delete_node_ready [OF r3 wf3 person_ident alice] m3
        discard_def)
  with dd show ?thesis
    using usage_first_three [OF assms(1,2)] b3 by (auto simp: log_def)
qed

end
