(* ===== verification/Spec2Isabelle.thy ===== *)
theory Spec2Isabelle
  imports Lifecycle Sharing Usage
begin

text \<open>
  \<^bold>\<open>A verification development of \<open>src/docs/sections/neo4j/code/neo4j_dev.py\<close>.\<close>

  \<^bold>\<open>The program.\<close> One Python file: the class \<open>Neo4jConnection\<close> (lines 7--50),
  which wraps a driver of the \<open>neo4j\<close> package and a session, and a module-level
  \<open>with\<close> block (lines 53--63) that creates two \<open>Person\<close> nodes, relates them and
  deletes one. The class builds query text with f-strings and \<open>str.join\<close> and hands
  it, with a parameter dict, to \<open>session.run\<close>; \<open>show_databases\<close> runs in an explicit
  transaction scope. Everything past \<open>session.run\<close> (the driver, the server, the query
  language) is outside the repository; it is modelled here from the spec, only as far as
  the program's queries need it, so that the theorems can say what the program's calls do.

  \<^bold>\<open>Theories, from the bottom.\<close>
  \<^item> \<open>Prelude\<close>: scalar values and Python dicts as association lists, the exceptions the
    program can raise (\<open>error\<close>, results \<open>'a exc = error + 'a\<close>), Python's
    \<open>str.join\<close> (\<open>py_join\<close>), the lexer's character classes.
  \<^item> \<open>Cypher\<close> (server, from the spec): the lexer \<open>lex\<close> and the recursive-descent parser
    \<open>parse\<close> of the query fragment the program emits (\<open>CREATE\<close>, \<open>MATCH ... WHERE\<close>,
    \<open>DETACH DELETE\<close>, \<open>RETURN\<close>, \<open>SHOW DATABASES\<close>), keywords case-insensitive,
    names plain or back-quoted.
  \<^item> \<open>Graph_Store\<close> (server, from the spec): the property graph (\<open>graph\<close>: nodes and
    relationships with identities from one counter), its invariant \<open>wf_graph\<close> (distinct
    identities below the counter, no dangling relationship), and \<open>run_cypher\<close>: parse,
    static check, parameter check, then row-table execution of the clauses. Its abstract
    view \<open>abs_graph\<close> (two finite maps) and the contract \<open>a_delete\<close> of a
    detach-delete, which \<open>delete_node\<close> implements.
  \<^item> \<open>Driver\<close> (driver, from the spec): \<open>GraphDatabase.driver\<close>, \<open>driver.session()\<close>,
    \<open>session.run\<close>, \<open>session.begin_transaction()\<close>, \<open>tx.run\<close>, the transaction scope's
    commit or rollback, \<open>close()\<close>. The \<open>world\<close> is the server (graph, reachability,
    accepted credentials) and the log \<open>w_calls\<close> of every driver call in order.
  \<^item> \<open>Queries\<close> (code, lines 29--50): the exact query texts and parameter dicts of
    \<open>create_node\<close>, \<open>create_relationship\<close>, \<open>delete_node\<close>, and what the server makes of
    them: the parse of each text and its effect on the graph (\<open>run_create_node\<close>,
    \<open>run_delete_node\<close>, \<open>run_create_relationship\<close>), and the texts it rejects or reads
    differently (empty dict, non-identifier keys, a label with a colon).
  \<^item> \<open>Connection\<close> (code, lines 4--63): the object as the record \<open>conn\<close> of its two
    attributes; \<open>neo4j_init\<close>, \<open>conn_enter\<close>, \<open>conn_exit\<close>, \<open>run_query\<close>,
    \<open>show_databases\<close>, \<open>create_node\<close>, \<open>create_relationship\<close>, \<open>delete_node\<close>, each of
    type \<open>conn \<Rightarrow> world \<Rightarrow> 'a exc \<times> conn \<times> world\<close>; the \<open>with\<close> statement
    (\<open>with_connection\<close>: \<open>__exit__\<close> on every path after \<open>__enter__\<close>, the body's
    exception re-raised) and the usage block (\<open>usage_script\<close>).
  \<^item> \<open>Lifecycle\<close>: any client calling the methods in any order (\<open>conn_call\<close>,
    \<open>run_calls\<close>), the inductive set \<open>reachable\<close> of the objects it can produce, the
    invariant \<open>conn_inv\<close> proved by rule induction, and the abstract lifecycle \<open>lstep\<close>
    (created, opened, closed) that every method call refines through \<open>phase_of\<close>.
  \<^item> \<open>Sharing\<close>: two connection objects on one server (\<open>run_two\<close>): a helper call does
    not depend on which ready connection makes it, so interleavings reduce to one
    connection.
  \<^item> \<open>Usage\<close>: the four statements of the usage block run one after the other on a
    ready connection over any database (\<open>usage_first_three\<close>, \<open>usage_run_body\<close>).
  \<^item> this theory: demo data and the properties that span the components.

  \<^bold>\<open>What is proved.\<close> Resource release of the \<open>with\<close> statement (C1) and the
  exact driver calls of a \<open>with\<close> block, statement by statement, with no call repeated
  (C22); detach-delete (C2) and its refinement of the abstract detach-delete on the maps
  of nodes and relationships (C23); the degenerate and the multiple match of
  \<open>create_relationship\<close> (C3, C7); parameter binding of values (C4) and the parameter
  dicts binding exactly what the texts refer to (C24), against interpolation of labels
  and keys (C10, C11); the usage block on any database without an Alice, end to end and
  after its first three statements (C5, C6); the create/delete round trip (C8) and P1
  characterised: it restores what a client sees exactly when no node matched before
  (C25); the error behaviour of every method (C9, C13--C17); \<open>show_databases\<close> on a
  ready and on an unreachable server (C12, C27); the lifecycle invariant, its refinement
  and release (C18--C20); the session leaked by a second \<open>__enter__\<close> (C21);
  interleaving two connections is the same as using one (C26).

  \<^bold>\<open>Bounds and termination.\<close> The program has no loop of its own beyond list
  comprehensions and \<open>str.join\<close> over finite lists, modelled by structural recursion. The
  server's lexer and parsers are \<open>function\<close>s whose termination is proved by the length
  of the remaining input (the \<open>shorter\<close> lemmas in \<open>Cypher\<close>); \<open>p_clauses_fuel_enough\<close>
  makes the bound explicit with a fuel variant of the clause loop: any fuel above the
  number of tokens is enough. Termination is thus a property of the modelled server only:
  the program itself has no loop whose termination is in question, so no claim is about
  it. No fuel occurs elsewhere. Python integers are unbounded and
  are \<open>int\<close>; identities are \<open>nat\<close>, so no value wraps.

  \<^bold>\<open>Not modelled.\<close> The Bolt protocol, TLS, routing, the connection pool and retries
  (their only visible outcomes, an unreachable server and rejected credentials, are the
  errors of \<open>connect\<close>); the lazy result stream (results are materialised when the
  query runs: when a returned \<open>Result\<close> stops being readable after \<open>session.close()\<close>
  depends on the driver version, and the program never reads one); \<open>session.close()\<close>
  or \<open>driver.close()\<close> raising (both always succeed in the model, so the missing
  \<open>try\<close>/\<open>finally\<close> in \<open>__exit__\<close> is not exercised); the server's
  reuse of the identities of deleted nodes (identities come from a counter, so no claim
  relies on reuse or its absence beyond freshness at creation); clients of the server
  other than the connection objects of this file (the world changes only through their
  calls; \<open>Sharing\<close> covers several such objects); Cypher beyond the fragment above (other text is a syntax error in the model);
  the line \<open>from neo4j import GraphDatabase\<close>, which only names the library.
\<close>

definition demo_conn :: conn where
  "demo_conn =
     \<lparr>c_driver = \<lparr>d_uri = demo_uri, d_auth = (demo_user, demo_password), d_open = True\<rparr>,
      c_session = Some \<lparr>s_auth = (demo_user, demo_password), s_open = True, s_tx = False\<rparr>\<rparr>"

text \<open>A graph with two nodes named Alice and one named Bob, all labelled \<open>Person\<close>.\<close>

definition two_alices :: graph where
  "two_alices =
     \<lparr>gnodes = [(0, \<lparr>nlabels = [''Person''], nprops = alice\<rparr>),
                 (1, \<lparr>nlabels = [''Person''], nprops = alice\<rparr>),
                 (2, \<lparr>nlabels = [''Person''], nprops = bob\<rparr>)],
      grels = [], gnext = 3, gdbs = [''neo4j'']\<rparr>"

text \<open>A property value full of query syntax.\<close>

definition hostile :: props where
  "hostile = [(''name'', VStr ''x}) DETACH DELETE a //'')]"

lemmas demo_defs = demo_conn_def demo_world_def demo_uri_def demo_user_def demo_password_def
  alice_def bob_def two_alices_def hostile_def

lemma demo_ready [simp]: "ready demo_conn demo_world"
  by (simp add: ready_def demo_defs)

lemma demo_wf [simp]: "wf_graph (w_graph demo_world)"
  by (simp add: wf_graph_def demo_defs node_ids_def)

lemma demo_ready_graph [simp]: "ready demo_conn (demo_world\<lparr>w_graph := g\<rparr>)"
  by (simp add: ready_def demo_defs)

text \<open>
  C2 (detach-delete, spec P3). On a ready connection and a well-formed graph,
  \<open>delete_node(label, properties)\<close> returns no records, keeps exactly the nodes that do
  not carry the label with all the given property values, keeps exactly the relationships
  that touch none of the deleted nodes, and leaves a well-formed graph: no relationship is
  left dangling.
\<close>

theorem delete_node_detaches:
  assumes "ready c w" and "wf_graph (w_graph w)" and "is_ident label"
    and "properties \<noteq> []" and "list_all is_ident (map fst properties)"
    and "delete_node label properties c w = (r, c', w')"
  shows "r = Inr [] \<and>
    (\<forall>(i, n) \<in> set (gnodes (w_graph w')).
        (i, n) \<in> set (gnodes (w_graph w)) \<and> \<not> (label \<in> set (nlabels n) \<and> has_props properties n)) \<and>
    (\<forall>(i, n) \<in> set (gnodes (w_graph w)).
        \<not> (label \<in> set (nlabels n) \<and> has_props properties n) \<longrightarrow> (i, n) \<in> set (gnodes (w_graph w'))) \<and>
    (\<forall>(k, e) \<in> set (grels (w_graph w')).
        (k, e) \<in> set (grels (w_graph w)) \<and>
        rsrc e \<notin> set (matching_ids label properties (w_graph w)) \<and>
        rdst e \<notin> set (matching_ids label properties (w_graph w))) \<and>
    (\<forall>(k, e) \<in> set (grels (w_graph w)).
        rsrc e \<notin> set (matching_ids label properties (w_graph w)) \<and>
        rdst e \<notin> set (matching_ids label properties (w_graph w)) \<longrightarrow>
        (k, e) \<in> set (grels (w_graph w'))) \<and>
    wf_graph (w_graph w')"
proof -
  let ?g = "w_graph w"
  let ?ids = "matching_ids label properties ?g"
  have g': "w_graph w' = detach_delete ?ids ?g" and r: "r = Inr []"
    using assms(6) by (auto simp: delete_node_ready [OF assms(1-5)])
  show ?thesis
    using r g' matching_ids_iff [OF assms(2)] detach_delete_wf [OF assms(2), of ?ids]
    by (auto simp: detach_delete_def)
qed


theorem delete_node_detaches_witness:
  "let y = delete_node ''Person'' alice demo_conn demo_world in
   fst y = Inr [] \<and> wf_graph (w_graph (snd (snd y)))"
proof -
  let ?y = "delete_node ''Person'' alice demo_conn demo_world"
  have h: "alice \<noteq> []" "list_all is_ident (map fst alice)"
    by (simp_all add: alice_def is_ident_start_def is_ident_char_def)
  show ?thesis
    using delete_node_detaches [OF demo_ready demo_wf person_ident h,
        of "fst ?y" "fst (snd ?y)" "snd (snd ?y)"]
    by (simp add: Let_def)
qed

text \<open>
  C3 (degenerate match, spec P4). When no node of the start label has the start name, or
  none of the end label has the end name, \<open>create_relationship\<close> raises nothing, returns
  no records and leaves the graph unchanged.
\<close>

theorem create_relationship_no_match:
  assumes "ready c w" and "is_ident rel_type" and "is_ident start_label" and "is_ident end_label"
    and "named_ids start_label start_node (w_graph w) = [] \<or> named_ids end_label end_node (w_graph w) = []"
    and "create_relationship start_node rel_type end_node start_label end_label c w = (r, c', w')"
  shows "r = Inr [] \<and> w_graph w' = w_graph w"
  using assms(5,6) by (auto simp: create_relationship_ready [OF assms(1-4)])

theorem create_relationship_no_match_witness:
  "let y = create_relationship (VStr ''Alice'') ''FRIENDS_WITH'' (VStr ''Bob'') ''Person'' ''Person''
             demo_conn demo_world
   in fst y = Inr [] \<and> w_graph (snd (snd y)) = w_graph demo_world"
proof -
  let ?y = "create_relationship (VStr ''Alice'') ''FRIENDS_WITH'' (VStr ''Bob'') ''Person'' ''Person''
             demo_conn demo_world"
  have h: "named_ids ''Person'' (VStr ''Alice'') (w_graph demo_world) = [] \<or>
           named_ids ''Person'' (VStr ''Bob'') (w_graph demo_world) = []"
    by (simp add: named_ids_def demo_defs)
  show ?thesis
    using create_relationship_no_match [OF demo_ready friends_ident person_ident person_ident h,
        of "fst ?y" "fst (snd ?y)" "snd (snd ?y)"]
    by (simp add: Let_def)
qed

text \<open>
  C4 (parameter binding, spec P5). For every property dict, whatever its values contain,
  \<open>create_node\<close> sends the same query text (it depends on the label only) with the dict
  as the \<open>$properties\<close> parameter, and the server stores exactly those values on one new
  node, which it returns.
\<close>

theorem create_node_binds_values:
  assumes "ready c w" and "wf_graph (w_graph w)" and "is_ident label"
    and "create_node label properties c w = (r, c', w')"
  shows "gnodes (w_graph w') =
           gnodes (w_graph w) @ [(gnext (w_graph w), \<lparr>nlabels = [label], nprops = properties\<rparr>)] \<and>
         grels (w_graph w') = grels (w_graph w) \<and>
         r = Inr [[(''a'', RNode (gnext (w_graph w)) \<lparr>nlabels = [label], nprops = properties\<rparr>)]] \<and>
         w_calls w' = w_calls w @ [CRun (create_node_query label) [(''properties'', PMap properties)]]"
  using assms(4) by (auto simp: create_node_ready [OF assms(1-3)] new_node_def log_def
      create_node_params_def)

theorem create_node_binds_values_witness:
  "let y = create_node ''Person'' hostile demo_conn demo_world in
   gnodes (w_graph (snd (snd y))) = [(0, \<lparr>nlabels = [''Person''], nprops = hostile\<rparr>)]"
proof -
  let ?y = "create_node ''Person'' hostile demo_conn demo_world"
  show ?thesis
    using create_node_binds_values [OF demo_ready demo_wf person_ident,
        of hostile "fst ?y" "fst (snd ?y)" "snd (snd ?y)"]
    by (simp add: Let_def demo_world_def)
qed

text \<open>
  C5 (usage scenario). Run on any database reachable with the given credentials, with a
  well-formed graph and no \<open>Person\<close> named Alice, the module's usage block succeeds and
  leaves the database as it was plus the new Bob: the new Alice goes with the
  detach-delete together with every \<open>FRIENDS_WITH\<close> relationship the block created
  (one per Bob, old or new), and only the identity counter remembers them. The block
  makes exactly the driver calls of its four statements between opening and closing.
\<close>

theorem usage_scenario:
  assumes "valid_uri uri" and "w_up w" and "(user, password) \<in> set (w_users w)"
    and "wf_graph (w_graph w)" and "named_ids ''Person'' (VStr ''Alice'') (w_graph w) = []"
  shows "with_connection uri user password usage_body w =
    (Inr (),
     w\<lparr>w_graph := (w_graph w)\<lparr>gnodes := gnodes (w_graph w) @
                                 [(Suc (gnext (w_graph w)), \<lparr>nlabels = [''Person''], nprops = bob\<rparr>)],
                               gnext := gnext (w_graph w) + 3 +
                                 length (named_ids ''Person'' (VStr ''Bob'') (w_graph w))\<rparr>,
       w_calls := w_calls w @
         [CDriver uri, CSession,
          CRun (create_node_query ''Person'') (create_node_params alice),
          CRun (create_node_query ''Person'') (create_node_params bob),
          CRun (create_relationship_query ''FRIENDS_WITH'' ''Person'' ''Person'')
               (create_relationship_params (VStr ''Alice'') (VStr ''Bob'')),
          CRun (delete_node_query ''Person'' [(''name'', VStr ''Alice'')])
               (delete_node_params [(''name'', VStr ''Alice'')]),
          CCloseSession, CCloseDriver]\<rparr>)"
proof -
  let ?c0 = "opened_conn uri user password"
  let ?w0 = "log CSession (log (CDriver uri) w)"
  have r: "ready ?c0 ?w0" using assms(2,3) by (simp add: ready_opened)
  have "run_body usage_body ?c0 ?w0 =
    (Inr (), ?c0,
     ?w0\<lparr>w_graph := (w_graph w)\<lparr>gnodes := gnodes (w_graph w) @
                                 [(Suc (gnext (w_graph w)), \<lparr>nlabels = [''Person''], nprops = bob\<rparr>)],
                               gnext := gnext (w_graph w) + 3 +
                                 length (named_ids ''Person'' (VStr ''Bob'') (w_graph w))\<rparr>,
       w_calls := w_calls ?w0 @
         [CRun (create_node_query ''Person'') (create_node_params alice),
          CRun (create_node_query ''Person'') (create_node_params bob),
          CRun (create_relationship_query ''FRIENDS_WITH'' ''Person'' ''Person'')
               (create_relationship_params (VStr ''Alice'') (VStr ''Bob'')),
          CRun (delete_node_query ''Person'' [(''name'', VStr ''Alice'')])
               (delete_node_params [(''name'', VStr ''Alice'')])]\<rparr>)"
    using usage_run_body [OF r] assms(4,5) by simp
  then show ?thesis
    by (simp add: with_connection_valid [OF assms(1)] opened_conn_def log_def)
qed

theorem usage_scenario_witness:
  "usage_script demo_world =
     (Inr (), demo_world
        \<lparr>w_graph := \<lparr>gnodes = [(1, \<lparr>nlabels = [''Person''], nprops = bob\<rparr>)],
                      grels = [], gnext = 3, gdbs = [''neo4j'', ''system'']\<rparr>,
         w_calls := [CDriver demo_uri, CSession,
                     CRun (create_node_query ''Person'') (create_node_params alice),
                     CRun (create_node_query ''Person'') (create_node_params bob),
                     CRun (create_relationship_query ''FRIENDS_WITH'' ''Person'' ''Person'')
                          (create_relationship_params (VStr ''Alice'') (VStr ''Bob'')),
                     CRun (delete_node_query ''Person'' [(''name'', VStr ''Alice'')])
                          (delete_node_params [(''name'', VStr ''Alice'')]),
                     CCloseSession, CCloseDriver]\<rparr>)"
proof -
  have h: "valid_uri demo_uri" "w_up demo_world" "(demo_user, demo_password) \<in> set (w_users demo_world)"
    "named_ids ''Person'' (VStr ''Alice'') (w_graph demo_world) = []"
    by (simp_all add: valid_uri_def uri_schemes_def demo_defs named_ids_def)
  show ?thesis
    using usage_scenario [OF h(1-3) demo_wf h(4)]
    by (simp add: usage_script_def named_ids_def demo_world_def)
qed

text \<open>
  C6 (spec scenario). On a database as in C5 that also holds no \<open>Person\<close> named Bob,
  the first three statements of the usage block add Alice and Bob under the next two
  identities and exactly one \<open>FRIENDS_WITH\<close> relationship, from the new Alice to the new
  Bob, under the third, and change nothing else.
\<close>

theorem usage_friendship:
  assumes "valid_uri uri" and "w_up w" and "(user, password) \<in> set (w_users w)"
    and "wf_graph (w_graph w)" and "named_ids ''Person'' (VStr ''Alice'') (w_graph w) = []"
    and "named_ids ''Person'' (VStr ''Bob'') (w_graph w) = []"
  shows "fst (with_connection uri user password (take 3 usage_body) w) = Inr () \<and>
    w_graph (snd (with_connection uri user password (take 3 usage_body) w)) =
      (w_graph w)\<lparr>gnodes := gnodes (w_graph w) @
                     [(gnext (w_graph w), \<lparr>nlabels = [''Person''], nprops = alice\<rparr>),
                      (Suc (gnext (w_graph w)), \<lparr>nlabels = [''Person''], nprops = bob\<rparr>)],
                   grels := grels (w_graph w) @
                     [(Suc (Suc (gnext (w_graph w))),
                       \<lparr>rtype = ''FRIENDS_WITH'', rsrc = gnext (w_graph w), rdst = Suc (gnext (w_graph w))\<rparr>)],
                   gnext := gnext (w_graph w) + 3\<rparr>"
proof -
  let ?c0 = "opened_conn uri user password"
  let ?w0 = "log CSession (log (CDriver uri) w)"
  have r: "ready ?c0 ?w0" using assms(2,3) by (simp add: ready_opened)
  have n: "named_ids ''Person'' (VStr ''Alice'') (two_created (w_graph w)) = [gnext (w_graph w)]"
    "named_ids ''Person'' (VStr ''Bob'') (two_created (w_graph w)) = [Suc (gnext (w_graph w))]"
    using named_two_created [OF assms(5)] assms(6) by simp_all
  have f: "fold (\<lambda>(i, j). new_rel ''FRIENDS_WITH'' i j)
      (List.product (named_ids ''Person'' (VStr ''Alice'') (two_created (w_graph w)))
                    (named_ids ''Person'' (VStr ''Bob'') (two_created (w_graph w))))
      (two_created (w_graph w)) =
      (w_graph w)\<lparr>gnodes := gnodes (w_graph w) @
                     [(gnext (w_graph w), \<lparr>nlabels = [''Person''], nprops = alice\<rparr>),
                      (Suc (gnext (w_graph w)), \<lparr>nlabels = [''Person''], nprops = bob\<rparr>)],
                   grels := grels (w_graph w) @
                     [(Suc (Suc (gnext (w_graph w))),
                       \<lparr>rtype = ''FRIENDS_WITH'', rsrc = gnext (w_graph w), rdst = Suc (gnext (w_graph w))\<rparr>)],
                   gnext := gnext (w_graph w) + 3\<rparr>"
    unfolding n by (simp add: two_created_def new_node_def new_rel_def)
  show ?thesis
    using usage_first_three [OF r] assms(4)
    by (simp add: with_connection_valid [OF assms(1)] opened_conn_def f)
qed

theorem usage_friendship_witness:
  "grels (w_graph (snd (with_connection demo_uri demo_user demo_password (take 3 usage_body) demo_world))) =
     [(2, \<lparr>rtype = ''FRIENDS_WITH'', rsrc = 0, rdst = 1\<rparr>)]"
proof -
  have h: "valid_uri demo_uri" "w_up demo_world" "(demo_user, demo_password) \<in> set (w_users demo_world)"
    "named_ids ''Person'' (VStr ''Alice'') (w_graph demo_world) = []"
    "named_ids ''Person'' (VStr ''Bob'') (w_graph demo_world) = []"
    by (simp_all add: valid_uri_def uri_schemes_def demo_defs named_ids_def)
  show ?thesis
    using usage_friendship [OF h(1-3) demo_wf h(4,5)] by (simp add: demo_world_def)
qed

text \<open>
  C7 (multi-match, spec open question). \<open>create_relationship\<close> creates one relationship
  for every pair of a node matching the start label and name and a node matching the end
  label and name, in scan order, and changes no node: with several matches it creates the
  product of their numbers.
\<close>

theorem create_relationship_pairs:
  assumes "ready c w" and "is_ident rel_type" and "is_ident start_label" and "is_ident end_label"
    and "create_relationship start_node rel_type end_node start_label end_label c w = (r, c', w')"
  shows "let g = w_graph w;
             ps = List.product (named_ids start_label start_node g) (named_ids end_label end_node g)
         in r = Inr [] \<and> gnodes (w_graph w') = gnodes g \<and>
            grels (w_graph w') = grels g @ map (\<lambda>((i, j), k). (k, \<lparr>rtype = rel_type, rsrc = i, rdst = j\<rparr>))
                                              (zip ps [gnext g..<gnext g + length ps]) \<and>
            length (grels (w_graph w')) = length (grels g) +
              length (named_ids start_label start_node g) * length (named_ids end_label end_node g)"
  using assms(5) by (auto simp: create_relationship_ready [OF assms(1-4)] fold_new_rel Let_def)

theorem create_relationship_pairs_witness:
  "let y = create_relationship (VStr ''Alice'') ''FRIENDS_WITH'' (VStr ''Bob'') ''Person'' ''Person''
             demo_conn (demo_world\<lparr>w_graph := two_alices\<rparr>)
   in grels (w_graph (snd (snd y))) =
        [(3, \<lparr>rtype = ''FRIENDS_WITH'', rsrc = 0, rdst = 2\<rparr>),
         (4, \<lparr>rtype = ''FRIENDS_WITH'', rsrc = 1, rdst = 2\<rparr>)]"
proof -
  let ?y = "create_relationship (VStr ''Alice'') ''FRIENDS_WITH'' (VStr ''Bob'') ''Person'' ''Person''
             demo_conn (demo_world\<lparr>w_graph := two_alices\<rparr>)"
  show ?thesis
    using create_relationship_pairs [OF demo_ready_graph [of two_alices] friends_ident person_ident
        person_ident,
        of "VStr ''Alice''" "VStr ''Bob''" "fst ?y" "fst (snd ?y)" "snd (snd ?y)"]
    by (simp add: Let_def named_ids_def demo_defs)
qed

text \<open>
  C8 (round trip, spec P1). On a ready connection and a well-formed graph,
  \<open>create_node(label, properties)\<close> followed by \<open>delete_node(label, properties)\<close>
  returns no records and deletes the new node together with every node that already
  carried the label and the property values, and every relationship touching one of them;
  only the identity counter remembers the creation. With no such node before, the graph
  is restored up to the counter.
\<close>

theorem create_delete_general:
  assumes "ready c w" and "wf_graph (w_graph w)" and "is_ident label"
    and "properties \<noteq> []" and "list_all is_ident (map fst properties)"
    and "create_node label properties c w = (r1, c1, w1)"
    and "delete_node label properties c1 w1 = (r2, c2, w2)"
  shows "w_graph w2 = (detach_delete (matching_ids label properties (w_graph w)) (w_graph w))
                        \<lparr>gnext := Suc (gnext (w_graph w))\<rparr> \<and> r2 = Inr []"
  using create_delete_graph [OF assms] .

theorem create_delete_general_witness:
  "let w = demo_world\<lparr>w_graph := two_alices\<rparr>;
       x = create_node ''Person'' alice demo_conn w;
       y = delete_node ''Person'' alice (fst (snd x)) (snd (snd x))
   in gnodes (w_graph (snd (snd y))) = [(2, \<lparr>nlabels = [''Person''], nprops = bob\<rparr>)] \<and>
      gnext (w_graph (snd (snd y))) = 4"
proof -
  let ?w = "demo_world\<lparr>w_graph := two_alices\<rparr>"
  let ?x = "create_node ''Person'' alice demo_conn ?w"
  let ?y = "delete_node ''Person'' alice (fst (snd ?x)) (snd (snd ?x))"
  have h: "wf_graph (w_graph ?w)" "alice \<noteq> []" "list_all is_ident (map fst alice)"
    by (simp_all add: alice_def bob_def two_alices_def wf_graph_def node_ids_def
        is_ident_start_def is_ident_char_def)
  show ?thesis
    using create_delete_general [OF demo_ready_graph h(1) person_ident h(2,3),
        of "fst ?x" "fst (snd ?x)" "snd (snd ?x)" "fst ?y" "fst (snd ?y)" "snd (snd ?y)"]
    by (simp add: Let_def matching_ids_def has_props_def detach_delete_def two_alices_def
        alice_def bob_def)
qed

text \<open>
  C9 (empty property dict, spec gap). \<open>delete_node(label, {})\<close> builds
  \<open>MATCH (a:label) WHERE  DETACH DELETE a\<close>, which the server rejects as a syntax error:
  the call raises and the graph is unchanged, only the call is logged.
\<close>

theorem delete_node_empty_props:
  assumes "ready c w" and "is_ident label"
  shows "delete_node label [] c w =
           (Inl CypherSyntaxError, c, log (CRun (delete_node_query label []) []) w)"
  using assms
  by (simp add: delete_node_def run_query_ready run_cypher_def delete_node_query_empty_parse
      delete_node_params_def)

theorem delete_node_empty_props_witness:
  "fst (delete_node ''Person'' [] demo_conn demo_world) = Inl CypherSyntaxError"
  using delete_node_empty_props [OF demo_ready person_ident] by simp

text \<open>
  C10 (label interpolation). The label is spliced into the query text: a label argument
  \<open>Person:Admin\<close> makes \<open>create_node\<close> create a node carrying the two labels
  \<open>Person\<close> and \<open>Admin\<close>.
\<close>

theorem label_injection:
  assumes "ready c w" and "wf_graph (w_graph w)"
    and "create_node ''Person:Admin'' properties c w = (r, c', w')"
  shows "gnodes (w_graph w') = gnodes (w_graph w) @
           [(gnext (w_graph w), \<lparr>nlabels = [''Person'', ''Admin''], nprops = properties\<rparr>)]"
  using assms
  by (auto simp: create_node_def run_query_ready run_create_parsed [OF injected_label_parse]
      new_node_def)

theorem label_injection_witness:
  "gnodes (w_graph (snd (snd (create_node ''Person:Admin'' alice demo_conn demo_world)))) =
     [(0, \<lparr>nlabels = [''Person'', ''Admin''], nprops = alice\<rparr>)]"
proof -
  let ?y = "create_node ''Person:Admin'' alice demo_conn demo_world"
  show ?thesis
    using label_injection [OF demo_ready demo_wf, of alice "fst ?y" "fst (snd ?y)" "snd (snd ?y)"]
    by (simp add: demo_world_def)
qed

text \<open>
  C11 (keys interpolated, spec P5). \<open>delete_node\<close> splices the property keys into the
  query text unquoted: for every label and every key made of two identifiers separated by
  a space (such as \<open>first name\<close>), whatever the value, the query is a syntax error, so
  the call raises, the graph is unchanged and such a node cannot be deleted through
  \<open>delete_node\<close> at all. (Back-quoting the key, \<open>a.`first name` = $`first name`\<close>, would
  be accepted.)
\<close>

theorem delete_key_not_ident:
  assumes "ready c w" and "is_ident label" and "is_ident k1" and "is_ident k2"
  shows "delete_node label [(k1 @ '' '' @ k2, v)] c w =
    (Inl CypherSyntaxError, c,
     log (CRun (delete_node_query label [(k1 @ '' '' @ k2, v)])
               (delete_node_params [(k1 @ '' '' @ k2, v)])) w)"
proof -
  have "parse (delete_node_query label [(k1 @ '' '' @ k2, v)]) = None"
    by (rule spaced_key_parse [OF assms(2-4)])
  then show ?thesis
    using assms(1) by (simp add: delete_node_def run_query_ready run_cypher_def)
qed

theorem delete_key_not_ident_witness:
  "fst (delete_node ''Person'' [(''first'' @ '' '' @ ''name'', VStr ''Ada'')] demo_conn demo_world) =
     Inl CypherSyntaxError"
proof -
  have h: "is_ident ''first''" "is_ident ''name''" by (simp_all add: is_ident_start_def is_ident_char_def)
  show ?thesis using delete_key_not_ident [OF demo_ready person_ident h, of "VStr ''Ada''"] by simp
qed

text \<open>
  C12 (\<open>show_databases\<close>). On a ready connection \<open>show_databases\<close> returns the names of
  the server's databases in order, opens and commits one transaction, leaves the session
  ready and the graph unchanged.
\<close>

theorem show_databases_ready:
  assumes "ready c w" and "show_databases c w = (r, c', w')"
  shows "r = Inr (map (\<lambda>d. RVal (VStr d)) (gdbs (w_graph w))) \<and> c' = c \<and>
    w_graph w' = w_graph w \<and> w_calls w' = w_calls w @ [CBegin, CTxRun ''SHOW DATABASES'', CCommit]"
  using assms(2) by (auto simp: show_databases_ready_eq [OF assms(1)] log_def)

theorem show_databases_ready_witness:
  "fst (show_databases demo_conn demo_world) = Inr [RVal (VStr ''neo4j''), RVal (VStr ''system'')]"
proof -
  let ?y = "show_databases demo_conn demo_world"
  show ?thesis
    using show_databases_ready [OF demo_ready, of "fst ?y" "fst (snd ?y)" "snd (snd ?y)"]
    by (simp add: demo_world_def)
qed

text \<open>
  C13 (use before \<open>__enter__\<close>). A connection that was constructed but not entered has
  no session: \<open>run_query\<close>, \<open>show_databases\<close> and \<open>__exit__\<close> raise
  \<open>AttributeError\<close> and change nothing, no driver call is made.
\<close>

theorem use_before_enter:
  assumes "neo4j_init uri user password w = (Inr c, w1)"
  shows "run_query q ps c w1 = (Inl AttributeError, c, w1) \<and>
         show_databases c w1 = (Inl AttributeError, c, w1) \<and>
         conn_exit c w1 = (Inl AttributeError, c, w1)"
proof -
  have "c_session c = None"
    using assms by (auto simp: neo4j_init_def graphdb_driver_def Let_def split: if_splits)
  then show ?thesis by (simp add: run_query_def show_databases_def conn_exit_def)
qed

theorem use_before_enter_witness:
  "fst (run_query ''RETURN 1'' [] \<lparr>c_driver = \<lparr>d_uri = demo_uri, d_auth = (demo_user, demo_password),
      d_open = True\<rparr>, c_session = None\<rparr> (log (CDriver demo_uri) demo_world)) = Inl AttributeError"
proof -
  have "neo4j_init demo_uri demo_user demo_password demo_world =
      (Inr \<lparr>c_driver = \<lparr>d_uri = demo_uri, d_auth = (demo_user, demo_password), d_open = True\<rparr>,
            c_session = None\<rparr>, log (CDriver demo_uri) demo_world)"
    by (simp add: neo4j_init_def graphdb_driver_def valid_uri_def uri_schemes_def demo_uri_def)
  from use_before_enter [OF this, of "''RETURN 1''" "[]"] show ?thesis by simp
qed

text \<open>
  C14 (use after \<open>__exit__\<close>). After \<open>__exit__\<close> returned, the connection keeps
  its closed session: \<open>run_query\<close> and \<open>show_databases\<close> raise \<open>SessionClosed\<close>, and
  the graph is untouched (only the attempted call is logged).
\<close>

theorem use_after_exit:
  assumes "conn_exit c w = (Inr u, c', w')"
  shows "run_query q ps c' w' = (Inl SessionClosed, c', log (CRun q ps) w') \<and>
         show_databases c' w' = (Inl SessionClosed, c', log CBegin w')"
proof -
  from assms obtain s where s: "c_session c' = Some s" and o: "\<not> s_open s"
    by (auto simp: conn_exit_def session_close_def driver_close_def split: option.splits)
  have c_eq: "c'\<lparr>c_session := Some s\<rparr> = c'" using s by (cases c') simp
  from s o c_eq show ?thesis
    by (simp add: run_query_def session_run_def show_databases_def begin_transaction_def Let_def)
qed

theorem use_after_exit_witness:
  "let x = conn_exit demo_conn demo_world
   in fst (run_query ''RETURN 1'' [] (fst (snd x)) (snd (snd x))) = Inl SessionClosed"
proof -
  let ?x = "conn_exit demo_conn demo_world"
  have "?x = (Inr (), fst (snd ?x), snd (snd ?x))"
    by (simp add: conn_exit_def demo_conn_def session_close_def driver_close_def)
  from use_after_exit [OF this, of "''RETURN 1''" "[]"] show ?thesis by (simp add: Let_def)
qed

text \<open>
  C15 (exceptions of the body). With a valid URI, the value of the \<open>with\<close> statement is
  the body's: the first exception a statement raises propagates to the caller after
  \<open>__exit__\<close> ran, since \<open>__exit__\<close> returns \<open>None\<close> and does not raise there.
\<close>

theorem with_connection_body_error:
  assumes "valid_uri uri"
  shows "fst (with_connection uri user password body w) =
         fst (run_body body (opened_conn uri user password) (log CSession (log (CDriver uri) w)))"
proof -
  let ?w2 = "log CSession (log (CDriver uri) w)"
  obtain r c3 w3 where b: "run_body body (opened_conn uri user password) ?w2 = (r, c3, w3)"
    by (cases "run_body body (opened_conn uri user password) ?w2")
  have "c_session c3 \<noteq> None"
    using run_body_effect [OF _ b] by (simp add: opened_conn_def body_effect_def)
  with b show ?thesis by (auto simp: with_connection_valid [OF assms])
qed

theorem with_connection_body_error_witness:
  "fst (with_connection demo_uri demo_user demo_password [SDeleteNode ''Person'' []] demo_world) =
     Inl CypherSyntaxError"
proof -
  have u: "valid_uri demo_uri" by (simp add: valid_uri_def uri_schemes_def demo_uri_def)
  have "fst (run_body [SDeleteNode ''Person'' []] (opened_conn demo_uri demo_user demo_password)
           (log CSession (log (CDriver demo_uri) demo_world))) = Inl CypherSyntaxError"
    by code_simp
  with with_connection_body_error [OF u, of demo_user demo_password "[SDeleteNode ''Person'' []]"
      demo_world] show ?thesis by simp
qed

text \<open>
  C16 (bad URI). With a URI whose scheme the driver does not accept, the constructor
  raises \<open>ConfigurationError\<close>: the body never runs, no session is opened and the graph
  is unchanged.
\<close>

theorem with_connection_bad_uri:
  assumes "\<not> valid_uri uri" and "with_connection uri user password body w = (r, w')"
  shows "r = Inl ConfigurationError \<and> w_calls w' = w_calls w @ [CDriver uri] \<and> w_graph w' = w_graph w"
  using assms by (auto simp: with_connection_invalid log_def)

theorem with_connection_bad_uri_witness:
  "fst (with_connection ''http://172.29.0.104:7474'' demo_user demo_password usage_body demo_world) =
     Inl ConfigurationError"
proof -
  let ?y = "with_connection ''http://172.29.0.104:7474'' demo_user demo_password usage_body demo_world"
  have "\<not> valid_uri ''http://172.29.0.104:7474''" by (simp add: valid_uri_def uri_schemes_def)
  from with_connection_bad_uri [OF this, of demo_user demo_password usage_body demo_world
      "fst ?y" "snd ?y"] show ?thesis by simp
qed

text \<open>
  C17 (unreachable server or bad credentials). The driver connects lazily: on an open
  session, \<open>run_query\<close> raises \<open>ServiceUnavailable\<close> when the server is down and
  \<open>AuthError\<close> when it rejects the credentials, and the graph is unchanged.
\<close>

theorem run_query_unreachable:
  assumes "c_session c = Some s" and "s_open s" and "\<not> s_tx s"
    and "\<not> (w_up w \<and> s_auth s \<in> set (w_users w))"
  shows "run_query q ps c w =
           (Inl (if w_up w then AuthError else ServiceUnavailable), c, log (CRun q ps) w)"
  using assms by (auto simp: run_query_def session_run_def connect_def log_def Let_def)

theorem run_query_unreachable_witness:
  "fst (run_query ''RETURN 1'' [] demo_conn (demo_world\<lparr>w_up := False\<rparr>)) = Inl ServiceUnavailable"
proof -
  have h: "c_session demo_conn = Some \<lparr>s_auth = (demo_user, demo_password), s_open = True, s_tx = False\<rparr>"
    by (simp add: demo_conn_def)
  from run_query_unreachable [OF h, of "demo_world\<lparr>w_up := False\<rparr>" "''RETURN 1''" "[]"]
  show ?thesis by simp
qed



text \<open>
  C25 (when the round trip holds, spec P1). Seen as the maps of nodes and relationships a
  client observes, \<open>create_node(label, properties)\<close> followed by
  \<open>delete_node(label, properties)\<close> restores the database exactly when no node matched
  the label and the properties before: P1 holds on those inputs and on no others.
\<close>

theorem create_delete_restores_iff:
  assumes "ready c w" and "wf_graph (w_graph w)" and "is_ident label"
    and "properties \<noteq> []" and "list_all is_ident (map fst properties)"
    and "create_node label properties c w = (r1, c1, w1)"
    and "delete_node label properties c1 w1 = (r2, c2, w2)"
  shows "abs_graph (w_graph w2) = abs_graph (w_graph w) \<longleftrightarrow>
           matching_ids label properties (w_graph w) = []"
proof -
  have "set (matching_ids label properties (w_graph w)) \<subseteq> set (node_ids (w_graph w))"
    by (auto simp: matching_ids_def node_ids_def)
  with create_delete_graph [OF assms] show ?thesis
    by (simp add: abs_graph_counter abs_graph_detach_delete_eq)
qed

theorem create_delete_restores_iff_witness:
  "let w = demo_world\<lparr>w_graph := two_alices\<rparr>;
       x = create_node ''Person'' alice demo_conn w;
       y = delete_node ''Person'' alice (fst (snd x)) (snd (snd x))
   in abs_graph (w_graph (snd (snd y))) \<noteq> abs_graph two_alices"
proof -
  let ?w = "demo_world\<lparr>w_graph := two_alices\<rparr>"
  let ?x = "create_node ''Person'' alice demo_conn ?w"
  let ?y = "delete_node ''Person'' alice (fst (snd ?x)) (snd (snd ?x))"
  have h: "wf_graph (w_graph ?w)" "alice \<noteq> []" "list_all is_ident (map fst alice)"
    by (simp_all add: alice_def bob_def two_alices_def wf_graph_def node_ids_def
        is_ident_start_def is_ident_char_def)
  have m: "matching_ids ''Person'' alice two_alices \<noteq> []"
    by (simp add: matching_ids_def has_props_def two_alices_def alice_def)
  show ?thesis
    using create_delete_restores_iff [OF demo_ready_graph h(1) person_ident h(2,3),
        of "fst ?x" "fst (snd ?x)" "snd (snd ?x)" "fst ?y" "fst (snd ?y)" "snd (snd ?y)"] m
    by (simp add: Let_def)
qed

text \<open>
  C27 (\<open>show_databases\<close> on an unreachable server). When the server is down or rejects the
  credentials, \<open>session.begin_transaction()\<close> raises before the transaction scope is
  entered: \<open>show_databases\<close> raises the driver's error, no query, commit or rollback is
  sent, and the connection is unchanged, still outside any transaction.
\<close>

theorem show_databases_unreachable:
  assumes "c_session c = Some s" and "s_open s" and "\<not> s_tx s"
    and "\<not> (w_up w \<and> s_auth s \<in> set (w_users w))"
  shows "show_databases c w = (Inl (if w_up w then AuthError else ServiceUnavailable), c, log CBegin w)"
proof -
  have "c\<lparr>c_session := Some s\<rparr> = c" using assms(1) by (cases c) simp
  with assms show ?thesis
    by (cases "w_up w") (simp_all add: show_databases_def begin_transaction_def connect_def log_def
        Let_def)
qed

theorem show_databases_unreachable_witness:
  "show_databases demo_conn (demo_world\<lparr>w_up := False\<rparr>) =
     (Inl ServiceUnavailable, demo_conn, log CBegin (demo_world\<lparr>w_up := False\<rparr>))"
proof -
  have h: "c_session demo_conn = Some \<lparr>s_auth = (demo_user, demo_password), s_open = True, s_tx = False\<rparr>"
    by (simp add: demo_conn_def)
  from show_databases_unreachable [OF h, of "demo_world\<lparr>w_up := False\<rparr>"] show ?thesis by simp
qed

end
